(* ===== verification/Prelude.thy ===== *)
theory Prelude
  imports Main "HOL-Library.DAList" "HOL-Library.Char_ord" "HOL-Library.List_Lexorder"
begin

text \<open>
  What the components share: the exception values of the Fleet scripts, results of fallible
  code, Python dictionaries as association lists with unique keys, and the rewrite rules that
  let the simplifier read a chain of guards (\<open>if bad then Inl e else ...\<close>) as the
  conjunction of what the guards let through.
\<close>

section \<open>Results of fallible code\<close>

text \<open>
  The exception classes that leave the modelled functions.  \<open>MissionConflict\<close> and
  \<open>AdmissionError\<close> are subclasses of \<open>MissionStateError\<close> in the source;
  \<open>is_state_error\<close> is the \<open>except MissionStateError\<close> clause.  Messages are
  not modelled.  \<open>DecisionError\<close>, the error of the decision client, is no subclass of it.
  \<open>StopIteration\<close> is what an exhausted \<open>next(...)\<close> raises and
  \<open>KeyError\<close> a missing
  dictionary key, and \<open>TypeError\<close> a subscript of None, and
  \<open>AttributeError\<close> a method call on a value of another type.
\<close>

datatype error =
  MissionStateError
| MissionConflict
| AdmissionError
| FleetJSONError
| InferenceError
| RiskError
| StopIteration
| KeyError
| TypeError
| AttributeError
| DecisionError

type_synonym 'a result = "error + 'a"

fun is_state_error :: "error \<Rightarrow> bool" where
  "is_state_error MissionStateError = True"
| "is_state_error MissionConflict = True"
| "is_state_error AdmissionError = True"
| "is_state_error _ = False"

named_theorems guard_simps
  \<open>read a chain of guards that ends in a result as a conjunction\<close>

lemma if_Inl_eq_Inr [guard_simps]:
  "(if b then Inl e else r) = Inr x \<longleftrightarrow> \<not> b \<and> r = Inr x"
  by simp

lemma if_else_Inl_eq_Inr [guard_simps]:
  "(if b then r else Inl e) = Inr x \<longleftrightarrow> b \<and> r = Inr x"
  by simp

lemma option_case_Inl_eq_Inr [guard_simps]:
  "(case ox of None \<Rightarrow> Inl e | Some a \<Rightarrow> f a) = Inr x \<longleftrightarrow> (\<exists>a. ox = Some a \<and> f a = Inr x)"
  by (cases ox) auto

lemma sum_case_Inl_eq_Inr [guard_simps]:
  "(case r of Inl e \<Rightarrow> Inl (g e) | Inr a \<Rightarrow> f a) = Inr x \<longleftrightarrow> (\<exists>a. r = Inr a \<and> f a = Inr x)"
  by (cases r) auto

text \<open>An assertion: the value of a \<open>_require_*\<close> call that returns nothing.\<close>

definition require :: "bool \<Rightarrow> error \<Rightarrow> unit result" where
  "require ok e = (if ok then Inr () else Inl e)"

lemma require_eq_Inr [guard_simps]: "require ok e = Inr u \<longleftrightarrow> ok"
  by (simp add: require_def)

section \<open>Dictionaries\<close>

text \<open>
  A Python dictionary with string keys: an association list with unique keys, in insertion
  order.  Storing under a present key keeps its position, storing under a new key appends,
  as in Python.
\<close>

type_synonym 'v dict = "(string, 'v) alist"

abbreviation dget :: "'v dict \<Rightarrow> string \<Rightarrow> 'v option" where
  "dget \<equiv> DAList.lookup"

abbreviation dput :: "string \<Rightarrow> 'v \<Rightarrow> 'v dict \<Rightarrow> 'v dict" where
  "dput \<equiv> DAList.update"

abbreviation ddel :: "string \<Rightarrow> 'v dict \<Rightarrow> 'v dict" where
  "ddel \<equiv> DAList.delete"

abbreviation dempty :: "'v dict" where
  "dempty \<equiv> DAList.empty"

abbreviation ditems :: "'v dict \<Rightarrow> (string \<times> 'v) list" where
  "ditems \<equiv> DAList.impl_of"

abbreviation dvals :: "'v dict \<Rightarrow> 'v list" where
  "dvals d \<equiv> map snd (ditems d)"

abbreviation dkeys :: "'v dict \<Rightarrow> string list" where
  "dkeys d \<equiv> map fst (ditems d)"

definition dhas :: "'v dict \<Rightarrow> string \<Rightarrow> bool" where
  "dhas d k \<longleftrightarrow> dget d k \<noteq> None"

text \<open>
  The interface the reducers use, and what follows from its laws alone: how a total over the
  values, and the existence of a value, change when one key is stored or removed.
\<close>

locale dictionary =
  fixes get :: "'d \<Rightarrow> 'k \<Rightarrow> 'v option"
    and put :: "'k \<Rightarrow> 'v \<Rightarrow> 'd \<Rightarrow> 'd"
    and del :: "'k \<Rightarrow> 'd \<Rightarrow> 'd"
    and empty_dict :: 'd
    and items :: "'d \<Rightarrow> ('k \<times> 'v) list"
  assumes get_empty: "get empty_dict k = None"
    and get_put: "get (put k v d) k' = (if k = k' then Some v else get d k')"
    and get_del: "get (del k d) k' = (if k = k' then None else get d k')"
    and items_get: "(k, v) \<in> set (items d) \<longleftrightarrow> get d k = Some v"
    and items_distinct: "distinct (map fst (items d))"
begin

lemma items_empty: "items empty_dict = []"
  using items_get [where d = empty_dict] get_empty by (cases "items empty_dict") auto

lemma set_vals: "v \<in> set (map snd (items d)) \<longleftrightarrow> (\<exists>k. get d k = Some v)"
  by (force simp: items_get [symmetric])

lemma ex_val: "(\<exists>v \<in> set (map snd (items d)). P v) \<longleftrightarrow> (\<exists>k v. get d k = Some v \<and> P v)"
  using set_vals by blast

lemma all_val: "(\<forall>v \<in> set (map snd (items d)). P v) \<longleftrightarrow> (\<forall>k v. get d k = Some v \<longrightarrow> P v)"
  using set_vals by blast

lemma distinct_items: "distinct (items d)"
  using items_distinct by (simp add: distinct_map)

definition total :: "('v \<Rightarrow> int) \<Rightarrow> 'd \<Rightarrow> int" where
  "total f d = (\<Sum>v \<leftarrow> map snd (items d). f v)"

lemma total_as_sum: "total f d = (\<Sum>kv \<in> set (items d). f (snd kv))"
  using distinct_items by (simp add: total_def sum_list_distinct_conv_sum_set o_def)

lemma set_items_del:
  "set (items (del k d)) = set (items d) - {(k, v) | v. get d k = Some v}"
  by (auto simp: items_get get_del split: if_splits)

lemma set_items_put:
  "set (items (put k v d)) = insert (k, v) (set (items (del k d)))"
  by (auto simp: items_get get_put get_del split: if_splits)

lemma total_same: "(\<And>k. get d k = get d' k) \<Longrightarrow> total f d = total f d'"
proof -
  assume "\<And>k. get d k = get d' k"
  then have "set (items d) = set (items d')" by (auto simp: items_get)
  then show ?thesis by (simp add: total_as_sum)
qed

lemma total_zero: "(\<And>k v. get d k = Some v \<Longrightarrow> f v = 0) \<Longrightarrow> total f d = 0"
  by (auto simp: total_as_sum items_get intro!: sum.neutral)

lemma total_empty: "total f empty_dict = 0"
  by (simp add: total_def items_empty)

lemma total_del:
  "total f (del k d) = total f d - (case get d k of None \<Rightarrow> 0 | Some w \<Rightarrow> f w)"
proof (cases "get d k")
  case None
  then show ?thesis by (simp add: total_as_sum set_items_del)
next
  case (Some w)
  then have "set (items (del k d)) = set (items d) - {(k, w)}"
    by (auto simp: set_items_del)
  moreover have "(k, w) \<in> set (items d)"
    using Some by (simp add: items_get)
  ultimately show ?thesis
    using Some by (simp add: total_as_sum sum_diff1)
qed

lemma total_put:
  "total f (put k v d) = total f d - (case get d k of None \<Rightarrow> 0 | Some w \<Rightarrow> f w) + f v"
proof -
  have "(k, v) \<notin> set (items (del k d))"
    by (simp add: items_get get_del)
  then have "total f (put k v d) = total f (del k d) + f v"
    by (simp add: total_as_sum set_items_put)
  then show ?thesis
    by (simp add: total_del)
qed

lemma total_cong:
  "(\<And>k v. get d k = Some v \<Longrightarrow> f v = g v) \<Longrightarrow> total f d = total g d"
  by (auto simp: total_as_sum items_get intro!: sum.cong)

lemma total_nonneg:
  "(\<And>k v. get d k = Some v \<Longrightarrow> 0 \<le> f v) \<Longrightarrow> 0 \<le> total f d"
  by (auto simp: total_as_sum items_get intro!: sum_nonneg)

lemma total_ge_member:
  assumes "get d k = Some v" and "\<And>k v. get d k = Some v \<Longrightarrow> 0 \<le> f v"
  shows "f v \<le> total f d"
proof -
  have "(k, v) \<in> set (items d)"
    using assms(1) by (simp add: items_get)
  moreover have "\<forall>kv \<in> set (items d). 0 \<le> f (snd kv)"
    using assms(2) by (auto simp: items_get)
  ultimately show ?thesis
    using member_le_sum [where i = "(k, v)" and f = "\<lambda>kv. f (snd kv)" and A = "set (items d)"]
    by (auto simp: total_as_sum)
qed

end

lemma dict_lookup_items:
  "(k, v) \<in> set (DAList.impl_of d) \<longleftrightarrow> DAList.lookup d k = Some v"
  by transfer auto

interpretation dict: dictionary DAList.lookup DAList.update DAList.delete DAList.empty DAList.impl_of
  by unfold_locales (auto simp: lookup_update dict_lookup_items)

declare dict.get_put [simp] dict.items_empty [simp] dict.total_empty [simp]

lemmas dict_val_simps = dict.ex_val dict.all_val dict.set_vals

lemma items_put [simp]: "DAList.impl_of (DAList.update k v d) = AList.update k v (DAList.impl_of d)"
  by transfer simp

lemma items_del [simp]: "DAList.impl_of (DAList.delete k d) = AList.delete k (DAList.impl_of d)"
  by transfer simp

lemma dput_same [simp]: "dget d k = Some v \<Longrightarrow> dput k v d = d"
  by transfer (simp add: AList.update_triv)

end
