(* ===== verification/Json.thy ===== *)
theory Json
  imports Prelude
begin

text \<open>
  The JSON values of scripts/fleet_json.py and their one canonical text.  A value is what
  \<open>fleet_json.loads\<close> returns: objects have unique keys, strings are the bytes of their
  UTF-8 encoding, and numbers are integers (the only durable field that may hold a
  fractional number is the free-form expected output contract of a delegation; fractional
  numbers are not modelled).
\<close>

section \<open>Values and access\<close>

datatype json =
  JNull
| JBool bool
| JInt int
| JStr string
| JArr "json list"
| JObj "(string \<times> json) list"

fun obj_items :: "json \<Rightarrow> (string \<times> json) list" where
  "obj_items (JObj kvs) = kvs"
| "obj_items _ = []"

text \<open>\<open>field p k\<close> is \<open>p[k]\<close> for a present key; it is only read after the key set was checked.\<close>

definition field :: "json \<Rightarrow> string \<Rightarrow> json" where
  "field p k = (case map_of (obj_items p) k of None \<Rightarrow> JNull | Some v \<Rightarrow> v)"

definition has_field :: "json \<Rightarrow> string \<Rightarrow> bool" where
  "has_field p k \<longleftrightarrow> k \<in> set (map fst (obj_items p))"

text \<open>\<open>set(payload) == required\<close>.\<close>

definition has_exactly :: "json \<Rightarrow> string list \<Rightarrow> bool" where
  "has_exactly p ks \<longleftrightarrow> list_all (\<lambda>k. k \<in> set ks) (map fst (obj_items p)) \<and> list_all (has_field p) ks"

fun is_obj :: "json \<Rightarrow> bool" where
  "is_obj (JObj _) = True"
| "is_obj _ = False"

fun is_arr :: "json \<Rightarrow> bool" where
  "is_arr (JArr _) = True"
| "is_arr _ = False"

fun is_str :: "json \<Rightarrow> bool" where
  "is_str (JStr _) = True"
| "is_str _ = False"

fun is_bool :: "json \<Rightarrow> bool" where
  "is_bool (JBool _) = True"
| "is_bool _ = False"

text \<open>\<open>isinstance(x, int) and not isinstance(x, bool)\<close>, also \<open>type(x) is int\<close>.\<close>

fun is_int :: "json \<Rightarrow> bool" where
  "is_int (JInt _) = True"
| "is_int _ = False"

fun str_of :: "json \<Rightarrow> string" where
  "str_of (JStr s) = s"
| "str_of _ = []"

fun int_of :: "json \<Rightarrow> int" where
  "int_of (JInt i) = i"
| "int_of _ = 0"

fun bool_of :: "json \<Rightarrow> bool" where
  "bool_of (JBool b) = b"
| "bool_of _ = False"

fun arr_of :: "json \<Rightarrow> json list" where
  "arr_of (JArr xs) = xs"
| "arr_of _ = []"

text \<open>A nullable string: \<open>None\<close> or the string.\<close>

fun ostr_of :: "json \<Rightarrow> string option" where
  "ostr_of (JStr s) = Some s"
| "ostr_of _ = None"

definition jopt :: "string option \<Rightarrow> json" where
  "jopt o' = (case o' of None \<Rightarrow> JNull | Some s \<Rightarrow> JStr s)"

lemma ostr_of_jopt [simp]: "ostr_of (jopt x) = x"
  by (cases x) (simp_all add: jopt_def)

section \<open>Canonical text\<close>

definition hex_digit :: "nat \<Rightarrow> char" where
  "hex_digit n = (if n < 10 then char_of (48 + n) else char_of (87 + n))"

definition decimal_digit :: "nat \<Rightarrow> char" where
  "decimal_digit n = char_of (48 + n)"

function decimal :: "int \<Rightarrow> string" where
  "decimal i =
     (if i < 10 then [decimal_digit (nat i)] else decimal (i div 10) @ [decimal_digit (nat (i mod 10))])"
  by pat_completeness auto
termination by (relation "measure nat") auto

declare decimal.simps [simp del]

definition int_text :: "int \<Rightarrow> string" where
  "int_text i = (if i < 0 then ''-'' @ decimal (- i) else decimal i)"

text \<open>
  The escapes of \<open>json.dumps(..., ensure_ascii=False)\<close>: the quote, the backslash and the
  control characters below 32; every other byte is copied.
\<close>

definition escape_char :: "char \<Rightarrow> string" where
  "escape_char c =
     (let n = of_char c :: nat in
      if n = 34 then [CHR 0x5C, CHR 0x22]
      else if n = 92 then [CHR 0x5C, CHR 0x5C]
      else if n = 8 then [CHR 0x5C, CHR ''b'']
      else if n = 12 then [CHR 0x5C, CHR ''f'']
      else if n = 10 then [CHR 0x5C, CHR ''n'']
      else if n = 13 then [CHR 0x5C, CHR ''r'']
      else if n = 9 then [CHR 0x5C, CHR ''t'']
      else if n < 32 then [CHR 0x5C] @ ''u00'' @ [hex_digit (n div 16), hex_digit (n mod 16)]
      else [c])"

definition quoted :: "string \<Rightarrow> string" where
  "quoted s = CHR 0x22 # concat (map escape_char s) @ [CHR 0x22]"

fun comma_sep :: "string list \<Rightarrow> string" where
  "comma_sep [] = []"
| "comma_sep [x] = x"
| "comma_sep (x # y # xs) = x @ '','' @ comma_sep (y # xs)"

fun canonical_bytes :: "json \<Rightarrow> string" where
  "canonical_bytes JNull = ''null''"
| "canonical_bytes (JBool b) = (if b then ''true'' else ''false'')"
| "canonical_bytes (JInt i) = int_text i"
| "canonical_bytes (JStr s) = quoted s"
| "canonical_bytes (JArr xs) = ''['' @ comma_sep (map canonical_bytes xs) @ '']''"
| "canonical_bytes (JObj kvs) =
     ''{'' @ comma_sep (map (\<lambda>(k, t). quoted k @ '':'' @ t)
        (sort_key fst (map (\<lambda>(k, v). (k, canonical_bytes v)) kvs))) @ ''}''"

text \<open>\<open>loads_strict(canonical_bytes(value))\<close>: the same value, keys in canonical order.\<close>

fun canonical_copy :: "json \<Rightarrow> json" where
  "canonical_copy (JArr xs) = JArr (map canonical_copy xs)"
| "canonical_copy (JObj kvs) = JObj (sort_key fst (map (\<lambda>(k, v). (k, canonical_copy v)) kvs))"
| "canonical_copy j = j"

section \<open>Equality of values\<close>

text \<open>
  Python compares dictionaries without regard to key order and counts \<open>True\<close> equal to
  \<open>1\<close>.  \<open>norm_json\<close> maps a value to a representative of its equality class.
\<close>

fun norm_json :: "json \<Rightarrow> json" where
  "norm_json (JBool b) = JInt (if b then 1 else 0)"
| "norm_json (JArr xs) = JArr (map norm_json xs)"
| "norm_json (JObj kvs) = JObj (sort_key fst (map (\<lambda>(k, v). (k, norm_json v)) kvs))"
| "norm_json j = j"

definition py_eq :: "json \<Rightarrow> json \<Rightarrow> bool" where
  "py_eq x y \<longleftrightarrow> norm_json x = norm_json y"

lemma py_eq_refl [simp]: "py_eq x x"
  by (simp add: py_eq_def)

lemma py_eq_sym: "py_eq x y \<Longrightarrow> py_eq y x"
  by (simp add: py_eq_def)

lemma py_eq_trans: "py_eq x y \<Longrightarrow> py_eq y z \<Longrightarrow> py_eq x z"
  by (simp add: py_eq_def)

end
