(* ===== verification/Checks.thy ===== *)
theory Checks
  imports Json
begin

text \<open>
  The scalar checks of scripts/fleet_mission_state.py (the compiled patterns and the
  \<open>_require_*\<close> helpers), identifiers, timestamps, and the library functions the ledger
  relies on.
\<close>

section \<open>Library functions\<close>

text \<open>
  The functions of the Python library the ledger calls, as arguments of the model:
  \<open>hexdigest\<close> is \<open>hashlib.sha256(data).hexdigest()\<close>, \<open>uuid5\<close> is
  \<open>str(uuid.uuid5(uuid.UUID(namespace), name))\<close>, \<open>parse_iso\<close> the instant, in
  microseconds, that \<open>datetime.fromisoformat\<close> reads from an aware timestamp (None where it
  raises or where the timestamp has no timezone), \<open>format_iso\<close> the text that
  \<open>isoformat(timespec='microseconds')\<close> writes with the suffix Z, and \<open>parse_float\<close> the value
  that the JSON reader makes of the text of a fractional number (None where it refuses it).
\<close>

record prims =
  hexdigest :: "string \<Rightarrow> string"
  uuid5 :: "string \<Rightarrow> string \<Rightarrow> string"
  parse_iso :: "string \<Rightarrow> int option"
  format_iso :: "int \<Rightarrow> string"
  parse_float :: "string \<Rightarrow> json option"

section \<open>Character classes and patterns\<close>

definition is_digit :: "char \<Rightarrow> bool" where
  "is_digit c \<longleftrightarrow> CHR ''0'' \<le> c \<and> c \<le> CHR ''9''"

definition is_lower :: "char \<Rightarrow> bool" where
  "is_lower c \<longleftrightarrow> CHR ''a'' \<le> c \<and> c \<le> CHR ''z''"

definition is_upper :: "char \<Rightarrow> bool" where
  "is_upper c \<longleftrightarrow> CHR ''A'' \<le> c \<and> c \<le> CHR ''Z''"

definition is_alnum :: "char \<Rightarrow> bool" where
  "is_alnum c \<longleftrightarrow> is_digit c \<or> is_lower c \<or> is_upper c"

definition is_hex :: "char \<Rightarrow> bool" where
  "is_hex c \<longleftrightarrow> is_digit c \<or> (CHR ''a'' \<le> c \<and> c \<le> CHR ''f'')"

text \<open>\<open>^[first][rest]{0,n}$\<close> under \<open>fullmatch\<close>.\<close>

fun head_tail :: "(char \<Rightarrow> bool) \<Rightarrow> (char \<Rightarrow> bool) \<Rightarrow> nat \<Rightarrow> string \<Rightarrow> bool" where
  "head_tail p q n [] = False"
| "head_tail p q n (c # cs) = (p c \<and> list_all q cs \<and> length cs \<le> n)"

definition safe_kind :: "string \<Rightarrow> bool" where
  "safe_kind = head_tail is_lower (\<lambda>c. is_lower c \<or> is_digit c \<or> c = CHR ''_'') 63"

definition safe_actor :: "string \<Rightarrow> bool" where
  "safe_actor = head_tail (\<lambda>c. is_lower c \<or> is_upper c)
     (\<lambda>c. is_alnum c \<or> c \<in> {CHR ''_'', CHR ''.'', CHR '':'', CHR ''-''}) 127"

definition safe_key :: "string \<Rightarrow> bool" where
  "safe_key = head_tail is_alnum
     (\<lambda>c. is_alnum c \<or> c \<in> {CHR ''.'', CHR ''_'', CHR '':'', CHR ''-''}) 191"

definition safe_feature :: "string \<Rightarrow> bool" where
  "safe_feature = head_tail is_alnum
     (\<lambda>c. is_alnum c \<or> c \<in> {CHR ''.'', CHR ''_'', CHR ''-''}) 63"

definition safe_decision_option :: "string \<Rightarrow> bool" where
  "safe_decision_option = head_tail is_lower
     (\<lambda>c. is_lower c \<or> is_digit c \<or> c = CHR ''_'' \<or> c = CHR ''-'') 47"

definition is_sha256 :: "string \<Rightarrow> bool" where
  "is_sha256 s \<longleftrightarrow> length s = 64 \<and> list_all is_hex s"

definition is_git_oid :: "string \<Rightarrow> bool" where
  "is_git_oid s \<longleftrightarrow> (length s = 40 \<or> length s = 64) \<and> list_all is_hex s"

definition genesis_sha256 :: string where
  "genesis_sha256 = replicate 64 (CHR ''0'')"

text \<open>The number of code points of a UTF-8 string (continuation bytes do not count).\<close>

definition code_points :: "string \<Rightarrow> nat" where
  "code_points s = length (filter (\<lambda>c. (of_char c :: nat) div 64 \<noteq> 2) s)"

section \<open>UUIDs\<close>

text \<open>The canonical spelling: five groups of lower-case hexadecimal digits.\<close>

definition is_uuid :: "string \<Rightarrow> bool" where
  "is_uuid s \<longleftrightarrow> length s = 36
     \<and> s ! 8 = CHR ''-'' \<and> s ! 13 = CHR ''-'' \<and> s ! 18 = CHR ''-'' \<and> s ! 23 = CHR ''-''
     \<and> list_all is_hex (take 8 s) \<and> list_all is_hex (take 4 (drop 9 s))
     \<and> list_all is_hex (take 4 (drop 14 s)) \<and> list_all is_hex (take 4 (drop 19 s))
     \<and> list_all is_hex (drop 24 s)"

definition to_lower :: "char \<Rightarrow> char" where
  "to_lower c = (if is_upper c then char_of (of_char c + 32 :: nat) else c)"

text \<open>
  \<open>str(uuid.UUID(text))\<close>: drop every \<open>urn:\<close> and \<open>uuid:\<close>, the surrounding braces and
  every hyphen, and require 32 hexadecimal digits.  (Spellings that only Python's integer
  parser tolerates inside the 32 characters, such as underscores, are rejected here.)
\<close>

function remove_all :: "string \<Rightarrow> string \<Rightarrow> string" where
  "remove_all pat s =
     (if s = [] then []
      else if pat \<noteq> [] \<and> take (length pat) s = pat then remove_all pat (drop (length pat) s)
      else hd s # remove_all pat (tl s))"
  by pat_completeness auto
termination
  by (relation "measure (\<lambda>(pat, s). length s)") (auto simp: length_greater_0_conv [symmetric] simp del: length_greater_0_conv)

declare remove_all.simps [simp del]

definition strip_braces :: "string \<Rightarrow> string" where
  "strip_braces s =
     (let brace = (\<lambda>c. c = CHR 0x7B \<or> c = CHR 0x7D) in
      rev (dropWhile brace (rev (dropWhile brace s))))"

definition hyphenate :: "string \<Rightarrow> string" where
  "hyphenate h = take 8 h @ ''-'' @ take 4 (drop 8 h) @ ''-'' @ take 4 (drop 12 h) @ ''-''
     @ take 4 (drop 16 h) @ ''-'' @ drop 20 h"

definition normalize_uuid :: "string \<Rightarrow> string result" where
  "normalize_uuid s =
     (let h = map to_lower (remove_all ''-''
                (strip_braces (remove_all ''uuid:'' (remove_all ''urn:'' s)))) in
      if length h = 32 \<and> list_all is_hex h then Inr (hyphenate h) else Inl MissionStateError)"

section \<open>Checks of JSON values\<close>

definition v_sha :: "json \<Rightarrow> bool" where
  "v_sha v \<longleftrightarrow> is_str v \<and> is_sha256 (str_of v)"

definition v_uuid :: "json \<Rightarrow> bool" where
  "v_uuid v \<longleftrightarrow> is_str v \<and> is_uuid (str_of v)"

definition v_nonempty :: "json \<Rightarrow> bool" where
  "v_nonempty v \<longleftrightarrow> is_str v \<and> str_of v \<noteq> []"

definition v_uint :: "json \<Rightarrow> bool" where
  "v_uint v \<longleftrightarrow> is_int v \<and> 0 \<le> int_of v"

definition v_feature :: "json \<Rightarrow> bool" where
  "v_feature v \<longleftrightarrow> is_str v \<and> safe_feature (str_of v)"

definition v_git_oid :: "json \<Rightarrow> bool" where
  "v_git_oid v \<longleftrightarrow> is_str v \<and> is_git_oid (str_of v)"

definition v_option_id :: "json \<Rightarrow> bool" where
  "v_option_id v \<longleftrightarrow> v_nonempty v \<and> safe_decision_option (str_of v)"

definition v_nullable :: "(json \<Rightarrow> bool) \<Rightarrow> json \<Rightarrow> bool" where
  "v_nullable p v \<longleftrightarrow> v = JNull \<or> p v"

definition v_string_list :: "json \<Rightarrow> bool" where
  "v_string_list v \<longleftrightarrow> is_arr v \<and> list_all v_nonempty (arr_of v)"

definition v_unique_string_list :: "json \<Rightarrow> bool" where
  "v_unique_string_list v \<longleftrightarrow> v_string_list v \<and> distinct (map str_of (arr_of v))"

definition v_in :: "string list \<Rightarrow> json \<Rightarrow> bool" where
  "v_in allowed v \<longleftrightarrow> is_str v \<and> str_of v \<in> set allowed"

definition v_time :: "prims \<Rightarrow> json \<Rightarrow> bool" where
  "v_time E v \<longleftrightarrow> is_str v \<and> parse_iso E (str_of v) \<noteq> None"

definition sget :: "json \<Rightarrow> string \<Rightarrow> string" where
  "sget p k = str_of (field p k)"

definition oget :: "json \<Rightarrow> string \<Rightarrow> string option" where
  "oget p k = ostr_of (field p k)"

definition iget :: "json \<Rightarrow> string \<Rightarrow> int" where
  "iget p k = int_of (field p k)"

definition bget :: "json \<Rightarrow> string \<Rightarrow> bool" where
  "bget p k = bool_of (field p k)"

definition slist :: "json \<Rightarrow> string \<Rightarrow> string list" where
  "slist p k = map str_of (arr_of (field p k))"

section \<open>Digests and instants\<close>

text \<open>\<open>fleet_json.sha256\<close> of a JSON value: the digest of its canonical bytes.\<close>

definition sha256 :: "prims \<Rightarrow> json \<Rightarrow> string" where
  "sha256 E v = (hexdigest E \<circ> canonical_bytes) v"

text \<open>
  \<open>parse_timestamp\<close> of a timestamp that was checked before; a text that does not parse
  counts as the epoch.
\<close>

definition instant :: "prims \<Rightarrow> string \<Rightarrow> int" where
  "instant E t = (case parse_iso E t of None \<Rightarrow> 0 | Some i \<Rightarrow> i)"

definition seconds :: "int \<Rightarrow> int" where
  "seconds n = n * 1000000"

end
