(* ===== verification/Events.thy ===== *)
theory Events
  imports Checks
begin

text \<open>
  The closed registry of mission events as data: one constructor per event kind that the
  reducer of scripts/fleet_mission_state.py distinguishes, with the fields of its payload.  A
  field that older ledger schemas lack is an option.
\<close>

section \<open>Risk levels\<close>

datatype risk = Low | Medium | High | Unknown

fun risk_order :: "risk \<Rightarrow> nat" where
  "risk_order Low = 0"
| "risk_order Medium = 1"
| "risk_order High = 2"
| "risk_order Unknown = 3"

lemma risk_order_inject [simp]: "risk_order a = risk_order b \<longleftrightarrow> a = b"
  by (cases a; cases b) simp_all

instantiation risk :: linorder
begin

definition less_eq_risk :: "risk \<Rightarrow> risk \<Rightarrow> bool" where
  "less_eq_risk a b \<longleftrightarrow> risk_order a \<le> risk_order b"

definition less_risk :: "risk \<Rightarrow> risk \<Rightarrow> bool" where
  "less_risk a b \<longleftrightarrow> risk_order a < risk_order b"

instance
  by standard (auto simp: less_eq_risk_def less_risk_def)

end

section \<open>Mission creation, lifecycle and assurance\<close>

record created_payload =
  cr_feature :: string
  cr_objective :: string
  cr_target_repo :: string
  cr_base_sha :: string
  cr_workflow_digest :: string
  cr_initial_risk :: risk
  cr_sdd_plan :: "string option"
  cr_scope_contract :: "string option"
  cr_repair_policy :: "string option"
  cr_profile :: "(string \<times> string) option"

text \<open>An approval; \<open>ap_prior\<close> is only present in a renewal.\<close>

record approval =
  ap_id :: string
  ap_request :: string
  ap_workflow_digest :: string
  ap_scope :: string
  ap_risk :: risk
  ap_expires_at :: string
  ap_expires_in :: "int option"
  ap_by :: string
  ap_prior :: "string option"

datatype terminal_status =
  T_succeeded | T_failed | T_blocked | T_abandoned | T_indeterminate

datatype lifecycle_event =
  Workflow_compiled (compiled: string)
| Mission_recreated
| Fleet_boot_started
| Mission_running
| Assurance_requested (rq_categories: "string list")
| Assurance_approved approval
| Assurance_boot_started (boot_approval: string)
| Assurance_started (start_approval: string)
| Mission_completing
| Archive_created
| Assurance_renewed approval
| Risk_escalated (esc_from: risk) (esc_to: risk) (esc_categories: "string list")
| Mission_terminal (t_status: terminal_status) (t_reason: string)

section \<open>Admissions\<close>

datatype run_kind = Lead | Specialist

datatype phase = Reserved | Committed | Authorized | Started | Finalized | Aborted

record admission_policy =
  po_workflow_digest :: string
  po_compiled_digest :: string
  po_deadline_at :: string
  po_credits :: int
  po_max_active :: int

record admission_request =
  a_id :: string
  a_delegation_id :: "string option"
  a_run_id :: string
  a_run_kind :: run_kind
  a_request_key :: string
  a_request_digest :: string
  a_recipient :: string
  a_capability :: string
  a_parent :: "string option"
  a_parent_run :: "string option"
  a_budget :: int
  a_cost :: int
  a_global_debit :: int
  a_parent_debit :: int
  a_writer :: bool
  a_effect :: "string option"
  a_task :: "string option"

record reserved_payload =
  rv_batch_id :: string
  rv_batch_sha :: string
  rv_request_sha :: "string option"
  rv_admissions :: "admission_request list"

record committed_payload =
  cm_admission :: string
  cm_commit_id :: string
  cm_reservation_event :: string
  cm_request_digest :: string
  cm_effect :: "string option"
  cm_recipient :: string
  cm_writer :: bool
  cm_run_id :: string

text \<open>The outer option of \<open>la_approval\<close> is the presence of the field, the inner one its nullable value.\<close>

record authorized_payload =
  la_admission :: string
  la_commit_event :: string
  la_request_digest :: string
  la_effect :: string
  la_recipient :: string
  la_writer :: bool
  la_run_id :: string
  la_approval :: "string option option"

datatype start_proof =
  Legacy_start (sp_commit_event: string) (sp_expected_head: string)
| Current_start (sp_authorization: string) (sp_effect: string)

record started_payload =
  st_admission :: string
  st_request_digest :: string
  st_recipient :: string
  st_writer :: bool
  st_run_id :: string
  st_proof :: start_proof

record terminal_evidence =
  te_source_event :: string
  te_run_id :: string
  te_task :: string
  te_status :: terminal_status

record final_binding =
  fb_run_id :: string
  fb_recipient :: string
  fb_writer :: bool
  fb_evidence_sha :: string
  fb_source :: "string option"
  fb_evidence :: "terminal_evidence option"

record finalized_payload =
  fi_admission :: string
  fi_status :: terminal_status
  fi_reason :: string
  fi_binding :: "final_binding option"

record abort_binding =
  ab_run_id :: string
  ab_request_digest :: string
  ab_effect :: string
  ab_task :: string
  ab_recipient :: string
  ab_writer :: bool

record aborted_payload =
  ab_admission :: string
  ab_reason :: string
  ab_binding :: "abort_binding option"

datatype admission_event =
  Policy_frozen admission_policy
| Budget_allocated
| Delegations_reserved reserved_payload
| Delegation_committed committed_payload
| Launch_authorized authorized_payload
| Delegation_started started_payload
| Delegation_finalized finalized_payload
| Reservation_aborted aborted_payload

section \<open>Runs and results\<close>

record run_result =
  rr_run_id :: string
  rr_artifact :: string
  rr_provider :: string
  rr_model :: string
  rr_variant :: "string option"
  rr_file :: "string option"

record registration =
  rg_delegation :: string
  rg_mission :: string
  rg_run_id :: string
  rg_parent_run :: "string option"
  rg_by :: string
  rg_recipient :: string
  rg_capability :: string
  rg_objective :: string
  rg_inputs :: "string list"
  rg_contract :: json
  rg_deadline :: string
  rg_provider :: string
  rg_model :: string
  rg_variant :: "string option"
  rg_depth :: int
  rg_token :: "string option"

datatype run_event =
  Lead_dispatched (ld_run: string)
| Lead_result_recorded run_result
| Synthesis_recorded (sy_admission: string) run_result
| Delegation_registered registration
| Result_recorded (re_delegation: string) run_result
| Lead_completion_requested
| Run_cancel_requested (ca_run: string) (ca_reason: string)

section \<open>Human decisions\<close>

datatype impact = Blocking | Checkpoint
datatype resolution_kind = By_human | Automatic
datatype notify_outcome = N_accepted | N_rejected | N_indeterminate

record evidence =
  ev_artifact :: string
  ev_delegation :: string
  ev_instance :: string

record decision_request =
  dr_id :: string
  dr_affected :: "string list"
  dr_impact :: impact
  dr_risk :: risk
  dr_reversible :: bool
  dr_options :: "string list"
  dr_recommendation :: evidence
  dr_challenge :: evidence
  dr_default :: "string option"

record resolution_payload =
  rs_decision :: string
  rs_request_event :: string
  rs_option :: string
  rs_reason :: string
  rs_kind :: resolution_kind

record attempt_payload =
  at_decision :: string
  at_enqueue :: string
  at_number :: int
  at_instance :: string
  at_surface :: "string option"
  at_workspace :: "string option"

record outcome_payload =
  oc_decision :: string
  oc_enqueue :: string
  oc_attempt :: string
  oc_outcome :: notify_outcome
  oc_reason :: string
  oc_returncode :: "int option"

datatype decision_event =
  Decision_requested decision_request
| Notification_enqueued (ne_decision: string)
| Notification_attempted attempt_payload
| Notification_outcome outcome_payload
| Decision_resolved resolution_payload

section \<open>Herdr supervision, functional checks, repair and delivery\<close>

datatype control_action = Pause | Resume | Cancel
datatype functional_status = F_passed | F_failed | F_blocked | F_indeterminate
datatype delivery_status = D_delivered | D_collision | D_blocked | D_indeterminate | D_aborted
datatype inference_status = I_completed | I_withheld | I_indeterminate

record herdr_attempt =
  ha_mission :: string
  ha_generation :: string
  ha_role :: string
  ha_attempt :: string

record native_payload =
  na_attempt :: herdr_attempt
  na_run_id :: "string option"
  na_artifact :: string
  na_channel :: string
  na_sequence :: int
  na_allow :: bool

record control_request =
  cq_id :: string
  cq_action :: control_action
  cq_reason :: string
  cq_run_id :: "string option"
  cq_generation :: "string option"

record settle_payload =
  se_ordinal :: int
  se_tree :: string
  se_functional :: string
  se_receipt :: string
  se_passed :: bool
  se_unchanged :: "int option"
  se_feedback :: "string option"

record finalization_policy =
  fp_compiled :: string
  fp_archive_version :: int
  fp_permissions_version :: int
  fp_turns :: int
  fp_profile :: "(string \<times> string) option"
  fp_repair :: "string option"

record inference_policy =
  ip_attempt :: herdr_attempt
  ip_run_id :: string
  ip_deadline :: string
  ip_max_requests :: int
  ip_max_input :: int
  ip_max_output :: int
  ip_text :: json

datatype herdr_event =
  Interval_started (iv_id: string) (iv_kind: string) (iv_run: "string option")
| Interval_finished (iv_id: string) (iv_elapsed: int) (iv_returned: bool)
| Native_observed native_payload
| Supervision_enabled
| Control_requested control_request
| Control_applied (cx_id: string) (cx_action: control_action) (cx_cleanup: "string option")
| Dispatch_intent (di_run: string) (di_task: string) (di_generation: string)
| Scope_baseline (sb_compiled: string) (sb_contract: string) (sb_artifact: string)
| Functional_policy (fq_compiled: string) (fq_spec: string) (fq_tests: string)
| Repair_policy (rp_compiled: string) (rp_artifact: string)
| Repair_opened (ro_ordinal: int) (ro_feedback: "string option")
| Repair_settled settle_payload
| Delivery_started (dl_ordinal: int) (dl_tree: string)
| Delivery_finished (dl_ordinal: int) (dl_tree: string) (dl_status: delivery_status) (dl_receipt: string)
| Functional_started (fs_contract: string) (fs_attempt: string) (fs_tree: string)
| Functional_finished (fs_contract: string) (fs_attempt: string) (fs_receipt: string) (fs_status: functional_status)
| Archive_selected (as_compiled: string) (as_head: string) (as_index: string)
| Finalization_frozen finalization_policy
| Inference_frozen (in_policy: string) inference_policy
| Inference_reserved (in_policy: string) (in_request: string) (in_request_sha: string) (in_input: int) (in_output: int)
| Inference_finished (in_policy: string) (in_request: string) (in_receipt: string) (in_status: inference_status)

section \<open>All events\<close>

text \<open>
  \<open>Inert\<close> stands for the kinds the reducer only counts: risk_assessed,
  lead_dispatch_intent, capability_token_issued, capability_token_bound,
  delegation_dispatch_intent, result_relayed, human_approval_requested,
  assured_action_intent and assured_action_completed.
\<close>

datatype payload =
  Lifecycle lifecycle_event
| Admission admission_event
| Run run_event
| Decision decision_event
| Herdr herdr_event
| Inert

text \<open>What every event carries besides its payload.\<close>

record meta =
  m_sequence :: int
  m_time :: string
  m_actor :: string
  m_key :: string
  m_previous :: string
  m_sha :: string

end
