(* ===== verification/Schema.thy ===== *)
theory Schema
  imports Events
begin

text \<open>
  The closed registry of event payloads (\<open>_validate_payload\<close> of
  scripts/fleet_mission_state.py and the validators it delegates to), first part: the checks a
  validator is a sequence of, and the payloads of lifecycle, assurance, decisions and runs.
  A validator is a list of checks; the first that fails decides the exception.
\<close>

section \<open>Checks\<close>

fun all_checks :: "unit result list \<Rightarrow> unit result" where
  "all_checks [] = Inr ()"
| "all_checks (c # cs) = (case c of Inl e \<Rightarrow> Inl e | Inr _ \<Rightarrow> all_checks cs)"

lemma all_checks_ok [simp]: "all_checks cs = Inr u \<longleftrightarrow> list_all (\<lambda>c. c = Inr ()) cs"
  by (induction cs) (auto split: sum.splits)

declare all_checks.simps(2) [simp del]

definition check :: "bool \<Rightarrow> unit result" where
  "check ok = require ok MissionStateError"

lemma check_ok [simp]: "check ok = Inr u \<longleftrightarrow> ok"
  by (simp add: check_def require_def)

text \<open>
  \<open>value in FROZENSET\<close> of strings: a list or an object is not hashable, so the test itself
  raises TypeError; any other value that is not a member fails the check.
\<close>

definition member :: "string list \<Rightarrow> json \<Rightarrow> unit result" where
  "member allowed v =
     (if is_arr v \<or> is_obj v then Inl TypeError else check (v_in allowed v))"

lemma member_ok [simp]: "member allowed v = Inr u \<longleftrightarrow> v_in allowed v"
  by (cases v) (auto simp: member_def v_in_def)

text \<open>\<open>_require_fields\<close>, and membership of the key set in a set of schemas.\<close>

definition fields_are :: "json \<Rightarrow> string list \<Rightarrow> unit result" where
  "fields_are p ks = check (has_exactly p ks)"

definition fields_among :: "json \<Rightarrow> string list list \<Rightarrow> unit result" where
  "fields_among p kss = check (list_ex (has_exactly p) kss)"

lemma fields_are_ok [simp]: "fields_are p ks = Inr u \<longleftrightarrow> has_exactly p ks"
  by (simp add: fields_are_def)

lemma fields_among_ok [simp]: "fields_among p kss = Inr u \<longleftrightarrow> list_ex (has_exactly p) kss"
  by (simp add: fields_among_def)

text \<open>\<open>_require_*\<close> on one field.\<close>

abbreviation c_sha :: "json \<Rightarrow> string \<Rightarrow> unit result" where
  "c_sha p k \<equiv> check (v_sha (field p k))"

abbreviation c_uuid :: "json \<Rightarrow> string \<Rightarrow> unit result" where
  "c_uuid p k \<equiv> check (v_uuid (field p k))"

abbreviation c_nonempty :: "json \<Rightarrow> string \<Rightarrow> unit result" where
  "c_nonempty p k \<equiv> check (v_nonempty (field p k))"

abbreviation c_uint :: "json \<Rightarrow> string \<Rightarrow> unit result" where
  "c_uint p k \<equiv> check (v_uint (field p k))"

abbreviation c_feature :: "json \<Rightarrow> string \<Rightarrow> unit result" where
  "c_feature p k \<equiv> check (v_feature (field p k))"

abbreviation c_oid :: "json \<Rightarrow> string \<Rightarrow> unit result" where
  "c_oid p k \<equiv> check (v_git_oid (field p k))"

abbreviation c_bool :: "json \<Rightarrow> string \<Rightarrow> unit result" where
  "c_bool p k \<equiv> check (is_bool (field p k))"

abbreviation c_opt :: "(json \<Rightarrow> bool) \<Rightarrow> json \<Rightarrow> string \<Rightarrow> unit result" where
  "c_opt v p k \<equiv> check (v_nullable v (field p k))"

abbreviation c_member :: "string list \<Rightarrow> json \<Rightarrow> string \<Rightarrow> unit result" where
  "c_member allowed p k \<equiv> member allowed (field p k)"

definition optional_checks :: "bool \<Rightarrow> unit result list \<Rightarrow> unit result" where
  "optional_checks present cs = (if present then all_checks cs else Inr ())"

lemma optional_checks_ok [simp]:
  "optional_checks present cs = Inr u \<longleftrightarrow> (present \<longrightarrow> list_all (\<lambda>c. c = Inr ()) cs)"
  by (simp add: optional_checks_def)

definition each :: "(json \<Rightarrow> unit result list) \<Rightarrow> json \<Rightarrow> unit result" where
  "each f xs = all_checks (concat (map f (arr_of xs)))"

lemma each_ok [simp]:
  "each f xs = Inr u \<longleftrightarrow> (\<forall>x \<in> set (arr_of xs). list_all (\<lambda>c. c = Inr ()) (f x))"
  by (auto simp: each_def list_all_iff)

section \<open>Names of enumerations\<close>

definition risk_names :: "string list" where
  "risk_names = [''low'', ''medium'', ''high'', ''unknown'']"

definition assured_risks :: "string list" where
  "assured_risks = [''high'', ''unknown'']"

definition terminal_names :: "string list" where
  "terminal_names = [''succeeded'', ''failed'', ''blocked'', ''abandoned'', ''indeterminate'']"

section \<open>Mission creation\<close>

text \<open>
  \<open>validate_target_repo\<close>: an absolute path equal to its own pathlib normal form, with no
  \<open>..\<close> part.  The normal form drops empty and \<open>.\<close> parts, so a canonical path is the root or
  a slash before every one of its parts.
\<close>

fun split_on :: "char \<Rightarrow> string \<Rightarrow> string list" where
  "split_on c [] = [[]]"
| "split_on c (x # xs) =
     (if x = c then [] # split_on c xs
      else (case split_on c xs of [] \<Rightarrow> [[x]] | w # ws \<Rightarrow> (x # w) # ws))"

definition canonical_target :: "string \<Rightarrow> bool" where
  "canonical_target s \<longleftrightarrow>
     s \<noteq> [] \<and> list_all (\<lambda>c. c \<noteq> CHR 0x00 \<and> c \<noteq> CHR 0x0D \<and> c \<noteq> CHR 0x0A) s
     \<and> hd s = CHR ''/''
     \<and> (s = ''/'' \<or> list_all (\<lambda>w. w \<noteq> [] \<and> w \<noteq> ''.'' \<and> w \<noteq> ''..'') (split_on CHR ''/'' (tl s)))"

definition valid_target :: "json \<Rightarrow> unit result" where
  "valid_target v = check (is_str v \<and> canonical_target (str_of v))"

definition created_required :: "string list" where
  "created_required =
     [''feature'', ''objective_sha256'', ''target_repo'', ''base_sha'', ''workflow_digest'', ''initial_risk'']"

definition created_optional :: "string list" where
  "created_optional =
     [''sdd_plan_sha256'', ''herdr_profile'', ''herdr_profile_sha256'', ''scope_contract_sha256'',
      ''repair_policy_sha256'']"

definition physical_scope_profile :: string where
  "physical_scope_profile = ''sol_minimal_v1''"

definition versioned_profiles :: "string list" where
  "versioned_profiles = [''astra_sol_research_v1'', ''sol_minimal_v1'']"

definition valid_created :: "json \<Rightarrow> unit result" where
  "valid_created p = all_checks
     [check (list_all (has_field p) created_required
             \<and> list_all (\<lambda>k. k \<in> set (created_required @ created_optional)) (map fst (obj_items p))),
      c_feature p ''feature'', c_sha p ''objective_sha256'', c_sha p ''workflow_digest'',
      optional_checks (has_field p ''sdd_plan_sha256'') [c_sha p ''sdd_plan_sha256''],
      optional_checks (has_field p ''scope_contract_sha256'')
        [c_sha p ''scope_contract_sha256'',
         check (field p ''herdr_profile'' = JStr physical_scope_profile)],
      optional_checks (has_field p ''repair_policy_sha256'')
        [c_sha p ''repair_policy_sha256'', check (has_field p ''scope_contract_sha256'')],
      check (has_field p ''herdr_profile'' = has_field p ''herdr_profile_sha256''),
      optional_checks (has_field p ''herdr_profile'')
        [c_member versioned_profiles p ''herdr_profile'', c_sha p ''herdr_profile_sha256''],
      valid_target (field p ''target_repo''), c_oid p ''base_sha'',
      c_member risk_names p ''initial_risk'']"

section \<open>Lifecycle, risk and assurance\<close>

definition valid_compiled :: "json \<Rightarrow> unit result" where
  "valid_compiled p = all_checks [fields_are p [''compiled_digest''], c_sha p ''compiled_digest'']"

definition valid_risk_assessed :: "json \<Rightarrow> unit result" where
  "valid_risk_assessed p = all_checks
     [fields_are p [''level'', ''categories'', ''workflow_minimum'', ''override'', ''requires_confirmation''],
      c_member risk_names p ''level'', c_member risk_names p ''workflow_minimum'',
      (if field p ''override'' = JStr ''auto'' then Inr () else c_member risk_names p ''override''),
      check (v_unique_string_list (field p ''categories'')), c_bool p ''requires_confirmation'']"

definition valid_escalated :: "json \<Rightarrow> unit result" where
  "valid_escalated p = all_checks
     [fields_are p [''from'', ''to'', ''categories'', ''reason''],
      c_member risk_names p ''from'', c_member risk_names p ''to'',
      check (v_string_list (field p ''categories'')), c_nonempty p ''reason'']"

definition valid_boot :: "json \<Rightarrow> unit result" where
  "valid_boot p = all_checks
     [fields_among p [[''feature''], [''feature'', ''preset'']], c_feature p ''feature'',
      optional_checks (has_field p ''preset'') [c_nonempty p ''preset'']]"

definition valid_running :: "json \<Rightarrow> unit result" where
  "valid_running p = all_checks [fields_are p [''manifest''], c_nonempty p ''manifest'']"

definition valid_assurance_requested :: "json \<Rightarrow> unit result" where
  "valid_assurance_requested p = all_checks
     [fields_are p [''risk'', ''categories'', ''scope'', ''workflow_digest''],
      c_member assured_risks p ''risk'', check (v_string_list (field p ''categories'')),
      c_nonempty p ''scope'', c_sha p ''workflow_digest'']"

definition approval_fields :: "string list" where
  "approval_fields =
     [''approval_id'', ''request_event_sha256'', ''workflow_digest'', ''scope'', ''risk'',
      ''expires_at'', ''approved_by_sha256'', ''decision'']"

text \<open>The span an approval may be granted for: a minute to a day.\<close>

definition valid_span :: "json \<Rightarrow> bool" where
  "valid_span v \<longleftrightarrow> v_uint v \<and> 60 \<le> int_of v \<and> int_of v \<le> 86400"

definition valid_approved :: "prims \<Rightarrow> json \<Rightarrow> unit result" where
  "valid_approved E p = all_checks
     [fields_among p [approval_fields, approval_fields @ [''expires_in_seconds'']],
      check (field p ''decision'' = JStr ''approved''), c_member assured_risks p ''risk'',
      c_uuid p ''approval_id'', c_sha p ''request_event_sha256'', c_sha p ''workflow_digest'',
      c_sha p ''approved_by_sha256'', check (v_time E (field p ''expires_at'')),
      optional_checks (has_field p ''expires_in_seconds'')
        [check (valid_span (field p ''expires_in_seconds''))],
      c_nonempty p ''scope'']"

definition valid_renewed :: "prims \<Rightarrow> json \<Rightarrow> unit result" where
  "valid_renewed E p = all_checks
     [fields_are p (approval_fields @ [''prior_approval_event_sha256'', ''expires_in_seconds'']),
      check (field p ''decision'' = JStr ''approved''), c_member assured_risks p ''risk'',
      c_uuid p ''approval_id'', c_sha p ''prior_approval_event_sha256'',
      c_sha p ''request_event_sha256'', c_sha p ''workflow_digest'', c_sha p ''approved_by_sha256'',
      check (v_time E (field p ''expires_at'')), check (valid_span (field p ''expires_in_seconds'')),
      c_nonempty p ''scope'']"

definition valid_assurance_boot :: "json \<Rightarrow> unit result" where
  "valid_assurance_boot p = all_checks
     [fields_are p [''preset'', ''approval_event_sha256''], c_nonempty p ''preset'',
      c_sha p ''approval_event_sha256'']"

definition valid_assurance_started :: "json \<Rightarrow> unit result" where
  "valid_assurance_started p = all_checks
     [fields_are p [''manifest'', ''approval_event_sha256''], c_nonempty p ''manifest'',
      c_sha p ''approval_event_sha256'']"

definition valid_completing :: "json \<Rightarrow> unit result" where
  "valid_completing p =
     (if has_exactly p [''lead_artifact_id''] then c_sha p ''lead_artifact_id''
      else if has_exactly p [''completion_artifact_id''] then c_sha p ''completion_artifact_id''
      else Inl MissionStateError)"

definition valid_archive :: "json \<Rightarrow> unit result" where
  "valid_archive p = all_checks
     [fields_are p [''path'', ''sha256'', ''mode''], c_nonempty p ''path'', c_sha p ''sha256'',
      c_nonempty p ''mode'']"

definition valid_terminal :: "json \<Rightarrow> unit result" where
  "valid_terminal p = all_checks
     [fields_are p [''status'', ''reason''], c_member terminal_names p ''status'', c_nonempty p ''reason'']"

end
