(* ===== verification/Schema_Runs.thy ===== *)
theory Schema_Runs
  imports Schema
begin

text \<open>
  The payload registry of scripts/fleet_mission_state.py, second part: runs, delegations and
  results, human decisions with their notifications, and the assured actions.
\<close>

section \<open>Runs, delegations and results\<close>

definition valid_lead_intent :: "json \<Rightarrow> unit result" where
  "valid_lead_intent p = all_checks [fields_are p [''prompt_sha256''], c_sha p ''prompt_sha256'']"

definition valid_lead_dispatched :: "json \<Rightarrow> unit result" where
  "valid_lead_dispatched p = all_checks
     [fields_are p [''run_id'', ''prompt_sha256''], c_uuid p ''run_id'', c_sha p ''prompt_sha256'']"

definition valid_lead_result :: "json \<Rightarrow> unit result" where
  "valid_lead_result p = all_checks
     [fields_are p [''run_id'', ''artifact_id'', ''result_file'', ''provider'', ''model'', ''variant''],
      c_uuid p ''run_id'', c_sha p ''artifact_id'', c_nonempty p ''result_file'',
      c_nonempty p ''provider'', c_nonempty p ''model'', c_opt is_str p ''variant'']"

definition valid_synthesis :: "json \<Rightarrow> unit result" where
  "valid_synthesis p = all_checks
     [fields_are p [''run_id'', ''admission_id'', ''artifact_id'', ''result_file'', ''provider'',
        ''model'', ''variant''],
      c_uuid p ''run_id'', c_uuid p ''admission_id'', c_sha p ''artifact_id'',
      c_nonempty p ''result_file'', c_nonempty p ''provider'', c_nonempty p ''model'',
      c_opt is_str p ''variant'']"

definition valid_token_issued :: "json \<Rightarrow> unit result" where
  "valid_token_issued p = all_checks
     [fields_are p [''token_id'', ''delegation_id'', ''token_sha256''], c_uuid p ''token_id'',
      c_uuid p ''delegation_id'', c_sha p ''token_sha256'']"

definition valid_token_bound :: "json \<Rightarrow> unit result" where
  "valid_token_bound p = all_checks
     [fields_are p [''token_id'', ''delegation_id'', ''run_id''], c_uuid p ''token_id'',
      c_uuid p ''delegation_id'', c_uuid p ''run_id'']"

text \<open>A list of unique SHA-256 values.\<close>

definition v_sha_set :: "json \<Rightarrow> bool" where
  "v_sha_set v \<longleftrightarrow> is_arr v \<and> list_all v_sha (arr_of v) \<and> distinct (map str_of (arr_of v))"

definition allocation_fields :: "string list" where
  "allocation_fields =
     [''requested_delegation_id'', ''capability'', ''child_can_delegate'', ''child_allowed_capabilities'',
      ''requested_artifact_ids'', ''edge_cost'', ''delegated_budget'', ''total_cost'']"

definition valid_allocation :: "json \<Rightarrow> unit result list" where
  "valid_allocation x =
     [check (is_obj x), fields_are x allocation_fields, c_uuid x ''requested_delegation_id'',
      c_nonempty x ''capability'', c_bool x ''child_can_delegate'',
      check (v_unique_string_list (field x ''child_allowed_capabilities'')),
      check (v_sha_set (field x ''requested_artifact_ids'')),
      c_uint x ''edge_cost'', c_uint x ''delegated_budget'', c_uint x ''total_cost'',
      check (iget x ''edge_cost'' = 1 \<and> iget x ''total_cost'' = 1 + iget x ''delegated_budget'')]"

definition valid_budget_allocated :: "json \<Rightarrow> unit result" where
  "valid_budget_allocated p = all_checks
     [fields_are p [''token_id'', ''delegation_id'', ''parent_run_id'', ''allocations''],
      c_uuid p ''token_id'', c_uuid p ''delegation_id'', c_uuid p ''parent_run_id'',
      check (is_arr (field p ''allocations'') \<and> arr_of (field p ''allocations'') \<noteq> []),
      each valid_allocation (field p ''allocations''),
      check (distinct (map (\<lambda>x. sget x ''requested_delegation_id'') (arr_of (field p ''allocations''))))]"

definition valid_dispatch_intent :: "json \<Rightarrow> unit result" where
  "valid_dispatch_intent p = all_checks
     [fields_are p [''delegation_id'', ''recipient_instance'', ''prompt_sha256''],
      c_uuid p ''delegation_id'', c_nonempty p ''recipient_instance'', c_sha p ''prompt_sha256'']"

definition registered_fields :: "string list" where
  "registered_fields =
     [''delegation_id'', ''mission_id'', ''run_id'', ''parent_run_id'', ''delegated_by'',
      ''recipient_instance'', ''capability'', ''objective_sha256'', ''input_artifact_ids'',
      ''expected_output_contract'', ''deadline'', ''provider'', ''model'', ''variant'', ''depth'',
      ''token_id'']"

definition valid_registered :: "prims \<Rightarrow> json \<Rightarrow> unit result" where
  "valid_registered E p = all_checks
     [fields_are p registered_fields,
      c_uuid p ''delegation_id'', c_uuid p ''mission_id'', c_uuid p ''run_id'',
      c_opt v_uuid p ''parent_run_id'', c_opt v_uuid p ''token_id'', c_sha p ''objective_sha256'',
      check (v_sha_set (field p ''input_artifact_ids'')),
      check (is_obj (field p ''expected_output_contract'')), c_uint p ''depth'',
      check (v_time E (field p ''deadline'')), c_nonempty p ''delegated_by'',
      c_nonempty p ''recipient_instance'', c_nonempty p ''capability'', c_nonempty p ''provider'',
      c_nonempty p ''model'', c_opt is_str p ''variant'']"

definition valid_result :: "json \<Rightarrow> unit result" where
  "valid_result p = all_checks
     [fields_are p [''run_id'', ''delegation_id'', ''artifact_id'', ''provider'', ''model'', ''variant''],
      c_uuid p ''run_id'', c_uuid p ''delegation_id'', c_sha p ''artifact_id'',
      c_nonempty p ''provider'', c_nonempty p ''model'', c_opt is_str p ''variant'']"

definition valid_relayed :: "json \<Rightarrow> unit result" where
  "valid_relayed p = all_checks
     [fields_are p [''artifact_id'', ''recipient_run_id'', ''recipient_instance''],
      c_sha p ''artifact_id'', c_uuid p ''recipient_run_id'', c_nonempty p ''recipient_instance'']"

definition valid_human_approval :: "json \<Rightarrow> unit result" where
  "valid_human_approval p = all_checks
     [fields_are p [''reason'', ''scope''], c_nonempty p ''reason'', c_nonempty p ''scope'']"

definition valid_cancel :: "json \<Rightarrow> unit result" where
  "valid_cancel p = all_checks
     [fields_are p [''run_id'', ''reason''], c_uuid p ''run_id'', c_nonempty p ''reason'']"

definition valid_completion_request :: "json \<Rightarrow> unit result" where
  "valid_completion_request p = all_checks
     [fields_are p [''artifact_id'', ''summary''], c_sha p ''artifact_id'', c_nonempty p ''summary'']"

section \<open>Human decisions\<close>

text \<open>\<open>_validate_decision_evidence\<close>: both variants check these fields, then their own.\<close>

definition evidence_checks :: "json \<Rightarrow> string list \<Rightarrow> unit result list" where
  "evidence_checks v own =
     [check (is_obj v \<and> has_exactly v ([''artifact_id'', ''delegation_id'', ''instance''] @ own)),
      c_sha v ''artifact_id'', c_uuid v ''delegation_id'', c_feature v ''instance'']"

definition valid_recommendation :: "json \<Rightarrow> unit result" where
  "valid_recommendation v = all_checks
     (evidence_checks v [''option_id'', ''rationale'']
      @ [check (v_option_id (field v ''option_id'')), c_nonempty v ''rationale''])"

definition valid_challenge :: "json \<Rightarrow> unit result" where
  "valid_challenge v = all_checks (evidence_checks v [''summary''] @ [c_nonempty v ''summary''])"

definition valid_option :: "json \<Rightarrow> unit result list" where
  "valid_option x =
     [check (is_obj x), fields_are x [''option_id'', ''label'', ''tradeoffs''],
      check (v_option_id (field x ''option_id'')), c_nonempty x ''label'', c_nonempty x ''tradeoffs'']"

definition decision_fields :: "string list" where
  "decision_fields =
     [''decision_id'', ''title'', ''question'', ''affected_instances'', ''impact'', ''risk'', ''reversible'',
      ''options'', ''recommendation'', ''challenge'', ''dissent'', ''default_option_id'']"

definition v_affected :: "json \<Rightarrow> bool" where
  "v_affected v \<longleftrightarrow> v_unique_string_list v \<and> arr_of v \<noteq> []
     \<and> map str_of (arr_of v) = sort (map str_of (arr_of v)) \<and> list_all v_feature (arr_of v)"

definition option_ids :: "json \<Rightarrow> string list" where
  "option_ids p = map (\<lambda>x. sget x ''option_id'') (arr_of (field p ''options''))"

definition evidence_distinct :: "json \<Rightarrow> bool" where
  "evidence_distinct p \<longleftrightarrow>
     (let r = field p ''recommendation''; c = field p ''challenge'' in
      sget r ''artifact_id'' \<noteq> sget c ''artifact_id'' \<and> sget r ''delegation_id'' \<noteq> sget c ''delegation_id''
      \<and> sget r ''instance'' \<noteq> sget c ''instance'')"

definition valid_decision_requested :: "json \<Rightarrow> unit result" where
  "valid_decision_requested p = all_checks
     [fields_are p decision_fields, c_uuid p ''decision_id'', c_nonempty p ''title'',
      c_nonempty p ''question'', check (v_affected (field p ''affected_instances'')),
      c_member [''blocking'', ''checkpoint''] p ''impact'', c_member risk_names p ''risk'',
      check (sget p ''risk'' \<in> set assured_risks \<longrightarrow> sget p ''impact'' = ''blocking''),
      c_bool p ''reversible'',
      check (is_arr (field p ''options'') \<and> length (arr_of (field p ''options'')) \<in> {2, 3}),
      each valid_option (field p ''options''), check (distinct (option_ids p)),
      valid_recommendation (field p ''recommendation''), valid_challenge (field p ''challenge''),
      check (sget (field p ''recommendation'') ''option_id'' \<in> set (option_ids p)),
      check (evidence_distinct p), c_nonempty p ''dissent'',
      optional_checks (field p ''default_option_id'' \<noteq> JNull)
        [check (v_in (option_ids p) (field p ''default_option_id'')),
         check (sget p ''risk'' = ''low'' \<and> bget p ''reversible'')]]"

definition valid_decision_resolved :: "json \<Rightarrow> unit result" where
  "valid_decision_resolved p = all_checks
     [fields_are p [''decision_id'', ''request_event_sha256'', ''option_id'', ''reason'', ''resolution_kind''],
      c_uuid p ''decision_id'', c_sha p ''request_event_sha256'',
      check (v_option_id (field p ''option_id'')), c_nonempty p ''reason'',
      c_member [''human'', ''automatic''] p ''resolution_kind'']"

definition valid_enqueued :: "json \<Rightarrow> unit result" where
  "valid_enqueued p = all_checks [fields_are p [''decision_id''], c_uuid p ''decision_id'']"

definition valid_attempted :: "json \<Rightarrow> unit result" where
  "valid_attempted p = all_checks
     [fields_are p [''decision_id'', ''enqueue_event_sha256'', ''attempt_number'', ''target_instance'',
        ''target_surface_uuid'', ''target_workspace_uuid''],
      c_uuid p ''decision_id'', c_sha p ''enqueue_event_sha256'', c_uint p ''attempt_number'',
      check (1 \<le> iget p ''attempt_number''), c_feature p ''target_instance'',
      check ((field p ''target_surface_uuid'' = JNull) = (field p ''target_workspace_uuid'' = JNull)),
      c_opt v_uuid p ''target_surface_uuid'', c_opt v_uuid p ''target_workspace_uuid'']"

fun outcome_reasons :: "string \<Rightarrow> string list" where
  "outcome_reasons o' =
     (if o' = ''accepted'' then [''cmux_accepted'']
      else if o' = ''rejected'' then [''cmux_rejected'', ''command_unavailable'', ''target_unavailable'']
      else [''timeout'', ''notifier_error'', ''invalid_notifier_result'', ''receipt_unavailable''])"

definition v_returncode :: "json \<Rightarrow> bool" where
  "v_returncode p \<longleftrightarrow>
     (let rc = field p ''returncode''; o' = sget p ''outcome''; reason = sget p ''reason'' in
      v_nullable is_int rc
      \<and> (o' = ''accepted'' \<longrightarrow> rc = JInt 0)
      \<and> (reason = ''cmux_rejected'' \<longrightarrow> rc \<noteq> JNull \<and> rc \<noteq> JInt 0)
      \<and> (reason \<noteq> ''cmux_rejected'' \<and> o' \<noteq> ''accepted'' \<longrightarrow> rc = JNull))"

definition valid_outcome :: "json \<Rightarrow> unit result" where
  "valid_outcome p = all_checks
     [fields_are p [''decision_id'', ''enqueue_event_sha256'', ''attempt_event_sha256'', ''outcome'',
        ''reason'', ''returncode''],
      c_uuid p ''decision_id'', c_sha p ''enqueue_event_sha256'', c_sha p ''attempt_event_sha256'',
      c_member [''accepted'', ''rejected'', ''indeterminate''] p ''outcome'',
      c_member (outcome_reasons (sget p ''outcome'')) p ''reason'', check (v_returncode p)]"

section \<open>Assured actions\<close>

definition assured_fields :: "bool \<Rightarrow> string \<Rightarrow> string list" where
  "assured_fields completed act =
     (if act = ''dispatch'' then
        [''action'', ''instance'', ''prompt_sha256'', ''controller_sequence'']
        @ (if completed then [''run_id''] else [])
      else if act = ''wait'' then
        [''action'', ''instance'', ''run_id'', ''timeout_seconds'', ''controller_sequence'']
        @ (if completed then [''status'', ''exit_code''] else [])
      else if completed then [''action'', ''message_id'', ''payload_sha256'']
      else [''action'', ''kind'', ''recipient'', ''source_instance'', ''source_run_id'', ''reply_to'',
            ''payload_sha256''])"

definition assured_checks :: "bool \<Rightarrow> json \<Rightarrow> string \<Rightarrow> unit result list" where
  "assured_checks completed p act =
     (if act = ''dispatch'' then
        [c_nonempty p ''instance'', c_sha p ''prompt_sha256'', c_nonempty p ''controller_sequence'',
         optional_checks completed [c_uuid p ''run_id'']]
      else if act = ''wait'' then
        [c_nonempty p ''instance'', c_uuid p ''run_id'', c_uint p ''timeout_seconds'',
         c_nonempty p ''controller_sequence'',
         optional_checks completed [c_nonempty p ''status'', check (is_int (field p ''exit_code''))]]
      else if completed then [c_sha p ''payload_sha256'', c_uuid p ''message_id'']
      else
        [c_sha p ''payload_sha256'', c_nonempty p ''kind'', c_nonempty p ''recipient'',
         c_nonempty p ''source_instance'', c_nonempty p ''source_run_id'', c_opt v_nonempty p ''reply_to''])"

definition valid_assured_action :: "bool \<Rightarrow> json \<Rightarrow> unit result" where
  "valid_assured_action completed p = all_checks
     (c_member [''dispatch'', ''wait'', ''publish''] p ''action''
      # fields_are p (assured_fields completed (sget p ''action''))
      # assured_checks completed p (sget p ''action''))"

end
