(* ===== verification/Schema_Admission.thy ===== *)
theory Schema_Admission
  imports Schema_Runs
begin

text \<open>
  The payload registry of scripts/fleet_mission_state.py, third part: the admission policy,
  the reservation of a batch and the life of an admission.  Historical schemas stay readable:
  an event has the fields of one of its schemas, and every field that is present is checked.
\<close>

section \<open>Policy\<close>

definition valid_policy :: "prims \<Rightarrow> json \<Rightarrow> unit result" where
  "valid_policy E p = all_checks
     [fields_are p [''workflow_digest'', ''compiled_digest'', ''deadline_at'', ''delegation_credits'',
        ''max_active_delegations''],
      c_sha p ''workflow_digest'', c_sha p ''compiled_digest'', check (v_time E (field p ''deadline_at'')),
      c_uint p ''delegation_credits'', c_uint p ''max_active_delegations'',
      check (1 \<le> iget p ''max_active_delegations'')]"

section \<open>Reservation\<close>

definition legacy_admission_fields :: "string list" where
  "legacy_admission_fields =
     [''admission_id'', ''delegation_id'', ''run_id'', ''run_kind'', ''request_key'', ''request_digest'',
      ''recipient_instance'', ''capability'', ''parent_admission_id'', ''parent_run_id'',
      ''delegated_budget'', ''credit_cost'', ''global_credit_debit'', ''parent_credit_debit'', ''writer'']"

definition admission_schemas :: "bool \<Rightarrow> string list list" where
  "admission_schemas current =
     (if \<not> current then [legacy_admission_fields]
      else [legacy_admission_fields @ [''effect_sha256''],
            legacy_admission_fields @ [''effect_sha256'', ''task_sha256'']])"

definition valid_run_kind :: "json \<Rightarrow> unit result" where
  "valid_run_kind x =
     (case c_member [''lead'', ''specialist''] x ''run_kind'' of
        Inl e \<Rightarrow> Inl e
      | Inr _ \<Rightarrow>
          if sget x ''run_kind'' = ''lead'' then check (field x ''delegation_id'' = JNull)
          else c_uuid x ''delegation_id'')"

lemma valid_run_kind_ok [simp]:
  "valid_run_kind x = Inr u \<longleftrightarrow> v_in [''lead'', ''specialist''] (field x ''run_kind'')
     \<and> (if sget x ''run_kind'' = ''lead'' then field x ''delegation_id'' = JNull
        else v_uuid (field x ''delegation_id''))"
  by (auto simp: valid_run_kind_def guard_simps)

text \<open>
  One turn of the loop over a batch; \<open>seen\<close> holds the admissions before it, and
  \<open>fresh_in\<close> is the test against \<open>seen_admissions\<close>, \<open>seen_runs\<close> or
  \<open>seen_recipients\<close>.
\<close>

definition fresh_in :: "json list \<Rightarrow> json \<Rightarrow> string \<Rightarrow> bool" where
  "fresh_in seen x k \<longleftrightarrow> sget x k \<notin> set (map (\<lambda>y. sget y k) seen)"

definition valid_admission :: "bool \<Rightarrow> json list \<Rightarrow> json \<Rightarrow> unit result" where
  "valid_admission current seen x = all_checks
     [check (is_obj x), fields_among x (admission_schemas current),
      c_uuid x ''admission_id'', c_uuid x ''run_id'',
      check (fresh_in seen x ''admission_id'' \<and> fresh_in seen x ''run_id''), valid_run_kind x,
      c_opt v_uuid x ''parent_admission_id'', c_opt v_uuid x ''parent_run_id'',
      check (is_str (field x ''request_key'') \<and> safe_key (sget x ''request_key'')),
      c_sha x ''request_digest'',
      optional_checks current
        [c_sha x ''effect_sha256'', optional_checks (has_field x ''task_sha256'') [c_sha x ''task_sha256'']],
      c_feature x ''recipient_instance'', c_feature x ''capability'',
      check (fresh_in seen x ''recipient_instance''),
      c_uint x ''delegated_budget'', c_uint x ''credit_cost'', c_uint x ''global_credit_debit'',
      c_uint x ''parent_credit_debit'', c_bool x ''writer'']"

fun valid_admissions :: "bool \<Rightarrow> json list \<Rightarrow> json list \<Rightarrow> unit result" where
  "valid_admissions current seen [] = Inr ()"
| "valid_admissions current seen (x # xs) =
     (case valid_admission current seen x of
        Inl e \<Rightarrow> Inl e
      | Inr _ \<Rightarrow> valid_admissions current (x # seen) xs)"

definition valid_reserved :: "json \<Rightarrow> unit result" where
  "valid_reserved p = all_checks
     [fields_among p [[''batch_id'', ''batch_sha256'', ''admissions''],
        [''batch_id'', ''batch_sha256'', ''admissions'', ''request_sha256'']],
      c_uuid p ''batch_id'', c_sha p ''batch_sha256'',
      optional_checks (has_field p ''request_sha256'') [c_sha p ''request_sha256''],
      check (is_arr (field p ''admissions'') \<and> arr_of (field p ''admissions'') \<noteq> []),
      valid_admissions (has_field p ''request_sha256'') [] (arr_of (field p ''admissions''))]"

section \<open>Commit, authorization and start\<close>

definition commit_fields :: "string list" where
  "commit_fields =
     [''admission_id'', ''commit_id'', ''reservation_event_sha256'', ''request_digest'',
      ''recipient_instance'', ''writer'', ''run_id'']"

definition valid_committed :: "json \<Rightarrow> unit result" where
  "valid_committed p = all_checks
     [fields_among p [commit_fields, commit_fields @ [''effect_sha256'']],
      c_uuid p ''admission_id'', c_uuid p ''commit_id'', c_uuid p ''run_id'',
      c_sha p ''reservation_event_sha256'', c_sha p ''request_digest'',
      optional_checks (has_field p ''effect_sha256'') [c_sha p ''effect_sha256''],
      c_feature p ''recipient_instance'', c_bool p ''writer'']"

definition launch_fields :: "string list" where
  "launch_fields =
     [''admission_id'', ''commit_event_sha256'', ''request_digest'', ''effect_sha256'',
      ''recipient_instance'', ''writer'', ''run_id'']"

definition valid_authorized :: "json \<Rightarrow> unit result" where
  "valid_authorized p = all_checks
     [fields_among p [launch_fields, launch_fields @ [''approval_event_sha256'']],
      c_uuid p ''admission_id'', c_uuid p ''run_id'', c_sha p ''commit_event_sha256'',
      c_sha p ''request_digest'', c_sha p ''effect_sha256'', c_opt v_sha p ''approval_event_sha256'',
      c_feature p ''recipient_instance'', c_bool p ''writer'']"

definition legacy_start_fields :: "string list" where
  "legacy_start_fields =
     [''admission_id'', ''commit_event_sha256'', ''expected_head_sha256'', ''request_digest'',
      ''recipient_instance'', ''writer'', ''run_id'']"

definition start_fields :: "string list" where
  "start_fields =
     [''admission_id'', ''authorization_event_sha256'', ''request_digest'', ''effect_sha256'',
      ''recipient_instance'', ''writer'', ''run_id'']"

definition valid_started :: "json \<Rightarrow> unit result" where
  "valid_started p = all_checks
     [fields_among p [legacy_start_fields, start_fields],
      c_uuid p ''admission_id'', c_uuid p ''run_id'', c_sha p ''request_digest'',
      (if has_field p ''authorization_event_sha256''
       then all_checks [c_sha p ''authorization_event_sha256'', c_sha p ''effect_sha256'']
       else all_checks [c_sha p ''commit_event_sha256'', c_sha p ''expected_head_sha256'']),
      c_feature p ''recipient_instance'', c_bool p ''writer'']"

section \<open>Finalization and abort\<close>

definition final_fields :: "string list" where
  "final_fields = [''admission_id'', ''status'', ''reason'']"

definition bound_final_fields :: "string list" where
  "bound_final_fields =
     final_fields @ [''run_id'', ''recipient_instance'', ''writer'', ''terminal_evidence_sha256'']"

definition valid_evidence :: "json \<Rightarrow> unit result" where
  "valid_evidence v = all_checks
     [check (is_obj v),
      fields_are v [''schema_version'', ''source_event_sha256'', ''run_id'', ''task_sha256'', ''status''],
      check (field v ''schema_version'' = JInt 1), c_sha v ''source_event_sha256'', c_uuid v ''run_id'',
      c_sha v ''task_sha256'', c_member terminal_names v ''status'']"

definition valid_finalized :: "json \<Rightarrow> unit result" where
  "valid_finalized p = all_checks
     [fields_among p [final_fields, bound_final_fields, bound_final_fields @ [''terminal_source_sha256''],
        bound_final_fields @ [''terminal_evidence'']],
      c_uuid p ''admission_id'',
      optional_checks (has_field p ''run_id'')
        [c_uuid p ''run_id'', c_feature p ''recipient_instance'', c_bool p ''writer'',
         c_sha p ''terminal_evidence_sha256'',
         optional_checks (has_field p ''terminal_source_sha256'') [c_sha p ''terminal_source_sha256''],
         optional_checks (has_field p ''terminal_evidence'') [valid_evidence (field p ''terminal_evidence'')]],
      c_member terminal_names p ''status'', c_nonempty p ''reason'']"

definition valid_aborted :: "json \<Rightarrow> unit result" where
  "valid_aborted p = all_checks
     [fields_among p [[''admission_id'', ''reason''],
        [''admission_id'', ''reason'', ''run_id'', ''request_digest'', ''effect_sha256'', ''task_sha256'',
         ''recipient_instance'', ''writer'']],
      c_uuid p ''admission_id'',
      optional_checks (has_field p ''run_id'')
        [c_uuid p ''run_id'', c_sha p ''request_digest'', c_sha p ''effect_sha256'', c_sha p ''task_sha256'',
         c_feature p ''recipient_instance'', c_bool p ''writer''],
      c_nonempty p ''reason'']"

end
