(* ===== verification/Schema_Herdr.thy ===== *)
theory Schema_Herdr
  imports Schema_Admission
begin

text \<open>
  The payload registry, fourth part: the Herdr events of scripts/fleet_mission_state.py, the
  control events of scripts/fleet_herdr_control.py and the inference events of
  scripts/fleet_herdr_inference.py, and the dispatch on the event kind.
\<close>

section \<open>Observations and control\<close>

definition attempt_fields :: "string list" where
  "attempt_fields = [''mission_id'', ''generation'', ''role'', ''attempt_id'']"

definition valid_native :: "json \<Rightarrow> unit result" where
  "valid_native p =
     (let a = field p ''attempt'' in all_checks
       [fields_are p [''attempt'', ''run_id'', ''artifact_id'', ''channel_id'', ''sequence'', ''decision'',
          ''authority''],
        check (is_obj a \<and> has_exactly a attempt_fields),
        c_uuid a ''mission_id'', c_uuid a ''generation'', c_uuid a ''attempt_id'',
        check (field a ''role'' = JStr ''worker''), check (field p ''authority'' = JStr ''none''),
        c_member [''allow'', ''deny''] p ''decision'', c_sha p ''artifact_id'', c_sha p ''channel_id'',
        c_uint p ''sequence'', c_opt v_uuid p ''run_id'',
        check (iget p ''sequence'' = 0 \<longrightarrow> field p ''run_id'' = JNull),
        check (iget p ''sequence'' \<noteq> 0 \<longrightarrow> sget p ''decision'' \<noteq> ''allow'')])"

definition interval_kinds :: "string list" where
  "interval_kinds = [''controller_operation'', ''controller_wait'', ''functional_execution'', ''supervisor_idle'']"

definition valid_interval_started :: "json \<Rightarrow> unit result" where
  "valid_interval_started p = all_checks
     [fields_are p [''interval_id'', ''kind'', ''run_id''], c_member interval_kinds p ''kind'',
      c_opt v_uuid p ''run_id'', c_uuid p ''interval_id'']"

definition valid_interval_finished :: "json \<Rightarrow> unit result" where
  "valid_interval_finished p = all_checks
     [fields_are p [''interval_id'', ''elapsed_ns'', ''outcome''], c_uint p ''elapsed_ns'',
      c_member [''returned'', ''raised''] p ''outcome'', c_uuid p ''interval_id'']"

definition valid_supervision :: "json \<Rightarrow> unit result" where
  "valid_supervision p = all_checks
     [fields_are p [''version''], check (field p ''version'' = JInt 1)]"

definition control_actions :: "string list" where
  "control_actions = [''pause'', ''resume'', ''cancel'']"

definition valid_control_requested :: "json \<Rightarrow> unit result" where
  "valid_control_requested p = all_checks
     [fields_are p [''request_id'', ''action'', ''reason'', ''run_id'', ''generation''],
      c_uuid p ''request_id'', c_member control_actions p ''action'', c_nonempty p ''reason'',
      check (code_points (sget p ''reason'') \<le> 1024), c_opt v_uuid p ''run_id'', c_opt v_uuid p ''generation'',
      check (sget p ''action'' \<noteq> ''cancel'' \<longrightarrow> field p ''run_id'' = JNull \<and> field p ''generation'' = JNull)]"

definition valid_control_applied :: "json \<Rightarrow> unit result" where
  "valid_control_applied p =
     (let cleanup = has_field p ''functional_cleanup_artifact_id'' in all_checks
       [optional_checks cleanup [c_sha p ''functional_cleanup_artifact_id''],
        fields_are p ([''request_id'', ''action''] @ (if cleanup then [''functional_cleanup_artifact_id''] else [])),
        c_uuid p ''request_id'', c_member control_actions p ''action''])"

definition valid_herdr_dispatch :: "json \<Rightarrow> unit result" where
  "valid_herdr_dispatch p = all_checks
     [fields_are p [''run_id'', ''task_sha256'', ''generation''], c_opt v_uuid p ''run_id'',
      c_opt v_uuid p ''generation'', c_sha p ''task_sha256'',
      check (field p ''run_id'' \<noteq> JNull \<and> field p ''generation'' \<noteq> JNull)]"

section \<open>Baseline, functional checks, repair and delivery\<close>

text \<open>A payload of SHA-256 fields only.\<close>

definition valid_shas :: "string list \<Rightarrow> json \<Rightarrow> unit result" where
  "valid_shas ks p = all_checks (fields_are p ks # map (c_sha p) ks)"

definition v_ordinal :: "json \<Rightarrow> bool" where
  "v_ordinal v \<longleftrightarrow> is_int v \<and> 1 \<le> int_of v \<and> int_of v \<le> 20"

definition valid_repair_opened :: "json \<Rightarrow> unit result" where
  "valid_repair_opened p = all_checks
     [fields_are p [''ordinal'', ''feedback_artifact_id''], check (v_ordinal (field p ''ordinal'')),
      check ((field p ''feedback_artifact_id'' = JNull) = (iget p ''ordinal'' = 1)),
      c_opt v_sha p ''feedback_artifact_id'']"

definition v_unchanged :: "json \<Rightarrow> bool" where
  "v_unchanged p \<longleftrightarrow>
     (let u = field p ''unchanged_from'' in
      u = JNull \<or> (is_int u \<and> 1 \<le> int_of u \<and> int_of u < iget p ''ordinal'' \<and> sget p ''status'' = ''failed''))"

definition valid_repair_settled :: "json \<Rightarrow> unit result" where
  "valid_repair_settled p = all_checks
     [fields_are p [''ordinal'', ''tree_sha'', ''functional_attempt_id'', ''receipt_artifact_id'', ''status'',
        ''unchanged_from'', ''feedback_artifact_id''],
      check (v_ordinal (field p ''ordinal'')), c_oid p ''tree_sha'', c_uuid p ''functional_attempt_id'',
      c_sha p ''receipt_artifact_id'', c_member [''passed'', ''failed''] p ''status'',
      check ((field p ''feedback_artifact_id'' = JNull) = (sget p ''status'' = ''passed'')),
      c_opt v_sha p ''feedback_artifact_id'', check (v_unchanged p)]"

definition delivery_names :: "string list" where
  "delivery_names = [''delivered'', ''collision'', ''blocked'', ''indeterminate'', ''aborted'']"

definition valid_delivery :: "bool \<Rightarrow> json \<Rightarrow> unit result" where
  "valid_delivery finished p = all_checks
     [fields_are p ([''ordinal'', ''tree_sha''] @ (if finished then [''status'', ''receipt_artifact_id''] else [])),
      check (v_ordinal (field p ''ordinal'')), c_oid p ''tree_sha'',
      optional_checks finished [c_member delivery_names p ''status'', c_sha p ''receipt_artifact_id'']]"

definition valid_functional_started :: "json \<Rightarrow> unit result" where
  "valid_functional_started p = all_checks
     [fields_are p [''contract_artifact_id'', ''attempt_id'', ''tree_sha''], c_sha p ''contract_artifact_id'',
      c_uuid p ''attempt_id'', c_oid p ''tree_sha'']"

definition functional_names :: "string list" where
  "functional_names = [''passed'', ''failed'', ''blocked'', ''indeterminate'']"

definition valid_functional_finished :: "json \<Rightarrow> unit result" where
  "valid_functional_finished p = all_checks
     [fields_are p [''contract_artifact_id'', ''attempt_id'', ''receipt_artifact_id'', ''status''],
      c_sha p ''contract_artifact_id'', c_sha p ''receipt_artifact_id'', c_uuid p ''attempt_id'',
      c_member functional_names p ''status'']"

section \<open>Finalization policy\<close>

definition finalization_fields :: "string list" where
  "finalization_fields =
     [''compiled_digest'', ''minimum_archive_schema_version'', ''permissions_policy_version'', ''required_turns'']"

definition versioned_fields :: "string list" where
  "versioned_fields = finalization_fields @ [''herdr_profile'', ''herdr_profile_sha256'']"

text \<open>\<open>VERSIONED_FINALIZATION_CONTRACTS\<close>: archive version, permissions version, turns.\<close>

definition finalization_contract :: "json \<Rightarrow> (int \<times> int \<times> int) option" where
  "finalization_contract v =
     (if v = JStr ''astra_sol_research_v1'' then Some (6, 3, 6)
      else if v = JStr ''sol_minimal_v1'' then Some (7, 4, 1) else None)"

definition valid_contract :: "json \<Rightarrow> bool \<Rightarrow> unit result" where
  "valid_contract p repair =
     (if is_arr (field p ''herdr_profile'') \<or> is_obj (field p ''herdr_profile'') then Inl TypeError
      else all_checks
       [optional_checks repair
          [c_sha p ''repair_policy_sha256'', check (field p ''herdr_profile'' = JStr physical_scope_profile),
           check (v_ordinal (field p ''required_turns''))],
        check (case finalization_contract (field p ''herdr_profile'') of
                 None \<Rightarrow> False
               | Some (archive, permissions, turns) \<Rightarrow>
                   field p ''minimum_archive_schema_version'' = JInt archive
                   \<and> field p ''permissions_policy_version'' = JInt permissions
                   \<and> (repair \<or> field p ''required_turns'' = JInt turns)),
        c_sha p ''herdr_profile_sha256''])"

definition valid_finalization :: "json \<Rightarrow> unit result" where
  "valid_finalization p =
     (let repair = has_exactly p (versioned_fields @ [''repair_policy_sha256'']) in all_checks
       [fields_among p [finalization_fields, versioned_fields, versioned_fields @ [''repair_policy_sha256'']],
        c_sha p ''compiled_digest'',
        (if has_exactly p versioned_fields \<or> repair then valid_contract p repair
         else check (field p ''minimum_archive_schema_version'' = JInt 3
                     \<and> field p ''permissions_policy_version'' \<in> {JInt 1, JInt 2}
                     \<and> field p ''required_turns'' = JInt 5))])"

section \<open>Inference\<close>

text \<open>\<open>fleet_chatgpt_provider.validate_descriptor\<close>.\<close>

definition provider_endpoint :: string where
  "provider_endpoint = ''https://chatgpt.com/backend-api/codex/responses''"

definition valid_descriptor :: "json \<Rightarrow> unit result" where
  "valid_descriptor v = all_checks
     [check (is_obj v \<and> has_exactly v [''kind'', ''transport'', ''endpoint'', ''account_sha256'']),
      check (field v ''kind'' = JStr ''chatgpt-subscription'' \<and> field v ''endpoint'' = JStr provider_endpoint),
      c_member [''chatgpt-subscription-https-v1'', ''chatgpt-subscription-loopback-v1''] v ''transport'',
      c_sha v ''account_sha256'']"

definition inference_policy_fields :: "string list" where
  "inference_policy_fields =
     [''schema_version'', ''profile'', ''attempt'', ''run_id'', ''run_link_artifact_id'', ''launch_artifact_id'',
      ''frozen_policy_sha256'', ''model'', ''effort'', ''deadline_at'', ''max_requests'', ''max_input_bytes'',
      ''max_output_tokens'', ''call_timeout_ms'']"

definition v_limit :: "int \<Rightarrow> json \<Rightarrow> bool" where
  "v_limit maximum v \<longleftrightarrow> is_int v \<and> 1 \<le> int_of v \<and> int_of v \<le> maximum"

definition inference_limit :: int where
  "inference_limit = 256 * 1024"

text \<open>
  Every failure of these validators, \<open>InferenceError\<close> included, leaves the registry as
  MissionStateError (\<open>except InferenceError ... raise MissionStateError\<close>).
\<close>

definition valid_inference_policy :: "prims \<Rightarrow> json \<Rightarrow> unit result" where
  "valid_inference_policy E v =
     (let subscription = (field v ''schema_version'' = JInt 2 \<or> field v ''schema_version'' = JInt 3);
          a = field v ''attempt'' in
      if is_arr (field v ''schema_version'') \<or> is_obj (field v ''schema_version'') then Inl TypeError
      else all_checks
       [check (is_obj v),
        fields_are v (inference_policy_fields @ (if subscription then [''provider''] else [])),
        check (subscription \<or> field v ''schema_version'' = JInt 1),
        c_member [''local-inference-fixture-v1'', ''local-codex-responses-v1''] v ''profile'',
        optional_checks subscription
          [check (field v ''profile'' = JStr ''local-codex-responses-v1''), valid_descriptor (field v ''provider'')],
        check (is_obj a), fields_are a attempt_fields,
        c_member (if field v ''schema_version'' = JInt 3 then [''lead'', ''worker'', ''reviewer'', ''verifier'']
                  else [''worker'']) a ''role'',
        c_uuid a ''mission_id'', c_uuid a ''generation'', c_uuid a ''attempt_id'', c_uuid v ''run_id'',
        c_sha v ''run_link_artifact_id'', c_sha v ''launch_artifact_id'', c_sha v ''frozen_policy_sha256'',
        c_nonempty v ''model'', c_nonempty v ''effort'', check (v_time E (field v ''deadline_at'')),
        check (v_limit 128 (field v ''max_requests'')), check (v_limit inference_limit (field v ''max_input_bytes'')),
        check (v_limit 32768 (field v ''max_output_tokens'')), check (v_limit 30000 (field v ''call_timeout_ms''))])"

definition valid_inference_frozen :: "prims \<Rightarrow> json \<Rightarrow> unit result" where
  "valid_inference_frozen E p = all_checks
     [fields_are p [''policy_id'', ''policy''], c_sha p ''policy_id'',
      valid_inference_policy E (field p ''policy''),
      check (sha256 E (field p ''policy'') = sget p ''policy_id'')]"

definition valid_inference_reserved :: "json \<Rightarrow> unit result" where
  "valid_inference_reserved p = all_checks
     [fields_are p [''policy_id'', ''request_id'', ''request_sha256'', ''input_bytes'', ''output_tokens''],
      c_sha p ''policy_id'', c_uuid p ''request_id'', c_sha p ''request_sha256'',
      check (v_limit inference_limit (field p ''input_bytes'')),
      check (v_limit inference_limit (field p ''output_tokens''))]"

definition valid_inference_finished :: "json \<Rightarrow> unit result" where
  "valid_inference_finished p = all_checks
     [fields_are p [''policy_id'', ''request_id'', ''receipt_artifact_id'', ''status''],
      c_sha p ''policy_id'', c_uuid p ''request_id'', c_sha p ''receipt_artifact_id'',
      c_member [''completed'', ''withheld'', ''indeterminate''] p ''status'']"

end
