(* ===== verification/Decode.thy ===== *)
theory Decode
  imports Schema_Herdr
begin

text \<open>
  The dispatch of the registry on the event kind, and the reading of a valid payload as the
  data the reducer works on: every field becomes what \<open>payload[...]\<close> yields, a field that
  older schemas lack becomes an option.
\<close>

section \<open>The registry\<close>

type_synonym validator = "json \<Rightarrow> unit result"

definition lifecycle_registry :: "prims \<Rightarrow> (string \<times> validator) list" where
  "lifecycle_registry E =
     [(''mission_created'', valid_created), (''workflow_compiled'', valid_compiled),
      (''risk_assessed'', valid_risk_assessed), (''risk_escalated'', valid_escalated),
      (''fleet_boot_started'', valid_boot), (''mission_running'', valid_running),
      (''assurance_requested'', valid_assurance_requested), (''assurance_approved'', valid_approved E),
      (''assurance_approval_renewed'', valid_renewed E), (''assurance_boot_started'', valid_assurance_boot),
      (''assurance_started'', valid_assurance_started), (''mission_completing'', valid_completing),
      (''archive_created'', valid_archive), (''mission_terminal'', valid_terminal)]"

definition run_registry :: "prims \<Rightarrow> (string \<times> validator) list" where
  "run_registry E =
     [(''lead_dispatch_intent'', valid_lead_intent), (''lead_dispatched'', valid_lead_dispatched),
      (''lead_result_recorded'', valid_lead_result), (''synthesis_result_recorded'', valid_synthesis),
      (''capability_token_issued'', valid_token_issued), (''capability_token_bound'', valid_token_bound),
      (''delegation_budget_allocated'', valid_budget_allocated),
      (''delegation_dispatch_intent'', valid_dispatch_intent), (''delegation_registered'', valid_registered E),
      (''result_recorded'', valid_result), (''result_relayed'', valid_relayed),
      (''human_approval_requested'', valid_human_approval),
      (''human_decision_requested'', valid_decision_requested),
      (''human_decision_resolved'', valid_decision_resolved),
      (''decision_notification_enqueued'', valid_enqueued),
      (''decision_notification_attempted'', valid_attempted),
      (''decision_notification_outcome'', valid_outcome), (''run_cancel_requested'', valid_cancel),
      (''lead_completion_requested'', valid_completion_request),
      (''assured_action_intent'', valid_assured_action False),
      (''assured_action_completed'', valid_assured_action True)]"

definition admission_registry :: "prims \<Rightarrow> (string \<times> validator) list" where
  "admission_registry E =
     [(''mission_admission_policy_frozen'', valid_policy E), (''delegations_reserved'', valid_reserved),
      (''delegation_committed'', valid_committed), (''delegation_launch_authorized'', valid_authorized),
      (''delegation_started'', valid_started), (''delegation_finalized'', valid_finalized),
      (''delegation_reservation_aborted'', valid_aborted)]"

definition herdr_registry :: "prims \<Rightarrow> (string \<times> validator) list" where
  "herdr_registry E =
     [(''inference_policy_frozen'', valid_inference_frozen E),
      (''inference_request_reserved'', valid_inference_reserved),
      (''inference_request_finished'', valid_inference_finished), (''herdr_native_observed'', valid_native),
      (''herdr_interval_started'', valid_interval_started),
      (''herdr_interval_finished'', valid_interval_finished),
      (''herdr_supervision_enabled'', valid_supervision), (''herdr_control_requested'', valid_control_requested),
      (''herdr_control_applied'', valid_control_applied), (''herdr_dispatch_intent'', valid_herdr_dispatch),
      (''herdr_scope_baseline_captured'',
         valid_shas [''compiled_digest'', ''contract_sha256'', ''baseline_artifact_id'']),
      (''functional_policy_frozen'', valid_shas [''compiled_digest'', ''spec_artifact_id'', ''tests_sha256'']),
      (''repair_policy_frozen'', valid_shas [''compiled_digest'', ''policy_artifact_id'']),
      (''repair_attempt_opened'', valid_repair_opened), (''repair_attempt_settled'', valid_repair_settled),
      (''delivery_started'', valid_delivery False), (''delivery_finished'', valid_delivery True),
      (''functional_check_started'', valid_functional_started),
      (''functional_check_finished'', valid_functional_finished),
      (''herdr_finalization_policy_frozen'', valid_finalization),
      (''herdr_archive_selected'', valid_shas [''compiled_digest'', ''ledger_head'', ''index_artifact_id''])]"

definition registry :: "prims \<Rightarrow> (string \<times> validator) list" where
  "registry E = lifecycle_registry E @ run_registry E @ admission_registry E @ herdr_registry E"

definition validate_payload :: "prims \<Rightarrow> string \<Rightarrow> json \<Rightarrow> unit result" where
  "validate_payload E kind p =
     (if \<not> is_obj p then Inl MissionStateError
      else case map_of (registry E) kind of None \<Rightarrow> Inl MissionStateError | Some v \<Rightarrow> v p)"

section \<open>Reading enumerations\<close>

fun risk_of :: "string \<Rightarrow> risk" where
  "risk_of s = (if s = ''low'' then Low else if s = ''medium'' then Medium else if s = ''high'' then High
     else Unknown)"

fun terminal_of :: "string \<Rightarrow> terminal_status" where
  "terminal_of s = (if s = ''succeeded'' then T_succeeded else if s = ''failed'' then T_failed
     else if s = ''blocked'' then T_blocked else if s = ''abandoned'' then T_abandoned else T_indeterminate)"

fun run_kind_of :: "string \<Rightarrow> run_kind" where
  "run_kind_of s = (if s = ''lead'' then Lead else Specialist)"

fun action_of :: "string \<Rightarrow> control_action" where
  "action_of s = (if s = ''pause'' then Pause else if s = ''resume'' then Resume else Cancel)"

fun notify_of :: "string \<Rightarrow> notify_outcome" where
  "notify_of s = (if s = ''accepted'' then N_accepted else if s = ''rejected'' then N_rejected
     else N_indeterminate)"

fun functional_of :: "string \<Rightarrow> functional_status" where
  "functional_of s = (if s = ''passed'' then F_passed else if s = ''failed'' then F_failed
     else if s = ''blocked'' then F_blocked else F_indeterminate)"

fun delivery_of :: "string \<Rightarrow> delivery_status" where
  "delivery_of s = (if s = ''delivered'' then D_delivered else if s = ''collision'' then D_collision
     else if s = ''blocked'' then D_blocked else if s = ''indeterminate'' then D_indeterminate else D_aborted)"

fun inference_of :: "string \<Rightarrow> inference_status" where
  "inference_of s = (if s = ''completed'' then I_completed else if s = ''withheld'' then I_withheld
     else I_indeterminate)"

text \<open>An optional string, integer and pair of strings.\<close>

definition sopt :: "json \<Rightarrow> string \<Rightarrow> string option" where
  "sopt p k = (if has_field p k then oget p k else None)"

fun oint_of :: "json \<Rightarrow> int option" where
  "oint_of (JInt i) = Some i"
| "oint_of _ = None"

definition profile_of :: "json \<Rightarrow> (string \<times> string) option" where
  "profile_of p =
     (if has_field p ''herdr_profile'' then Some (sget p ''herdr_profile'', sget p ''herdr_profile_sha256'')
      else None)"

section \<open>Reading lifecycle payloads\<close>

definition created_of :: "json \<Rightarrow> created_payload" where
  "created_of p =
     \<lparr>cr_feature = sget p ''feature'', cr_objective = sget p ''objective_sha256'',
      cr_target_repo = sget p ''target_repo'', cr_base_sha = sget p ''base_sha'',
      cr_workflow_digest = sget p ''workflow_digest'', cr_initial_risk = risk_of (sget p ''initial_risk''),
      cr_sdd_plan = sopt p ''sdd_plan_sha256'', cr_scope_contract = sopt p ''scope_contract_sha256'',
      cr_repair_policy = sopt p ''repair_policy_sha256'', cr_profile = profile_of p\<rparr>"

definition approval_of :: "json \<Rightarrow> approval" where
  "approval_of p =
     \<lparr>ap_id = sget p ''approval_id'', ap_request = sget p ''request_event_sha256'',
      ap_workflow_digest = sget p ''workflow_digest'', ap_scope = sget p ''scope'',
      ap_risk = risk_of (sget p ''risk''), ap_expires_at = sget p ''expires_at'',
      ap_expires_in = oint_of (field p ''expires_in_seconds''), ap_by = sget p ''approved_by_sha256'',
      ap_prior = sopt p ''prior_approval_event_sha256''\<rparr>"

definition decode_lifecycle :: "string \<Rightarrow> json \<Rightarrow> lifecycle_event option" where
  "decode_lifecycle kind p =
     (if kind = ''mission_created'' then Some Mission_recreated
      else if kind = ''workflow_compiled'' then Some (Workflow_compiled (sget p ''compiled_digest''))
      else if kind = ''fleet_boot_started'' then Some Fleet_boot_started
      else if kind = ''mission_running'' then Some Mission_running
      else if kind = ''assurance_requested'' then Some (Assurance_requested (slist p ''categories''))
      else if kind = ''assurance_approved'' then Some (Assurance_approved (approval_of p))
      else if kind = ''assurance_boot_started'' then
        Some (Assurance_boot_started (sget p ''approval_event_sha256''))
      else if kind = ''assurance_started'' then Some (Assurance_started (sget p ''approval_event_sha256''))
      else if kind = ''mission_completing'' then Some Mission_completing
      else if kind = ''archive_created'' then Some Archive_created
      else if kind = ''assurance_approval_renewed'' then Some (Assurance_renewed (approval_of p))
      else if kind = ''risk_escalated'' then
        Some (Risk_escalated (risk_of (sget p ''from'')) (risk_of (sget p ''to'')) (slist p ''categories''))
      else if kind = ''mission_terminal'' then
        Some (Mission_terminal (terminal_of (sget p ''status'')) (sget p ''reason''))
      else None)"

section \<open>Reading admission payloads\<close>

definition admission_of :: "json \<Rightarrow> admission_request" where
  "admission_of x =
     \<lparr>a_id = sget x ''admission_id'', a_delegation_id = oget x ''delegation_id'', a_run_id = sget x ''run_id'',
      a_run_kind = run_kind_of (sget x ''run_kind''), a_request_key = sget x ''request_key'',
      a_request_digest = sget x ''request_digest'', a_recipient = sget x ''recipient_instance'',
      a_capability = sget x ''capability'', a_parent = oget x ''parent_admission_id'',
      a_parent_run = oget x ''parent_run_id'', a_budget = iget x ''delegated_budget'',
      a_cost = iget x ''credit_cost'', a_global_debit = iget x ''global_credit_debit'',
      a_parent_debit = iget x ''parent_credit_debit'', a_writer = bget x ''writer'',
      a_effect = sopt x ''effect_sha256'', a_task = sopt x ''task_sha256''\<rparr>"

definition policy_of :: "json \<Rightarrow> admission_policy" where
  "policy_of p =
     \<lparr>po_workflow_digest = sget p ''workflow_digest'', po_compiled_digest = sget p ''compiled_digest'',
      po_deadline_at = sget p ''deadline_at'', po_credits = iget p ''delegation_credits'',
      po_max_active = iget p ''max_active_delegations''\<rparr>"

definition reserved_of :: "json \<Rightarrow> reserved_payload" where
  "reserved_of p =
     \<lparr>rv_batch_id = sget p ''batch_id'', rv_batch_sha = sget p ''batch_sha256'',
      rv_request_sha = sopt p ''request_sha256'',
      rv_admissions = map admission_of (arr_of (field p ''admissions''))\<rparr>"

definition committed_of :: "json \<Rightarrow> committed_payload" where
  "committed_of p =
     \<lparr>cm_admission = sget p ''admission_id'', cm_commit_id = sget p ''commit_id'',
      cm_reservation_event = sget p ''reservation_event_sha256'', cm_request_digest = sget p ''request_digest'',
      cm_effect = sopt p ''effect_sha256'', cm_recipient = sget p ''recipient_instance'',
      cm_writer = bget p ''writer'', cm_run_id = sget p ''run_id''\<rparr>"

definition authorized_of :: "json \<Rightarrow> authorized_payload" where
  "authorized_of p =
     \<lparr>la_admission = sget p ''admission_id'', la_commit_event = sget p ''commit_event_sha256'',
      la_request_digest = sget p ''request_digest'', la_effect = sget p ''effect_sha256'',
      la_recipient = sget p ''recipient_instance'', la_writer = bget p ''writer'', la_run_id = sget p ''run_id'',
      la_approval = (if has_field p ''approval_event_sha256'' then Some (oget p ''approval_event_sha256'')
                     else None)\<rparr>"

definition started_of :: "json \<Rightarrow> started_payload" where
  "started_of p =
     \<lparr>st_admission = sget p ''admission_id'', st_request_digest = sget p ''request_digest'',
      st_recipient = sget p ''recipient_instance'', st_writer = bget p ''writer'', st_run_id = sget p ''run_id'',
      st_proof = (if has_field p ''authorization_event_sha256''
                  then Current_start (sget p ''authorization_event_sha256'') (sget p ''effect_sha256'')
                  else Legacy_start (sget p ''commit_event_sha256'') (sget p ''expected_head_sha256''))\<rparr>"

definition evidence_of :: "json \<Rightarrow> terminal_evidence" where
  "evidence_of v =
     \<lparr>te_source_event = sget v ''source_event_sha256'', te_run_id = sget v ''run_id'',
      te_task = sget v ''task_sha256'', te_status = terminal_of (sget v ''status'')\<rparr>"

definition final_binding_of :: "json \<Rightarrow> final_binding" where
  "final_binding_of p =
     \<lparr>fb_run_id = sget p ''run_id'', fb_recipient = sget p ''recipient_instance'', fb_writer = bget p ''writer'',
      fb_evidence_sha = sget p ''terminal_evidence_sha256'', fb_source = sopt p ''terminal_source_sha256'',
      fb_evidence = (if has_field p ''terminal_evidence'' then Some (evidence_of (field p ''terminal_evidence''))
                     else None)\<rparr>"

definition finalized_of :: "json \<Rightarrow> finalized_payload" where
  "finalized_of p =
     \<lparr>fi_admission = sget p ''admission_id'', fi_status = terminal_of (sget p ''status''),
      fi_reason = sget p ''reason'',
      fi_binding = (if has_field p ''run_id'' then Some (final_binding_of p) else None)\<rparr>"

definition abort_binding_of :: "json \<Rightarrow> abort_binding" where
  "abort_binding_of p =
     \<lparr>ab_run_id = sget p ''run_id'', ab_request_digest = sget p ''request_digest'',
      ab_effect = sget p ''effect_sha256'', ab_task = sget p ''task_sha256'',
      ab_recipient = sget p ''recipient_instance'', ab_writer = bget p ''writer''\<rparr>"

definition aborted_of :: "json \<Rightarrow> aborted_payload" where
  "aborted_of p =
     \<lparr>ab_admission = sget p ''admission_id'', ab_reason = sget p ''reason'',
      ab_binding = (if has_field p ''run_id'' then Some (abort_binding_of p) else None)\<rparr>"

definition decode_admission :: "string \<Rightarrow> json \<Rightarrow> admission_event option" where
  "decode_admission kind p =
     (if kind = ''mission_admission_policy_frozen'' then Some (Policy_frozen (policy_of p))
      else if kind = ''delegation_budget_allocated'' then Some Budget_allocated
      else if kind = ''delegations_reserved'' then Some (Delegations_reserved (reserved_of p))
      else if kind = ''delegation_committed'' then Some (Delegation_committed (committed_of p))
      else if kind = ''delegation_launch_authorized'' then Some (Launch_authorized (authorized_of p))
      else if kind = ''delegation_started'' then Some (Delegation_started (started_of p))
      else if kind = ''delegation_finalized'' then Some (Delegation_finalized (finalized_of p))
      else if kind = ''delegation_reservation_aborted'' then Some (Reservation_aborted (aborted_of p))
      else None)"

section \<open>Reading run and decision payloads\<close>

definition run_result_of :: "json \<Rightarrow> run_result" where
  "run_result_of p =
     \<lparr>rr_run_id = sget p ''run_id'', rr_artifact = sget p ''artifact_id'', rr_provider = sget p ''provider'',
      rr_model = sget p ''model'', rr_variant = oget p ''variant'', rr_file = sopt p ''result_file''\<rparr>"

definition registration_of :: "json \<Rightarrow> registration" where
  "registration_of p =
     \<lparr>rg_delegation = sget p ''delegation_id'', rg_mission = sget p ''mission_id'', rg_run_id = sget p ''run_id'',
      rg_parent_run = oget p ''parent_run_id'', rg_by = sget p ''delegated_by'',
      rg_recipient = sget p ''recipient_instance'', rg_capability = sget p ''capability'',
      rg_objective = sget p ''objective_sha256'', rg_inputs = slist p ''input_artifact_ids'',
      rg_contract = field p ''expected_output_contract'', rg_deadline = sget p ''deadline'',
      rg_provider = sget p ''provider'', rg_model = sget p ''model'', rg_variant = oget p ''variant'',
      rg_depth = iget p ''depth'', rg_token = oget p ''token_id''\<rparr>"

definition decode_run :: "string \<Rightarrow> json \<Rightarrow> run_event option" where
  "decode_run kind p =
     (if kind = ''lead_dispatched'' then Some (Lead_dispatched (sget p ''run_id''))
      else if kind = ''lead_result_recorded'' then Some (Lead_result_recorded (run_result_of p))
      else if kind = ''synthesis_result_recorded'' then
        Some (Synthesis_recorded (sget p ''admission_id'') (run_result_of p))
      else if kind = ''delegation_registered'' then Some (Delegation_registered (registration_of p))
      else if kind = ''result_recorded'' then
        Some (Result_recorded (sget p ''delegation_id'') (run_result_of p))
      else if kind = ''lead_completion_requested'' then Some Lead_completion_requested
      else if kind = ''run_cancel_requested'' then
        Some (Run_cancel_requested (sget p ''run_id'') (sget p ''reason''))
      else None)"

definition decision_evidence_of :: "json \<Rightarrow> evidence" where
  "decision_evidence_of v =
     \<lparr>ev_artifact = sget v ''artifact_id'', ev_delegation = sget v ''delegation_id'',
      ev_instance = sget v ''instance''\<rparr>"

definition decision_of :: "json \<Rightarrow> decision_request" where
  "decision_of p =
     \<lparr>dr_id = sget p ''decision_id'', dr_affected = slist p ''affected_instances'',
      dr_impact = (if sget p ''impact'' = ''blocking'' then Blocking else Checkpoint),
      dr_risk = risk_of (sget p ''risk''), dr_reversible = bget p ''reversible'', dr_options = option_ids p,
      dr_recommendation = decision_evidence_of (field p ''recommendation''),
      dr_challenge = decision_evidence_of (field p ''challenge''), dr_default = oget p ''default_option_id''\<rparr>"

definition attempt_of :: "json \<Rightarrow> attempt_payload" where
  "attempt_of p =
     \<lparr>at_decision = sget p ''decision_id'', at_enqueue = sget p ''enqueue_event_sha256'',
      at_number = iget p ''attempt_number'', at_instance = sget p ''target_instance'',
      at_surface = oget p ''target_surface_uuid'', at_workspace = oget p ''target_workspace_uuid''\<rparr>"

definition outcome_of :: "json \<Rightarrow> outcome_payload" where
  "outcome_of p =
     \<lparr>oc_decision = sget p ''decision_id'', oc_enqueue = sget p ''enqueue_event_sha256'',
      oc_attempt = sget p ''attempt_event_sha256'', oc_outcome = notify_of (sget p ''outcome''),
      oc_reason = sget p ''reason'', oc_returncode = oint_of (field p ''returncode'')\<rparr>"

definition resolution_of :: "json \<Rightarrow> resolution_payload" where
  "resolution_of p =
     \<lparr>rs_decision = sget p ''decision_id'', rs_request_event = sget p ''request_event_sha256'',
      rs_option = sget p ''option_id'', rs_reason = sget p ''reason'',
      rs_kind = (if sget p ''resolution_kind'' = ''human'' then By_human else Automatic)\<rparr>"

definition decode_decision :: "string \<Rightarrow> json \<Rightarrow> decision_event option" where
  "decode_decision kind p =
     (if kind = ''human_decision_requested'' then Some (Decision_requested (decision_of p))
      else if kind = ''decision_notification_enqueued'' then
        Some (Notification_enqueued (sget p ''decision_id''))
      else if kind = ''decision_notification_attempted'' then Some (Notification_attempted (attempt_of p))
      else if kind = ''decision_notification_outcome'' then Some (Notification_outcome (outcome_of p))
      else if kind = ''human_decision_resolved'' then Some (Decision_resolved (resolution_of p))
      else None)"

section \<open>Reading Herdr payloads\<close>

definition herdr_attempt_of :: "json \<Rightarrow> herdr_attempt" where
  "herdr_attempt_of a =
     \<lparr>ha_mission = sget a ''mission_id'', ha_generation = sget a ''generation'', ha_role = sget a ''role'',
      ha_attempt = sget a ''attempt_id''\<rparr>"

definition native_of :: "json \<Rightarrow> native_payload" where
  "native_of p =
     \<lparr>na_attempt = herdr_attempt_of (field p ''attempt''), na_run_id = oget p ''run_id'',
      na_artifact = sget p ''artifact_id'', na_channel = sget p ''channel_id'', na_sequence = iget p ''sequence'',
      na_allow = (sget p ''decision'' = ''allow'')\<rparr>"

definition control_of :: "json \<Rightarrow> control_request" where
  "control_of p =
     \<lparr>cq_id = sget p ''request_id'', cq_action = action_of (sget p ''action''), cq_reason = sget p ''reason'',
      cq_run_id = oget p ''run_id'', cq_generation = oget p ''generation''\<rparr>"

definition settle_of :: "json \<Rightarrow> settle_payload" where
  "settle_of p =
     \<lparr>se_ordinal = iget p ''ordinal'', se_tree = sget p ''tree_sha'',
      se_functional = sget p ''functional_attempt_id'', se_receipt = sget p ''receipt_artifact_id'',
      se_passed = (sget p ''status'' = ''passed''), se_unchanged = oint_of (field p ''unchanged_from''),
      se_feedback = oget p ''feedback_artifact_id''\<rparr>"

definition finalization_of :: "json \<Rightarrow> finalization_policy" where
  "finalization_of p =
     \<lparr>fp_compiled = sget p ''compiled_digest'', fp_archive_version = iget p ''minimum_archive_schema_version'',
      fp_permissions_version = iget p ''permissions_policy_version'', fp_turns = iget p ''required_turns'',
      fp_profile = profile_of p, fp_repair = sopt p ''repair_policy_sha256''\<rparr>"

definition inference_policy_of :: "json \<Rightarrow> inference_policy" where
  "inference_policy_of v =
     \<lparr>ip_attempt = herdr_attempt_of (field v ''attempt''), ip_run_id = sget v ''run_id'',
      ip_deadline = sget v ''deadline_at'', ip_max_requests = iget v ''max_requests'',
      ip_max_input = iget v ''max_input_bytes'', ip_max_output = iget v ''max_output_tokens'', ip_text = v\<rparr>"

definition decode_herdr :: "string \<Rightarrow> json \<Rightarrow> herdr_event option" where
  "decode_herdr kind p =
     (let s = sget p in
      if kind = ''herdr_interval_started'' then
        Some (Interval_started (s ''interval_id'') (s ''kind'') (oget p ''run_id''))
      else if kind = ''herdr_interval_finished'' then
        Some (Interval_finished (s ''interval_id'') (iget p ''elapsed_ns'') (s ''outcome'' = ''returned''))
      else if kind = ''herdr_native_observed'' then Some (Native_observed (native_of p))
      else if kind = ''herdr_supervision_enabled'' then Some Supervision_enabled
      else if kind = ''herdr_control_requested'' then Some (Control_requested (control_of p))
      else if kind = ''herdr_control_applied'' then
        Some (Control_applied (s ''request_id'') (action_of (s ''action''))
          (sopt p ''functional_cleanup_artifact_id''))
      else if kind = ''herdr_dispatch_intent'' then
        Some (Dispatch_intent (s ''run_id'') (s ''task_sha256'') (s ''generation''))
      else if kind = ''herdr_scope_baseline_captured'' then
        Some (Scope_baseline (s ''compiled_digest'') (s ''contract_sha256'') (s ''baseline_artifact_id''))
      else if kind = ''functional_policy_frozen'' then
        Some (Functional_policy (s ''compiled_digest'') (s ''spec_artifact_id'') (s ''tests_sha256''))
      else if kind = ''repair_policy_frozen'' then
        Some (Repair_policy (s ''compiled_digest'') (s ''policy_artifact_id''))
      else if kind = ''repair_attempt_opened'' then
        Some (Repair_opened (iget p ''ordinal'') (oget p ''feedback_artifact_id''))
      else if kind = ''repair_attempt_settled'' then Some (Repair_settled (settle_of p))
      else if kind = ''delivery_started'' then Some (Delivery_started (iget p ''ordinal'') (s ''tree_sha''))
      else if kind = ''delivery_finished'' then
        Some (Delivery_finished (iget p ''ordinal'') (s ''tree_sha'')
          (delivery_of (s ''status'')) (s ''receipt_artifact_id''))
      else if kind = ''functional_check_started'' then
        Some (Functional_started (s ''contract_artifact_id'') (s ''attempt_id'') (s ''tree_sha''))
      else if kind = ''functional_check_finished'' then
        Some (Functional_finished (s ''contract_artifact_id'') (s ''attempt_id'')
          (s ''receipt_artifact_id'') (functional_of (s ''status'')))
      else if kind = ''herdr_archive_selected'' then
        Some (Archive_selected (s ''compiled_digest'') (s ''ledger_head'') (s ''index_artifact_id''))
      else if kind = ''herdr_finalization_policy_frozen'' then
        Some (Finalization_frozen (finalization_of p))
      else if kind = ''inference_policy_frozen'' then
        Some (Inference_frozen (s ''policy_id'') (inference_policy_of (field p ''policy'')))
      else if kind = ''inference_request_reserved'' then
        Some (Inference_reserved (s ''policy_id'') (s ''request_id'')
          (s ''request_sha256'') (iget p ''input_bytes'') (iget p ''output_tokens''))
      else if kind = ''inference_request_finished'' then
        Some (Inference_finished (s ''policy_id'') (s ''request_id'')
          (s ''receipt_artifact_id'') (inference_of (s ''status'')))
      else None)"

section \<open>Reading any payload\<close>

definition decode_payload :: "string \<Rightarrow> json \<Rightarrow> payload" where
  "decode_payload kind p =
     (case decode_lifecycle kind p of
        Some e \<Rightarrow> Lifecycle e
      | None \<Rightarrow>
     (case decode_admission kind p of
        Some e \<Rightarrow> Admission e
      | None \<Rightarrow>
     (case decode_run kind p of
        Some e \<Rightarrow> Run e
      | None \<Rightarrow>
     (case decode_decision kind p of
        Some e \<Rightarrow> Decision e
      | None \<Rightarrow> (case decode_herdr kind p of Some e \<Rightarrow> Herdr e | None \<Rightarrow> Inert)))))"

end
