(* ===== verification/State.thy ===== *)
theory State
  imports Events
begin

text \<open>
  The derived state of a mission: the dictionary that \<open>derive_state\<close> builds, grouped by
  the part of the reducer that owns the keys.
\<close>

section \<open>Lifecycle status\<close>

datatype status =
  Created | Compiled | Booting | Running
| Awaiting_assurance | Assurance_ok | Assured_booting | Assured_running
| Completing | Archived | Ended terminal_status

section \<open>Admissions and runs\<close>

text \<open>
  A stored admission: the reserved request extended by its lifecycle.  Each stored payload is
  paired with the hash of its event.
\<close>

record admission = admission_request +
  a_lane :: string
  a_phase :: phase
  a_active :: bool
  a_child_spent :: int
  a_reservation_event :: string
  a_commit :: "(committed_payload \<times> string) option"
  a_launch :: "(authorized_payload \<times> string \<times> string) option"
  a_started_event :: "string option"
  a_terminal :: "((finalized_payload + aborted_payload) \<times> string) option"
  a_result :: "(run_result \<times> string) option"

datatype owner = By_admission string | Legacy_lead | Legacy_delegation string

record batch =
  b_sha :: string
  b_admissions :: "string list"
  b_event :: string

record admission_state =
  s_policy :: "(admission_policy \<times> string) option"
  s_batches :: "batch dict"
  s_admissions :: "admission dict"
  s_run_claims :: "string dict"
  s_run_owners :: "owner dict"
  s_cancelled :: "string dict"
  s_recipients :: "string dict"
  s_writer :: "string option"
  s_active :: int
  s_spent :: int
  s_remaining :: "int option"
  s_lead_run :: "string option"
  s_lead_admission :: "string option"
  s_lead_result :: "run_result option"
  s_synthesis :: "(string \<times> run_result) option"
  s_delegations :: "registration dict"
  s_results :: "run_result dict"

definition empty_admission_state :: admission_state where
  "empty_admission_state =
     \<lparr>s_policy = None, s_batches = dempty, s_admissions = dempty, s_run_claims = dempty,
      s_run_owners = dempty, s_cancelled = dempty, s_recipients = dempty, s_writer = None,
      s_active = 0, s_spent = 0, s_remaining = None, s_lead_run = None,
      s_lead_admission = None, s_lead_result = None, s_synthesis = None,
      s_delegations = dempty, s_results = dempty\<rparr>"

section \<open>Decisions\<close>

datatype delivery_state =
  Ds_legacy | Ds_pending | Ds_in_flight | Ds_rejected | Ds_accepted | Ds_indeterminate | Ds_closed

record outbox =
  ob_managed :: bool
  ob_status :: delivery_state
  ob_attempts :: int
  ob_enqueue :: "string option"
  ob_next :: "string option"
  ob_active :: "string option"
  ob_last_attempt :: "(attempt_payload \<times> string \<times> string) option"
  ob_last_outcome :: "(outcome_payload \<times> string \<times> string) option"

record resolution =
  re_payload :: resolution_payload
  re_event :: string
  re_at :: string
  re_actor :: string

text \<open>
  The source keeps a pending decision as one object shared by \<open>decisions\<close> and
  \<open>pending_decisions\<close>; here the object lives in \<open>d_all\<close> and \<open>d_pending\<close> lists
  the identities that are pending, in the order of their requests.
\<close>

record decision =
  de_request :: decision_request
  de_request_event :: string
  de_requested_at :: string
  de_deadline :: string
  de_resolution :: "resolution option"
  de_delivery :: outbox

record decision_state =
  d_all :: "decision dict"
  d_pending :: "string list"

section \<open>Herdr\<close>

record interval =
  i_kind :: string
  i_run :: "string option"
  i_started :: string
  i_ended :: "string option"
  i_elapsed :: "int option"
  i_returned :: "bool option"

record stored_request =
  sr_request :: control_request
  sr_at :: string
  sr_event :: string
  sr_applied :: "string option"
  sr_cleanup :: "string option"

datatype desired = Want_running | Want_pause | Want_cancel
datatype applied = Is_running | Is_paused | Is_cancelled

record control =
  co_desired :: desired
  co_applied :: applied
  co_latest :: "string option"
  co_requests :: "stored_request dict"
  co_dispatches :: "(string \<times> string \<times> string) dict"
  co_sequence :: int

record functional_attempt =
  fa_contract :: string
  fa_attempt :: string
  fa_tree :: string
  fa_result :: "(string \<times> functional_status) option"

record repair_attempt =
  ra_ordinal :: int
  ra_feedback :: "string option"
  ra_functional :: "functional_attempt option"
  ra_settled :: "settle_payload option"

record delivery =
  dv_ordinal :: int
  dv_tree :: string
  dv_finished :: "(delivery_status \<times> string) option"

record inference_request =
  ir_sha :: string
  ir_input :: int
  ir_output :: int
  ir_result :: "inference_status option"

record inference_entry =
  ie_policy :: inference_policy
  ie_requests :: "inference_request dict"

record herdr_state =
  h_intervals :: "interval dict"
  h_native :: "native_payload list"
  h_control :: "control option"
  h_legacy_runs :: "string list"
  h_scope_baseline :: "(string \<times> string) option"
  h_functional_policy :: "(string \<times> string) option"
  h_repair_policy :: "string option"
  h_repairs :: "repair_attempt list"
  h_deliveries :: "delivery list"
  h_functional :: "functional_attempt option"
  h_archive :: "(string \<times> string) option"
  h_finalization :: "finalization_policy option"
  h_inference :: "inference_entry dict"

definition empty_herdr_state :: herdr_state where
  "empty_herdr_state =
     \<lparr>h_intervals = dempty, h_native = [], h_control = None, h_legacy_runs = [],
      h_scope_baseline = None, h_functional_policy = None, h_repair_policy = None,
      h_repairs = [], h_deliveries = [], h_functional = None, h_archive = None,
      h_finalization = None, h_inference = dempty\<rparr>"

section \<open>The mission\<close>

record mission =
  x_id :: string
  x_created :: created_payload
  x_status :: status
  x_risk :: risk
  x_categories :: "string list"
  x_compiled :: "string option"
  x_approval :: "(approval \<times> string) option"
  x_terminal :: "(terminal_status \<times> string) option"
  x_admissions :: admission_state
  x_decisions :: decision_state
  x_herdr :: herdr_state
  x_sequence :: int
  x_head :: string

abbreviation x_workflow_digest :: "mission \<Rightarrow> string" where
  "x_workflow_digest s \<equiv> cr_workflow_digest (x_created s)"

abbreviation x_target_repo :: "mission \<Rightarrow> string" where
  "x_target_repo s \<equiv> cr_target_repo (x_created s)"

text \<open>The state before the first event is counted (the literal of \<open>derive_state\<close>).\<close>

definition initial_state :: "string \<Rightarrow> created_payload \<Rightarrow> mission" where
  "initial_state mission_id c =
     \<lparr>x_id = mission_id, x_created = c, x_status = Created, x_risk = cr_initial_risk c,
      x_categories = [], x_compiled = None, x_approval = None, x_terminal = None,
      x_admissions = empty_admission_state,
      x_decisions = \<lparr>d_all = dempty, d_pending = []\<rparr>,
      x_herdr = empty_herdr_state, x_sequence = 0, x_head = genesis_sha256\<rparr>"

end
