(* ===== verification/Admission.thy ===== *)
theory Admission
  imports State
begin

text \<open>
  The guards of admission control in scripts/fleet_mission_state.py: lane, deadline and
  approval, settled inference, quiet admissions, the decisions that block a recipient, and the digests that
  bind an admission to its request.
\<close>

section \<open>Guards\<close>

definition require_live_approval :: "prims \<Rightarrow> mission \<Rightarrow> meta \<Rightarrow> string result" where
  "require_live_approval E s m =
     (case x_approval s of
        None \<Rightarrow> Inl MissionConflict
      | Some (ap, ev) \<Rightarrow>
          if ap_workflow_digest ap \<noteq> x_workflow_digest s \<or> ap_scope ap \<noteq> x_target_repo s
             \<or> ap_risk ap \<noteq> x_risk s then Inl MissionConflict
          else if instant E (m_time m) \<ge> instant E (ap_expires_at ap) then Inl MissionConflict
          else Inr ev)"

definition require_deadline :: "prims \<Rightarrow> mission \<Rightarrow> meta \<Rightarrow> admission_policy result" where
  "require_deadline E s m =
     (case s_policy (x_admissions s) of
        None \<Rightarrow> Inl MissionStateError
      | Some (po, _) \<Rightarrow>
          if instant E (m_time m) \<ge> instant E (po_deadline_at po) then Inl MissionConflict
          else Inr po)"

fun admission_lane :: "status \<Rightarrow> string option" where
  "admission_lane Compiled = Some ''CONTROL''"
| "admission_lane Booting = Some ''CONTROL''"
| "admission_lane Running = Some ''CONTROL''"
| "admission_lane Assured_booting = Some ''ASSURED''"
| "admission_lane Assured_running = Some ''ASSURED''"
| "admission_lane _ = None"

definition require_lane :: "prims \<Rightarrow> mission \<Rightarrow> meta \<Rightarrow> string result" where
  "require_lane E s m =
     (case admission_lane (x_status s) of
        None \<Rightarrow> Inl MissionConflict
      | Some expected \<Rightarrow>
          if m_actor m \<noteq> expected then Inl MissionConflict
          else if expected = ''ASSURED'' then
            (case require_live_approval E s m of Inl e \<Rightarrow> Inl e | Inr _ \<Rightarrow> Inr expected)
          else Inr expected)"

fun launch_lane :: "status \<Rightarrow> string option" where
  "launch_lane Running = Some ''CONTROL''"
| "launch_lane Assured_running = Some ''ASSURED''"
| "launch_lane _ = None"

definition require_launch_lane :: "prims \<Rightarrow> mission \<Rightarrow> meta \<Rightarrow> string option result" where
  "require_launch_lane E s m =
     (case launch_lane (x_status s) of
        None \<Rightarrow> Inl MissionConflict
      | Some expected \<Rightarrow>
          if m_actor m \<noteq> expected then Inl MissionConflict
          else if expected = ''ASSURED'' then
            (case require_live_approval E s m of Inl e \<Rightarrow> Inl e | Inr ev \<Rightarrow> Inr (Some ev))
          else Inr None)"

text \<open>\<open>_require_inference_settled\<close> and \<open>fleet_herdr_inference.require_settled\<close>.\<close>

fun request_settled :: "inference_request \<Rightarrow> bool" where
  "request_settled r = (ir_result r = Some I_completed \<or> ir_result r = Some I_withheld)"

definition inference_settled :: "mission \<Rightarrow> bool" where
  "inference_settled s \<longleftrightarrow>
     list_all (\<lambda>e. list_all request_settled (dvals (ie_requests e))) (dvals (h_inference (x_herdr s)))"

definition no_active_admissions :: "admission_state \<Rightarrow> bool" where
  "no_active_admissions t \<longleftrightarrow>
     ditems (s_run_claims t) = [] \<and> s_writer t = None
     \<and> list_all (\<lambda>a. \<not> a_active a) (dvals (s_admissions t))"

definition require_no_active_admissions :: "mission \<Rightarrow> unit result" where
  "require_no_active_admissions s =
     (if \<not> inference_settled s then Inl MissionConflict
      else if \<not> no_active_admissions (x_admissions s) then Inl MissionConflict
      else Inr ())"

text \<open>\<open>_blocking_decision_ids(result, recipient_instance=recipient)\<close>.\<close>

definition blocking_decisions :: "mission \<Rightarrow> string \<Rightarrow> string list" where
  "blocking_decisions s recipient =
     filter (\<lambda>d. case dget (d_all (x_decisions s)) d of
                   None \<Rightarrow> False
                 | Some de \<Rightarrow> dr_impact (de_request de) = Blocking
                            \<and> recipient \<in> set (dr_affected (de_request de)))
       (sort (d_pending (x_decisions s)))"

section \<open>Digests that bind an admission\<close>

fun kind_name :: "run_kind \<Rightarrow> string" where
  "kind_name Lead = ''lead''"
| "kind_name Specialist = ''specialist''"

fun terminal_name :: "terminal_status \<Rightarrow> string" where
  "terminal_name T_succeeded = ''succeeded''"
| "terminal_name T_failed = ''failed''"
| "terminal_name T_blocked = ''blocked''"
| "terminal_name T_abandoned = ''abandoned''"
| "terminal_name T_indeterminate = ''indeterminate''"

definition optional_field :: "string \<Rightarrow> string option \<Rightarrow> (string \<times> json) list" where
  "optional_field k v = (case v of None \<Rightarrow> [] | Some x \<Rightarrow> [(k, JStr x)])"

text \<open>\<open>_admission_request_binding\<close>: what \<open>request_digest\<close> commits to.\<close>

definition request_binding :: "'a admission_request_scheme \<Rightarrow> json" where
  "request_binding a = JObj
     ([(''request_key'', JStr (a_request_key a)),
       (''run_kind'', JStr (kind_name (a_run_kind a))),
       (''recipient_instance'', JStr (a_recipient a)),
       (''capability'', JStr (a_capability a)),
       (''parent_admission_id'', jopt (a_parent a)),
       (''parent_run_id'', jopt (a_parent_run a)),
       (''delegated_budget'', JInt (a_budget a)),
       (''writer'', JBool (a_writer a))]
      @ optional_field ''effect_sha256'' (a_effect a)
      @ optional_field ''task_sha256'' (a_task a))"

text \<open>One admission of a batch as the ledger stores it; \<open>batch_sha256\<close> covers the list.\<close>

definition admission_json :: "'a admission_request_scheme \<Rightarrow> json" where
  "admission_json a = JObj
     (obj_items (request_binding a)
      @ [(''admission_id'', JStr (a_id a)),
         (''delegation_id'', jopt (a_delegation_id a)),
         (''run_id'', JStr (a_run_id a)),
         (''request_digest'', JStr (a_request_digest a)),
         (''credit_cost'', JInt (a_cost a)),
         (''global_credit_debit'', JInt (a_global_debit a)),
         (''parent_credit_debit'', JInt (a_parent_debit a))])"

definition batch_digest :: "prims \<Rightarrow> admission_request list \<Rightarrow> string" where
  "batch_digest E as = sha256 E (JArr (map admission_json as))"

definition admission_uuid :: "prims \<Rightarrow> string \<Rightarrow> run_kind \<Rightarrow> string \<Rightarrow> string" where
  "admission_uuid E mission kind key = uuid5 E mission (''admission:'' @ kind_name kind @ '':'' @ key)"

definition run_uuid :: "prims \<Rightarrow> string \<Rightarrow> run_kind \<Rightarrow> string \<Rightarrow> string" where
  "run_uuid E mission kind key = uuid5 E mission (''run:'' @ kind_name kind @ '':'' @ key)"

definition delegation_uuid :: "prims \<Rightarrow> string \<Rightarrow> run_kind \<Rightarrow> string \<Rightarrow> string option" where
  "delegation_uuid E mission kind key =
     (case kind of Lead \<Rightarrow> None | Specialist \<Rightarrow> Some (uuid5 E mission (''delegation:'' @ key)))"

definition commit_uuid :: "prims \<Rightarrow> string \<Rightarrow> string \<Rightarrow> string" where
  "commit_uuid E mission admission = uuid5 E mission (''commit:'' @ admission)"

end
