(* ===== verification/Reserve.thy ===== *)
theory Reserve
  imports Admission
begin

text \<open>
  The reservation of a batch of admissions (\<open>_reserve_admissions\<close> of
  scripts/fleet_mission_state.py), loop by loop: identities and occupancy, batch limits,
  credit accounting, parent cycles, and the update of the mission.
\<close>

section \<open>Identities, digests and occupancy\<close>

definition check_admission ::
  "prims \<Rightarrow> mission \<Rightarrow> admission_request dict \<Rightarrow> admission_request \<Rightarrow> unit result" where
  "check_admission E s prospective a =
     (let t = x_admissions s; mid = x_id s; kind = a_run_kind a; key = a_request_key a in
      if a_id a \<noteq> admission_uuid E mid kind key \<or> a_run_id a \<noteq> run_uuid E mid kind key
        then Inl MissionStateError
      else if a_delegation_id a \<noteq> delegation_uuid E mid kind key then Inl MissionStateError
      else if a_request_digest a \<noteq> sha256 E (request_binding a) then Inl MissionStateError
      else if dhas (s_admissions t) (a_id a) \<or> dhas prospective (a_id a) then Inl MissionConflict
      else if dhas (s_run_claims t) (a_run_id a) \<or> dhas (s_run_owners t) (a_run_id a)
        then Inl MissionConflict
      else if kind = Specialist \<and> blocking_decisions s (a_recipient a) \<noteq> []
        then Inl MissionConflict
      else if dhas (s_recipients t) (a_recipient a) then Inl MissionConflict
      else if a_writer a \<and> s_writer t \<noteq> None then Inl MissionConflict
      else Inr ())"

fun check_admissions ::
  "prims \<Rightarrow> mission \<Rightarrow> admission_request dict \<Rightarrow> admission_request list
   \<Rightarrow> admission_request dict result" where
  "check_admissions E s prospective [] = Inr prospective"
| "check_admissions E s prospective (a # as) =
     (case check_admission E s prospective a of
        Inl e \<Rightarrow> Inl e
      | Inr _ \<Rightarrow> check_admissions E s (dput (a_id a) a prospective) as)"

section \<open>Limits of a batch\<close>

definition specialists :: "admission_request list \<Rightarrow> int" where
  "specialists as = int (length (filter (\<lambda>a. a_run_kind a = Specialist) as))"

definition check_limits :: "admission_state \<Rightarrow> admission_policy \<Rightarrow> admission_request list \<Rightarrow> unit result" where
  "check_limits t po as =
     (let leads = filter (\<lambda>a. a_run_kind a = Lead) as in
      if length (filter a_writer as) > 1 then Inl MissionConflict
      else if length leads > 1
          \<or> (leads \<noteq> [] \<and> (s_lead_admission t \<noteq> None \<or> s_lead_run t \<noteq> None))
        then Inl MissionConflict
      else if s_active t + specialists as > po_max_active po then Inl MissionConflict
      else Inr ())"

section \<open>Credits\<close>

text \<open>
  The parent of an admission: another admission of the batch, or a stored one.
  \<open>dict.get(None)\<close> finds nothing.
\<close>

datatype parent = In_batch admission_request | Stored admission

definition find_parent ::
  "admission_request dict \<Rightarrow> admission dict \<Rightarrow> string option \<Rightarrow> parent option" where
  "find_parent prospective stored pid =
     (case pid of
        None \<Rightarrow> None
      | Some k \<Rightarrow>
          (case dget prospective k of
             Some a \<Rightarrow> Some (In_batch a)
           | None \<Rightarrow> map_option Stored (dget stored k)))"

fun parent_kind :: "parent \<Rightarrow> run_kind" where
  "parent_kind (In_batch a) = a_run_kind a"
| "parent_kind (Stored a) = a_run_kind a"

fun parent_run :: "parent \<Rightarrow> string" where
  "parent_run (In_batch a) = a_run_id a"
| "parent_run (Stored a) = a_run_id a"

fun parent_budget :: "parent \<Rightarrow> int" where
  "parent_budget (In_batch a) = a_budget a"
| "parent_budget (Stored a) = a_budget a"

fun parent_spent :: "parent \<Rightarrow> int" where
  "parent_spent (In_batch a) = 0"
| "parent_spent (Stored a) = a_child_spent a"

definition active_phase :: "phase \<Rightarrow> bool" where
  "active_phase p \<longleftrightarrow> p \<in> {Reserved, Committed, Authorized, Started}"

fun wrong_lane :: "string \<Rightarrow> parent \<Rightarrow> bool" where
  "wrong_lane lane (In_batch a) = False"
| "wrong_lane lane (Stored a) = (a_lane a \<noteq> lane)"

fun idle_parent :: "parent \<Rightarrow> bool" where
  "idle_parent (In_batch a) = False"
| "idle_parent (Stored a) = (\<not> active_phase (a_phase a) \<or> \<not> a_active a)"

text \<open>The checks on a present parent that both branches of the debit loop make, in order.\<close>

definition check_parent :: "admission_state \<Rightarrow> string \<Rightarrow> parent \<Rightarrow> admission_request \<Rightarrow> unit result" where
  "check_parent t lane p a =
     (if wrong_lane lane p then Inl MissionConflict
      else if idle_parent p then Inl MissionConflict
      else if dhas (s_cancelled t) (parent_run p) then Inl MissionConflict
      else if a_parent_run a \<noteq> Some (parent_run p) then Inl MissionStateError
      else Inr ())"

text \<open>
  What one admission debits: nothing for a Lead, the budget of its parent for the child of a
  specialist, the pool of the mission for every other specialist.
\<close>

datatype debit = No_debit | Parent_debit string int | Global_debit int

definition debit_lead :: "admission_request \<Rightarrow> debit result" where
  "debit_lead a =
     (if a_parent a \<noteq> None \<or> a_parent_run a \<noteq> None \<or> a_budget a \<noteq> 0 \<or> a_cost a \<noteq> 0
        \<or> a_global_debit a \<noteq> 0 \<or> a_parent_debit a \<noteq> 0
      then Inl MissionStateError else Inr No_debit)"

definition debit_child ::
  "admission_state \<Rightarrow> string \<Rightarrow> string \<Rightarrow> parent \<Rightarrow> admission_request \<Rightarrow> debit result" where
  "debit_child t lane pid p a =
     (case check_parent t lane p a of
        Inl e \<Rightarrow> Inl e
      | Inr _ \<Rightarrow>
          if a_global_debit a \<noteq> 0 \<or> a_parent_debit a \<noteq> a_cost a then Inl MissionStateError
          else Inr (Parent_debit pid (a_cost a)))"

definition check_root ::
  "admission_state \<Rightarrow> string \<Rightarrow> parent option \<Rightarrow> admission_request \<Rightarrow> unit result" where
  "check_root t lane p a =
     (if a_parent a \<noteq> None then
        (case p of
           None \<Rightarrow> Inl MissionStateError
         | Some q \<Rightarrow> if parent_kind q \<noteq> Lead then Inl MissionStateError else check_parent t lane q a)
      else if lane = ''ASSURED'' then require (a_parent_run a = None) MissionStateError
      else if s_lead_run t = None then require (a_parent_run a = None) MissionStateError
      else require (a_parent_run a = s_lead_run t) MissionStateError)"

definition debit_root ::
  "admission_state \<Rightarrow> string \<Rightarrow> parent option \<Rightarrow> admission_request \<Rightarrow> debit result" where
  "debit_root t lane p a =
     (case check_root t lane p a of
        Inl e \<Rightarrow> Inl e
      | Inr _ \<Rightarrow>
          if a_global_debit a \<noteq> a_cost a \<or> a_parent_debit a \<noteq> 0 then Inl MissionStateError
          else Inr (Global_debit (a_cost a)))"

definition debit_of ::
  "admission_state \<Rightarrow> string \<Rightarrow> admission_request dict \<Rightarrow> admission_request \<Rightarrow> debit result" where
  "debit_of t lane prospective a =
     (if a_run_kind a = Lead then debit_lead a
      else if a_cost a \<noteq> 1 + a_budget a then Inl MissionStateError
      else
        (let p = find_parent prospective (s_admissions t) (a_parent a) in
         case p of
           Some q \<Rightarrow>
             if parent_kind q = Specialist then debit_child t lane (the (a_parent a)) q a
             else debit_root t lane p a
         | None \<Rightarrow> debit_root t lane p a))"

definition dget0 :: "int dict \<Rightarrow> string \<Rightarrow> int" where
  "dget0 d k = (case dget d k of None \<Rightarrow> 0 | Some i \<Rightarrow> i)"

fun add_debit :: "debit \<Rightarrow> int \<times> int dict \<Rightarrow> int \<times> int dict" where
  "add_debit No_debit (g, ps) = (g, ps)"
| "add_debit (Parent_debit pid c) (g, ps) = (g, dput pid (dget0 ps pid + c) ps)"
| "add_debit (Global_debit c) (g, ps) = (g + c, ps)"

fun debits ::
  "admission_state \<Rightarrow> string \<Rightarrow> admission_request dict \<Rightarrow> admission_request list
   \<Rightarrow> int \<times> int dict \<Rightarrow> (int \<times> int dict) result" where
  "debits t lane prospective [] acc = Inr acc"
| "debits t lane prospective (a # as) acc =
     (case debit_of t lane prospective a of
        Inl e \<Rightarrow> Inl e
      | Inr d \<Rightarrow> debits t lane prospective as (add_debit d acc))"

text \<open>Every debited parent stays within its delegated budget.\<close>

definition within_budget :: "admission_state \<Rightarrow> admission_request dict \<Rightarrow> string \<times> int \<Rightarrow> bool" where
  "within_budget t prospective kd =
     (case find_parent prospective (s_admissions t) (Some (fst kd)) of
        None \<Rightarrow> False
      | Some p \<Rightarrow> parent_spent p + snd kd \<le> parent_budget p)"

section \<open>Parent cycles\<close>

text \<open>
  The walk from an admission to its parents inside the batch; True when it comes back to an
  admission it has seen.
\<close>

function parent_cycle :: "admission_request dict \<Rightarrow> string option \<Rightarrow> string list \<Rightarrow> bool" where
  "parent_cycle prospective pid seen =
     (case pid of
        None \<Rightarrow> False
      | Some k \<Rightarrow>
          (case dget prospective k of
             None \<Rightarrow> False
           | Some a \<Rightarrow>
               if k \<in> set seen then True
               else parent_cycle prospective (a_parent a) (k # seen)))"
  by pat_completeness auto
termination
proof (relation "measure (\<lambda>(ps, pid, seen). card (set (dkeys ps) - set seen))", goal_cases)
  case 1
  show ?case by simp
next
  case (2 ps pid seen k a)
  from 2(2) have "(k, a) \<in> set (ditems ps)"
    by (simp add: dict.items_get)
  then have "k \<in> set (dkeys ps)" by force
  with 2(3) have "card (set (dkeys ps) - set (k # seen)) < card (set (dkeys ps) - set seen)"
    by (intro psubset_card_mono) auto
  then show ?case by simp
qed

declare parent_cycle.simps [simp del]

section \<open>Storing the batch\<close>

definition stored_admission :: "string \<Rightarrow> string \<Rightarrow> int dict \<Rightarrow> admission_request \<Rightarrow> admission" where
  "stored_admission lane ev ps a =
     admission_request.extend a
       (admission.fields lane Reserved True (dget0 ps (a_id a)) ev None None None None None)"

definition store_admission ::
  "string \<Rightarrow> string \<Rightarrow> int dict \<Rightarrow> admission_request \<Rightarrow> admission_state \<Rightarrow> admission_state" where
  "store_admission lane ev ps a t =
     t\<lparr>s_admissions := dput (a_id a) (stored_admission lane ev ps a) (s_admissions t),
       s_run_claims := dput (a_run_id a) (a_id a) (s_run_claims t),
       s_recipients := dput (a_recipient a) (a_id a) (s_recipients t),
       s_writer := (if a_writer a then Some (a_id a) else s_writer t),
       s_active := (if a_run_kind a = Specialist then s_active t + 1 else s_active t),
       s_lead_admission := (if a_run_kind a = Specialist then s_lead_admission t else Some (a_id a))\<rparr>"

fun store_admissions ::
  "string \<Rightarrow> string \<Rightarrow> int dict \<Rightarrow> admission_request list \<Rightarrow> admission_state \<Rightarrow> admission_state" where
  "store_admissions lane ev ps [] t = t"
| "store_admissions lane ev ps (a # as) t = store_admissions lane ev ps as (store_admission lane ev ps a t)"

text \<open>\<open>parent["child_credits_spent"] += debit\<close> for every parent that was stored before.\<close>

fun charge_parents :: "(string \<times> int) list \<Rightarrow> admission dict \<Rightarrow> admission dict" where
  "charge_parents [] d = d"
| "charge_parents ((k, c) # kcs) d =
     charge_parents kcs
       (case dget d k of None \<Rightarrow> d | Some p \<Rightarrow> dput k (p\<lparr>a_child_spent := a_child_spent p + c\<rparr>) d)"

definition commit_batch ::
  "string \<Rightarrow> string \<Rightarrow> admission_policy \<Rightarrow> reserved_payload \<Rightarrow> int \<Rightarrow> int dict
   \<Rightarrow> admission_state \<Rightarrow> admission_state" where
  "commit_batch lane ev po p g ps t =
     (let spent = s_spent t + g;
          t1 = t\<lparr>s_spent := spent, s_remaining := Some (po_credits po - spent),
                 s_admissions := charge_parents (ditems ps) (s_admissions t)\<rparr>;
          t2 = store_admissions lane ev ps (rv_admissions p) t1 in
      t2\<lparr>s_batches := dput (rv_batch_id p)
           \<lparr>b_sha = rv_batch_sha p, b_admissions = map a_id (rv_admissions p), b_event = ev\<rparr>
           (s_batches t2)\<rparr>)"

definition reserve_admissions :: "prims \<Rightarrow> mission \<Rightarrow> meta \<Rightarrow> reserved_payload \<Rightarrow> admission_state result" where
  "reserve_admissions E s m p =
     (case require_lane E s m of
        Inl e \<Rightarrow> Inl e
      | Inr lane \<Rightarrow>
     (case require_deadline E s m of
        Inl e \<Rightarrow> Inl e
      | Inr po \<Rightarrow>
     (let t = x_admissions s; as = rv_admissions p in
      if cr_scope_contract (x_created s) \<noteq> None \<and> h_scope_baseline (x_herdr s) = None
        then Inl MissionConflict
      else if rv_batch_sha p \<noteq> batch_digest E as then Inl MissionStateError
      else if dhas (s_batches t) (rv_batch_id p) then Inl MissionConflict
      else
     (case check_admissions E s dempty as of
        Inl e \<Rightarrow> Inl e
      | Inr prospective \<Rightarrow>
     (case check_limits t po as of
        Inl e \<Rightarrow> Inl e
      | Inr _ \<Rightarrow>
     (case debits t lane prospective as (0, dempty) of
        Inl e \<Rightarrow> Inl e
      | Inr (g, ps) \<Rightarrow>
          if s_spent t + g > po_credits po then Inl MissionConflict
          else if \<not> list_all (within_budget t prospective) (ditems ps) then Inl MissionConflict
          else if list_ex (\<lambda>a. parent_cycle prospective (a_parent a) []) as then Inl MissionStateError
          else Inr (commit_batch lane (m_sha m) po p g ps t)))))))"

end
