(* ===== verification/Admission_Steps.thy ===== *)
theory Admission_Steps
  imports Reserve
begin

text \<open>
  The life of one admission after its reservation: commit, launch authorization, start,
  finalization and prelaunch abort, and the admission events of the reducer.
\<close>

section \<open>Shared checks and updates\<close>

text \<open>A parent, where there is one, must be started, active and not cancelled.\<close>

definition parent_running :: "admission_state \<Rightarrow> admission \<Rightarrow> bool" where
  "parent_running t a =
     (case a_parent a of
        None \<Rightarrow> True
      | Some k \<Rightarrow>
          (case dget (s_admissions t) k of
             None \<Rightarrow> False
           | Some p \<Rightarrow> a_phase p = Started \<and> a_active p \<and> \<not> dhas (s_cancelled t) (a_run_id p)))"

definition has_active_child :: "admission_state \<Rightarrow> string \<Rightarrow> bool" where
  "has_active_child t k \<longleftrightarrow>
     list_ex (\<lambda>c. a_active c \<and> a_parent c = Some k) (dvals (s_admissions t))"

text \<open>\<open>_release_admission\<close>: the stored admission, no longer active, and the freed slots.\<close>

definition release_admission :: "admission \<Rightarrow> admission_state \<Rightarrow> admission_state" where
  "release_admission a t =
     (if \<not> a_active a then t\<lparr>s_admissions := dput (a_id a) a (s_admissions t)\<rparr>
      else t\<lparr>s_admissions := dput (a_id a) (a\<lparr>a_active := False\<rparr>) (s_admissions t),
             s_active := (if a_run_kind a = Specialist then s_active t - 1 else s_active t),
             s_recipients := (if dget (s_recipients t) (a_recipient a) = Some (a_id a)
                              then ddel (a_recipient a) (s_recipients t) else s_recipients t),
             s_writer := (if s_writer t = Some (a_id a) then None else s_writer t)\<rparr>)"

section \<open>Commit\<close>

definition commit_bound :: "admission \<Rightarrow> committed_payload \<Rightarrow> bool" where
  "commit_bound a p \<longleftrightarrow>
     cm_reservation_event p = a_reservation_event a \<and> cm_request_digest p = a_request_digest a
     \<and> cm_recipient p = a_recipient a \<and> cm_writer p = a_writer a \<and> cm_run_id p = a_run_id a
     \<and> cm_effect p = a_effect a"

definition reduce_committed :: "prims \<Rightarrow> mission \<Rightarrow> meta \<Rightarrow> committed_payload \<Rightarrow> admission_state result" where
  "reduce_committed E s m p =
     (case require_lane E s m of
        Inl e \<Rightarrow> Inl e
      | Inr _ \<Rightarrow>
     (case require_deadline E s m of
        Inl e \<Rightarrow> Inl e
      | Inr _ \<Rightarrow>
     (let t = x_admissions s in
      case dget (s_admissions t) (cm_admission p) of
        None \<Rightarrow> Inl MissionConflict
      | Some a \<Rightarrow>
          if a_phase a \<noteq> Reserved then Inl MissionConflict
          else if a_lane a \<noteq> m_actor m then Inl MissionConflict
          else if cm_commit_id p \<noteq> commit_uuid E (x_id s) (a_id a) then Inl MissionStateError
          else if \<not> commit_bound a p then Inl MissionConflict
          else if dget (s_run_claims t) (a_run_id a) \<noteq> Some (a_id a) then Inl MissionConflict
          else if dhas (s_run_owners t) (a_run_id a) then Inl MissionConflict
          else if \<not> parent_running t a then Inl MissionConflict
          else Inr (t\<lparr>s_run_claims := ddel (a_run_id a) (s_run_claims t),
                      s_run_owners := dput (a_run_id a) (By_admission (a_id a)) (s_run_owners t),
                      s_admissions := dput (a_id a)
                        (a\<lparr>a_phase := Committed, a_commit := Some (p, m_sha m)\<rparr>) (s_admissions t)\<rparr>))))"

section \<open>Launch authorization\<close>

definition launch_bound :: "admission \<Rightarrow> authorized_payload \<Rightarrow> bool" where
  "launch_bound a p \<longleftrightarrow>
     (case a_commit a of None \<Rightarrow> False | Some (_, ev) \<Rightarrow> la_commit_event p = ev)
     \<and> la_request_digest p = a_request_digest a \<and> Some (la_effect p) = a_effect a
     \<and> la_recipient p = a_recipient a \<and> la_writer p = a_writer a \<and> la_run_id p = a_run_id a"

definition reduce_authorized :: "prims \<Rightarrow> mission \<Rightarrow> meta \<Rightarrow> authorized_payload \<Rightarrow> admission_state result" where
  "reduce_authorized E s m p =
     (case require_launch_lane E s m of
        Inl e \<Rightarrow> Inl e
      | Inr expected \<Rightarrow>
     (case require_deadline E s m of
        Inl e \<Rightarrow> Inl e
      | Inr _ \<Rightarrow>
     (let t = x_admissions s in
      case dget (s_admissions t) (la_admission p) of
        None \<Rightarrow> Inl MissionConflict
      | Some a \<Rightarrow>
          if a_phase a \<noteq> Committed \<or> \<not> a_active a \<or> a_result a \<noteq> None then Inl MissionConflict
          else if a_lane a \<noteq> m_actor m then Inl MissionConflict
          else if dhas (s_cancelled t) (a_run_id a) then Inl MissionConflict
          else if a_effect a = None then Inl MissionConflict
          else if \<not> launch_bound a p then Inl MissionConflict
          else if la_approval p \<noteq> None \<and> la_approval p \<noteq> Some expected then Inl MissionConflict
          else if \<not> parent_running t a then Inl MissionConflict
          else Inr (t\<lparr>s_admissions := dput (a_id a)
                        (a\<lparr>a_phase := Authorized, a_launch := Some (p, m_sha m, m_previous m)\<rparr>)
                        (s_admissions t)\<rparr>))))"

section \<open>Start\<close>

definition start_bound :: "admission \<Rightarrow> started_payload \<Rightarrow> bool" where
  "start_bound a p \<longleftrightarrow>
     st_request_digest p = a_request_digest a \<and> st_recipient p = a_recipient a
     \<and> st_writer p = a_writer a \<and> st_run_id p = a_run_id a"

definition start_admission :: "admission \<Rightarrow> meta \<Rightarrow> admission_state \<Rightarrow> admission_state" where
  "start_admission a m t =
     t\<lparr>s_admissions := dput (a_id a)
         (a\<lparr>a_phase := Started, a_started_event := Some (m_sha m)\<rparr>) (s_admissions t)\<rparr>"

definition reduce_current_start ::
  "meta \<Rightarrow> admission_state \<Rightarrow> started_payload \<Rightarrow> string \<Rightarrow> string \<Rightarrow> admission_state result" where
  "reduce_current_start m t p auth effect =
     (case dget (s_admissions t) (st_admission p) of
        None \<Rightarrow> Inl MissionConflict
      | Some a \<Rightarrow>
          if a_phase a \<noteq> Authorized \<or> \<not> a_active a \<or> a_result a \<noteq> None then Inl MissionConflict
          else if a_lane a \<noteq> m_actor m then Inl MissionConflict
          else if (case a_launch a of None \<Rightarrow> True | Some (_, ev, _) \<Rightarrow> auth \<noteq> ev)
              \<or> Some effect \<noteq> a_effect a \<or> \<not> start_bound a p
            then Inl MissionConflict
          else Inr (start_admission a m t))"

definition reduce_legacy_start ::
  "prims \<Rightarrow> mission \<Rightarrow> meta \<Rightarrow> started_payload \<Rightarrow> string \<Rightarrow> string \<Rightarrow> admission_state result" where
  "reduce_legacy_start E s m p commit_event head =
     (let t = x_admissions s in
      case dget (s_admissions t) (st_admission p) of
        None \<Rightarrow> Inl MissionConflict
      | Some a \<Rightarrow>
          if a_phase a \<noteq> Committed \<or> \<not> a_active a \<or> a_result a \<noteq> None then Inl MissionConflict
          else if a_lane a \<noteq> m_actor m then Inl MissionConflict
          else
         (case require_deadline E s m of
            Inl e \<Rightarrow> Inl e
          | Inr _ \<Rightarrow>
              if a_effect a \<noteq> None then Inl MissionConflict
              else
             (case a_commit a of
                None \<Rightarrow> Inl TypeError
              | Some (_, ev) \<Rightarrow>
                  if commit_event \<noteq> ev \<or> head \<noteq> m_previous m \<or> \<not> start_bound a p
                    then Inl MissionConflict
                  else if \<not> parent_running t a then Inl MissionConflict
                  else Inr (start_admission a m t))))"

definition reduce_started :: "prims \<Rightarrow> mission \<Rightarrow> meta \<Rightarrow> started_payload \<Rightarrow> admission_state result" where
  "reduce_started E s m p =
     (case st_proof p of
        Current_start auth effect \<Rightarrow> reduce_current_start m (x_admissions s) p auth effect
      | Legacy_start commit_event head \<Rightarrow> reduce_legacy_start E s m p commit_event head)"

section \<open>Finalization\<close>

definition evidence_json :: "terminal_evidence \<Rightarrow> json" where
  "evidence_json e = JObj
     [(''schema_version'', JInt 1), (''source_event_sha256'', JStr (te_source_event e)),
      (''run_id'', JStr (te_run_id e)), (''task_sha256'', JStr (te_task e)),
      (''status'', JStr (terminal_name (te_status e)))]"

text \<open>The digest of the terminal binding that carries structured evidence.\<close>

definition evidence_digest :: "prims \<Rightarrow> string \<Rightarrow> string \<Rightarrow> string \<Rightarrow> bool \<Rightarrow> terminal_evidence \<Rightarrow> string" where
  "evidence_digest E mid aid recipient writer e = sha256 E (JObj
     [(''mission_id'', JStr mid), (''admission_id'', JStr aid),
      (''recipient_instance'', JStr recipient), (''writer'', JBool writer),
      (''terminal_evidence'', evidence_json e)])"

definition source_digest :: "prims \<Rightarrow> string \<Rightarrow> admission \<Rightarrow> terminal_status \<Rightarrow> string \<Rightarrow> string" where
  "source_digest E mid a st src = sha256 E (JObj
     [(''mission_id'', JStr mid), (''admission_id'', JStr (a_id a)),
      (''run_id'', JStr (a_run_id a)), (''recipient_instance'', JStr (a_recipient a)),
      (''writer'', JBool (a_writer a)), (''status'', JStr (terminal_name st)),
      (''terminal_source_sha256'', JStr src)])"

definition final_bound :: "prims \<Rightarrow> string \<Rightarrow> admission \<Rightarrow> terminal_status \<Rightarrow> final_binding \<Rightarrow> bool" where
  "final_bound E mid a st b \<longleftrightarrow>
     fb_run_id b = a_run_id a \<and> fb_recipient b = a_recipient a \<and> fb_writer b = a_writer a
     \<and> (case fb_source b of
          None \<Rightarrow> True
        | Some src \<Rightarrow> fb_evidence_sha b = source_digest E mid a st src)
     \<and> (case fb_evidence b of
          None \<Rightarrow> True
        | Some e \<Rightarrow> te_run_id e = a_run_id a \<and> Some (te_task e) = a_task a \<and> te_status e = st
            \<and> fb_evidence_sha b = evidence_digest E mid (a_id a) (a_recipient a) (a_writer a) e)"

definition reduce_finalized :: "prims \<Rightarrow> mission \<Rightarrow> meta \<Rightarrow> finalized_payload \<Rightarrow> admission_state result" where
  "reduce_finalized E s m p =
     (let t = x_admissions s in
      case dget (s_admissions t) (fi_admission p) of
        None \<Rightarrow> Inl MissionConflict
      | Some a \<Rightarrow>
          if a_phase a \<notin> {Committed, Authorized, Started} then Inl MissionConflict
          else if a_lane a \<noteq> m_actor m then Inl MissionConflict
          else if a_effect a \<noteq> None \<and> fi_binding p = None then Inl MissionConflict
          else if (case fi_binding p of None \<Rightarrow> False | Some b \<Rightarrow> \<not> final_bound E (x_id s) a (fi_status p) b)
            then Inl MissionConflict
          else if has_active_child t (a_id a) then Inl MissionConflict
          else Inr (release_admission
                 (a\<lparr>a_phase := Finalized, a_terminal := Some (Inl p, m_sha m)\<rparr>) t))"

section \<open>Prelaunch abort\<close>

definition abort_bound :: "admission \<Rightarrow> abort_binding \<Rightarrow> bool" where
  "abort_bound a b \<longleftrightarrow>
     ab_run_id b = a_run_id a \<and> ab_request_digest b = a_request_digest a
     \<and> Some (ab_effect b) = a_effect a \<and> Some (ab_task b) = a_task a
     \<and> ab_recipient b = a_recipient a \<and> ab_writer b = a_writer a"

definition reduce_aborted :: "mission \<Rightarrow> meta \<Rightarrow> aborted_payload \<Rightarrow> admission_state result" where
  "reduce_aborted s m p =
     (let t = x_admissions s in
      case dget (s_admissions t) (ab_admission p) of
        None \<Rightarrow> Inl MissionConflict
      | Some a \<Rightarrow>
          if a_phase a \<notin> {Reserved, Committed} then Inl MissionConflict
          else if a_lane a \<noteq> m_actor m then Inl MissionConflict
          else if a_task a \<noteq> None \<and> ab_binding p = None then Inl MissionConflict
          else if (case ab_binding p of None \<Rightarrow> False | Some b \<Rightarrow> \<not> abort_bound a b)
            then Inl MissionConflict
          else if has_active_child t (a_id a) then Inl MissionConflict
          else
            (let a' = a\<lparr>a_phase := Aborted, a_terminal := Some (Inr p, m_sha m)\<rparr>;
                 t' = (if a_commit a = None
                       then t\<lparr>s_run_claims := ddel (a_run_id a) (s_run_claims t)\<rparr>
                       else if dget (s_run_owners t) (a_run_id a) = Some (By_admission (a_id a))
                       then t\<lparr>s_run_owners := ddel (a_run_id a) (s_run_owners t)\<rparr>
                       else t) in
             Inr (release_admission a' t')))"

section \<open>The admission policy\<close>

definition reduce_policy :: "mission \<Rightarrow> meta \<Rightarrow> admission_policy \<Rightarrow> admission_state result" where
  "reduce_policy s m po =
     (let t = x_admissions s in
      if s_policy t \<noteq> None then Inl MissionConflict
      else if po_workflow_digest po \<noteq> x_workflow_digest s then Inl MissionStateError
      else if Some (po_compiled_digest po) \<noteq> x_compiled s then Inl MissionStateError
      else Inr (t\<lparr>s_policy := Some (po, m_sha m), s_remaining := Some (po_credits po)\<rparr>))"

fun reduce_admission :: "prims \<Rightarrow> mission \<Rightarrow> meta \<Rightarrow> admission_event \<Rightarrow> admission_state result" where
  "reduce_admission E s m (Policy_frozen po) = reduce_policy s m po"
| "reduce_admission E s m Budget_allocated =
     (if s_policy (x_admissions s) \<noteq> None then Inl MissionConflict else Inr (x_admissions s))"
| "reduce_admission E s m (Delegations_reserved p) = reserve_admissions E s m p"
| "reduce_admission E s m (Delegation_committed p) = reduce_committed E s m p"
| "reduce_admission E s m (Launch_authorized p) = reduce_authorized E s m p"
| "reduce_admission E s m (Delegation_started p) = reduce_started E s m p"
| "reduce_admission E s m (Delegation_finalized p) = reduce_finalized E s m p"
| "reduce_admission E s m (Reservation_aborted p) = reduce_aborted s m p"

end
