(* ===== verification/Runs.thy ===== *)
theory Runs
  imports Admission_Steps
begin

text \<open>
  Lead dispatch, delegation registration, results and cancellation
  (scripts/fleet_mission_state.py): who owns a run, and which result is the first.
\<close>

section \<open>Reading an owner\<close>

fun owning_admission :: "admission_state \<Rightarrow> owner \<Rightarrow> admission option" where
  "owning_admission t (By_admission k) = dget (s_admissions t) k"
| "owning_admission t Legacy_lead = dget (s_admissions t) ''lead''"
| "owning_admission t (Legacy_delegation d) = dget (s_admissions t) d"

definition record_result :: "string \<Rightarrow> admission \<Rightarrow> run_result \<Rightarrow> meta \<Rightarrow> admission_state \<Rightarrow> admission_state" where
  "record_result k a r m t =
     t\<lparr>s_admissions := dput k (a\<lparr>a_result := Some (r, m_sha m)\<rparr>) (s_admissions t)\<rparr>"

section \<open>The Lead\<close>

definition reduce_lead_dispatched :: "mission \<Rightarrow> string \<Rightarrow> admission_state result" where
  "reduce_lead_dispatched s payload_run =
     (case normalize_uuid payload_run of
        Inl e \<Rightarrow> Inl e
      | Inr r \<Rightarrow>
     (let t = x_admissions s in
      if s_lead_run t \<noteq> None then Inl MissionStateError
      else if dhas (s_run_claims t) r then Inl MissionConflict
      else
        (case dget (s_run_owners t) r of
           None \<Rightarrow>
             if s_policy t \<noteq> None then Inl MissionConflict
             else Inr (t\<lparr>s_run_owners := dput r Legacy_lead (s_run_owners t), s_lead_run := Some r\<rparr>)
         | Some own \<Rightarrow>
             (case owning_admission t own of
                None \<Rightarrow> Inl MissionConflict
              | Some a \<Rightarrow>
                  if a_run_kind a \<noteq> Lead \<or> a_phase a \<noteq> Started \<or> a_terminal a \<noteq> None
                    then Inl MissionConflict
                  else Inr (t\<lparr>s_lead_run := Some r\<rparr>)))))"

text \<open>The result of a run that an admission owns is stored on that admission, before its terminal.\<close>

definition attach_result :: "admission_state \<Rightarrow> meta \<Rightarrow> run_result \<Rightarrow> string \<Rightarrow> admission_state result" where
  "attach_result t m r k =
     (case dget (s_admissions t) k of
        None \<Rightarrow> Inl KeyError
      | Some a \<Rightarrow>
          if a_terminal a \<noteq> None then Inl MissionConflict
          else Inr (record_result k a r m t))"

definition reduce_lead_result :: "mission \<Rightarrow> meta \<Rightarrow> run_result \<Rightarrow> admission_state result" where
  "reduce_lead_result s m r =
     (case normalize_uuid (rr_run_id r) of
        Inl e \<Rightarrow> Inl e
      | Inr run \<Rightarrow>
     (let t = x_admissions s in
      if s_lead_run t \<noteq> Some run then Inl MissionStateError
      else if s_lead_result t \<noteq> None then Inl MissionConflict
      else
        (let t' = t\<lparr>s_lead_result := Some r\<rparr> in
         case dget (s_run_owners t) run of
           Some (By_admission k) \<Rightarrow> attach_result t' m r k
         | _ \<Rightarrow> Inr t')))"

section \<open>Synthesis\<close>

definition synthesis_ready :: "admission \<Rightarrow> bool" where
  "synthesis_ready a \<longleftrightarrow>
     a_run_kind a = Specialist \<and> a_recipient a = ''lead'' \<and> a_capability a = ''synthesis''
     \<and> a_phase a = Started \<and> a_terminal a = None \<and> a_result a = None"

definition reduce_synthesis :: "mission \<Rightarrow> meta \<Rightarrow> string \<Rightarrow> run_result \<Rightarrow> admission_state result" where
  "reduce_synthesis s m k r =
     (let t = x_admissions s in
      if s_synthesis t \<noteq> None then Inl MissionConflict
      else
        (case dget (s_admissions t) k of
           None \<Rightarrow> Inl MissionConflict
         | Some a \<Rightarrow>
             if dget (s_run_owners t) (rr_run_id r) \<noteq> Some (By_admission k) \<or> \<not> synthesis_ready a
               then Inl MissionConflict
             else Inr (record_result k a r m (t\<lparr>s_synthesis := Some (k, r)\<rparr>))))"

section \<open>Delegations\<close>

definition reduce_registered :: "mission \<Rightarrow> registration \<Rightarrow> admission_state result" where
  "reduce_registered s g =
     (let t = x_admissions s; d = rg_delegation g; r = rg_run_id g in
      if rg_mission g \<noteq> x_id s then Inl MissionStateError
      else if dhas (s_delegations t) d then Inl MissionConflict
      else if dhas (s_run_claims t) r then Inl MissionConflict
      else
        (case dget (s_run_owners t) r of
           None \<Rightarrow>
             if s_policy t \<noteq> None then Inl MissionConflict
             else if dhas (s_recipients t) (rg_recipient g) then Inl MissionConflict
             else Inr (t\<lparr>s_run_owners := dput r (Legacy_delegation d) (s_run_owners t),
                         s_recipients := dput (rg_recipient g) d (s_recipients t),
                         s_delegations := dput d g (s_delegations t)\<rparr>)
         | Some own \<Rightarrow>
             (case owning_admission t own of
                None \<Rightarrow> Inl MissionConflict
              | Some a \<Rightarrow>
                  if a_delegation_id a \<noteq> Some d \<or> a_phase a \<noteq> Started \<or> a_terminal a \<noteq> None
                    then Inl MissionConflict
                  else if a_recipient a \<noteq> rg_recipient g then Inl MissionConflict
                  else Inr (t\<lparr>s_delegations := dput d g (s_delegations t)\<rparr>))))"

definition reduce_result :: "mission \<Rightarrow> meta \<Rightarrow> string \<Rightarrow> run_result \<Rightarrow> admission_state result" where
  "reduce_result s m d r =
     (let t = x_admissions s in
      case dget (s_delegations t) d of
        None \<Rightarrow> Inl MissionStateError
      | Some g \<Rightarrow>
          if rr_run_id r \<noteq> rg_run_id g then Inl MissionStateError
          else if dhas (s_results t) d then Inl MissionConflict
          else
            (let t' = t\<lparr>s_results := dput d r (s_results t)\<rparr> in
             case dget (s_run_owners t) (rr_run_id r) of
               Some (By_admission k) \<Rightarrow> attach_result t' m r k
             | _ \<Rightarrow>
                 if dget (s_recipients t) (rg_recipient g) = Some d
                 then Inr (t'\<lparr>s_recipients := ddel (rg_recipient g) (s_recipients t)\<rparr>)
                 else Inr t'))"

section \<open>Completion and cancellation\<close>

definition reduce_completion_request :: "mission \<Rightarrow> meta \<Rightarrow> admission_state result" where
  "reduce_completion_request s m =
     (if m_actor m \<noteq> ''lead'' then Inl MissionStateError
      else if d_pending (x_decisions s) \<noteq> [] then Inl MissionConflict
      else Inr (x_admissions s))"

definition reduce_cancel :: "mission \<Rightarrow> string \<Rightarrow> string \<Rightarrow> admission_state result" where
  "reduce_cancel s r reason =
     (let t = x_admissions s in
      if \<not> dhas (s_run_owners t) r then Inl MissionConflict
      else if dget (s_cancelled t) r \<noteq> None \<and> dget (s_cancelled t) r \<noteq> Some reason
        then Inl MissionConflict
      else Inr (t\<lparr>s_cancelled := dput r reason (s_cancelled t)\<rparr>))"

fun reduce_run :: "mission \<Rightarrow> meta \<Rightarrow> run_event \<Rightarrow> admission_state result" where
  "reduce_run s m (Lead_dispatched r) = reduce_lead_dispatched s r"
| "reduce_run s m (Lead_result_recorded r) = reduce_lead_result s m r"
| "reduce_run s m (Synthesis_recorded k r) = reduce_synthesis s m k r"
| "reduce_run s m (Delegation_registered g) = reduce_registered s g"
| "reduce_run s m (Result_recorded d r) = reduce_result s m d r"
| "reduce_run s m Lead_completion_requested = reduce_completion_request s m"
| "reduce_run s m (Run_cancel_requested r reason) = reduce_cancel s r reason"

end
