(* ===== verification/Decisions.thy ===== *)
theory Decisions
  imports Runs
begin

text \<open>
  Human decisions and their notification outbox (scripts/fleet_mission_state.py): the request
  with attested, independent evidence, its resolution by a human or by the elapsed default,
  and the retry schedule of the notifications.
\<close>

section \<open>Deadlines and retry times\<close>

definition decision_timeout_seconds :: int where
  "decision_timeout_seconds = 2 * 60 * 60"

definition decision_deadline :: "prims \<Rightarrow> string \<Rightarrow> string" where
  "decision_deadline E requested_at =
     format_iso E (instant E requested_at + seconds decision_timeout_seconds)"

definition backoff_seconds :: "int list" where
  "backoff_seconds = [5, 30, 120, 600]"

definition hex_value :: "char \<Rightarrow> int" where
  "hex_value c = (if is_digit c then of_char c - 48 else of_char c - 87)"

text \<open>\<open>int.from_bytes(digest[:4], "big")\<close>, read from the hexadecimal digest.\<close>

definition digest_word :: "string \<Rightarrow> int" where
  "digest_word hexd = foldl (\<lambda>n c. 16 * n + hex_value c) 0 (take 8 hexd)"

definition backoff_base :: "int \<Rightarrow> int" where
  "backoff_base attempt =
     backoff_seconds ! nat (min (attempt - 1) (int (length backoff_seconds) - 1))"

definition retry_seconds :: "prims \<Rightarrow> string \<Rightarrow> int \<Rightarrow> int result" where
  "retry_seconds E decision_id attempt =
     (if \<not> is_uuid decision_id then Inl MissionStateError
      else if attempt < 1 then Inl MissionStateError
      else
        (let base = backoff_base attempt;
             span = max 1 (base div 5);
             digest = hexdigest E (decision_id @ '':'' @ int_text attempt);
             off = digest_word digest mod (2 * span + 1) - span
         in Inr (base + off)))"

definition retry_at :: "prims \<Rightarrow> string \<Rightarrow> string \<Rightarrow> int \<Rightarrow> string result" where
  "retry_at E outcome_at decision_id attempt =
     (case retry_seconds E decision_id attempt of
        Inl e \<Rightarrow> Inl e
      | Inr n \<Rightarrow> Inr (format_iso E (instant E outcome_at + seconds n)))"

section \<open>Requesting a decision\<close>

type_synonym identity = "string \<times> string \<times> string option"

definition evidence_identity :: "admission_state \<Rightarrow> evidence \<Rightarrow> identity result" where
  "evidence_identity t e =
     (case dget (s_results t) (ev_delegation e) of
        None \<Rightarrow> Inl MissionConflict
      | Some r \<Rightarrow>
     (case dget (s_delegations t) (ev_delegation e) of
        None \<Rightarrow> Inl MissionConflict
      | Some g \<Rightarrow>
          if rr_artifact r \<noteq> ev_artifact e \<or> rg_recipient g \<noteq> ev_instance e
             \<or> rr_run_id r \<noteq> rg_run_id g then Inl MissionConflict
          else Inr (rr_provider r, rr_model r, rr_variant r)))"

text \<open>The admission that owns the run of a delegation.\<close>

definition challenge_admission :: "admission_state \<Rightarrow> registration \<Rightarrow> admission option" where
  "challenge_admission t g =
     (case dget (s_run_owners t) (rg_run_id g) of
        Some (By_admission k) \<Rightarrow> dget (s_admissions t) k
      | _ \<Rightarrow> None)"

definition check_challenge :: "admission_state \<Rightarrow> evidence \<Rightarrow> unit result" where
  "check_challenge t e =
     (case dget (s_delegations t) (ev_delegation e) of
        None \<Rightarrow> Inl KeyError
      | Some g \<Rightarrow>
          if rg_capability g \<noteq> ''challenge'' \<and> rg_capability g \<noteq> ''verify'' then Inl MissionConflict
          else
            (case challenge_admission t g of
               None \<Rightarrow> Inl MissionConflict
             | Some a \<Rightarrow> require (\<not> a_writer a) MissionConflict))"

definition decision_uuid :: "prims \<Rightarrow> string \<Rightarrow> string \<Rightarrow> string" where
  "decision_uuid E mission key = uuid5 E mission (''decision:'' @ key)"

definition legacy_outbox :: outbox where
  "legacy_outbox =
     \<lparr>ob_managed = False, ob_status = Ds_legacy, ob_attempts = 0, ob_enqueue = None, ob_next = None,
      ob_active = None, ob_last_attempt = None, ob_last_outcome = None\<rparr>"

definition add_decision :: "prims \<Rightarrow> meta \<Rightarrow> decision_request \<Rightarrow> decision_state \<Rightarrow> decision_state" where
  "add_decision E m q d =
     d\<lparr>d_all := dput (dr_id q)
         \<lparr>de_request = q, de_request_event = m_sha m, de_requested_at = m_time m,
          de_deadline = decision_deadline E (m_time m), de_resolution = None,
          de_delivery = legacy_outbox\<rparr> (d_all d),
       d_pending := d_pending d @ [dr_id q]\<rparr>"

definition reduce_decision_requested ::
  "prims \<Rightarrow> mission \<Rightarrow> meta \<Rightarrow> decision_request \<Rightarrow> decision_state result" where
  "reduce_decision_requested E s m q =
     (let t = x_admissions s; d = x_decisions s in
      if m_actor m \<noteq> ''lead'' then Inl MissionStateError
      else if x_status s \<noteq> Running \<and> x_status s \<noteq> Assured_running then Inl MissionConflict
      else if s_lead_run t = None then Inl MissionConflict
      else if dr_id q \<noteq> decision_uuid E (x_id s) (m_key m) then Inl MissionStateError
      else if dhas (d_all d) (dr_id q) then Inl MissionConflict
      else
     (case evidence_identity t (dr_recommendation q) of
        Inl e \<Rightarrow> Inl e
      | Inr recommender \<Rightarrow>
     (case evidence_identity t (dr_challenge q) of
        Inl e \<Rightarrow> Inl e
      | Inr challenger \<Rightarrow>
     (case check_challenge t (dr_challenge q) of
        Inl e \<Rightarrow> Inl e
      | Inr _ \<Rightarrow>
          if recommender = challenger then Inl MissionConflict
          else if dr_impact q = Blocking
              \<and> list_ex (\<lambda>i. dhas (s_recipients t) i) (dr_affected q) then Inl MissionConflict
          else Inr (add_decision E m q d)))))"

section \<open>Notifications\<close>

definition pending_decision :: "decision_state \<Rightarrow> string \<Rightarrow> decision option" where
  "pending_decision d k = (if k \<in> set (d_pending d) then dget (d_all d) k else None)"

definition set_outbox :: "string \<Rightarrow> decision \<Rightarrow> outbox \<Rightarrow> decision_state \<Rightarrow> decision_state" where
  "set_outbox k de ob d = d\<lparr>d_all := dput k (de\<lparr>de_delivery := ob\<rparr>) (d_all d)\<rparr>"

definition reduce_enqueued :: "mission \<Rightarrow> meta \<Rightarrow> string \<Rightarrow> decision_state result" where
  "reduce_enqueued s m k =
     (let d = x_decisions s in
      if m_actor m \<noteq> ''CONTROL'' then Inl MissionStateError
      else
        (case pending_decision d k of
           None \<Rightarrow> Inl MissionConflict
         | Some de \<Rightarrow>
             if ob_managed (de_delivery de) then Inl MissionConflict
             else Inr (set_outbox k de
                    \<lparr>ob_managed = True, ob_status = Ds_pending, ob_attempts = 0,
                     ob_enqueue = Some (m_sha m), ob_next = Some (m_time m), ob_active = None,
                     ob_last_attempt = None, ob_last_outcome = None\<rparr> d)))"

definition reduce_attempted :: "prims \<Rightarrow> mission \<Rightarrow> meta \<Rightarrow> attempt_payload \<Rightarrow> decision_state result" where
  "reduce_attempted E s m p =
     (let d = x_decisions s; k = at_decision p in
      if m_actor m \<noteq> ''CONTROL'' then Inl MissionStateError
      else
        (case pending_decision d k of
           None \<Rightarrow> Inl MissionConflict
         | Some de \<Rightarrow>
            (let ob = de_delivery de in
             if \<not> ob_managed ob \<or> (ob_status ob \<noteq> Ds_pending \<and> ob_status ob \<noteq> Ds_rejected)
               then Inl MissionConflict
             else if Some (at_enqueue p) \<noteq> ob_enqueue ob then Inl MissionConflict
             else if at_number p \<noteq> ob_attempts ob + 1 then Inl MissionConflict
             else
               (case ob_next ob of
                  None \<Rightarrow> Inl MissionConflict
                | Some due \<Rightarrow>
                    if instant E (m_time m) < instant E due then Inl MissionConflict
                    else Inr (set_outbox k de
                      (ob\<lparr>ob_status := Ds_in_flight, ob_attempts := ob_attempts ob + 1,
                          ob_next := None, ob_active := Some (m_sha m),
                          ob_last_attempt := Some (p, m_time m, m_sha m)\<rparr>) d)))))"

text \<open>The outbox after an outcome: delivered, unknown, to be retried, or closed with its decision.\<close>

definition settle_outbox ::
  "prims \<Rightarrow> meta \<Rightarrow> string \<Rightarrow> bool \<Rightarrow> outcome_payload \<Rightarrow> outbox \<Rightarrow> outbox result" where
  "settle_outbox E m k still_pending p ob =
     (let ob1 = ob\<lparr>ob_active := None, ob_last_outcome := Some (p, m_time m, m_sha m)\<rparr> in
      case oc_outcome p of
        N_accepted \<Rightarrow> Inr (ob1\<lparr>ob_status := Ds_accepted, ob_next := None\<rparr>)
      | N_indeterminate \<Rightarrow> Inr (ob1\<lparr>ob_status := Ds_indeterminate, ob_next := None\<rparr>)
      | N_rejected \<Rightarrow>
          if still_pending then
            (case retry_at E (m_time m) k (ob_attempts ob) of
               Inl e \<Rightarrow> Inl e
             | Inr due \<Rightarrow> Inr (ob1\<lparr>ob_status := Ds_rejected, ob_next := Some due\<rparr>))
          else Inr (ob1\<lparr>ob_status := Ds_closed, ob_next := None\<rparr>))"

definition reduce_outcome :: "prims \<Rightarrow> mission \<Rightarrow> meta \<Rightarrow> outcome_payload \<Rightarrow> decision_state result" where
  "reduce_outcome E s m p =
     (let d = x_decisions s; k = oc_decision p in
      if m_actor m \<noteq> ''CONTROL'' then Inl MissionStateError
      else
        (case dget (d_all d) k of
           None \<Rightarrow> Inl MissionConflict
         | Some de \<Rightarrow>
            (let ob = de_delivery de in
             if \<not> ob_managed ob then Inl MissionConflict
             else if Some (oc_enqueue p) \<noteq> ob_enqueue ob \<or> Some (oc_attempt p) \<noteq> ob_active ob
               then Inl MissionConflict
             else
               (case settle_outbox E m k (de_resolution de = None) p ob of
                  Inl e \<Rightarrow> Inl e
                | Inr ob' \<Rightarrow> Inr (set_outbox k de ob' d)))))"

section \<open>Resolution\<close>

definition close_outbox :: "outbox \<Rightarrow> outbox" where
  "close_outbox ob =
     (if ob_status ob = Ds_pending \<or> ob_status ob = Ds_rejected
      then ob\<lparr>ob_status := Ds_closed, ob_next := None\<rparr> else ob)"

definition resolve_decision :: "meta \<Rightarrow> resolution_payload \<Rightarrow> decision \<Rightarrow> decision_state \<Rightarrow> decision_state" where
  "resolve_decision m p de d =
     d\<lparr>d_all := dput (rs_decision p)
         (de\<lparr>de_resolution := Some \<lparr>re_payload = p, re_event = m_sha m, re_at = m_time m, re_actor = m_actor m\<rparr>,
             de_delivery := close_outbox (de_delivery de)\<rparr>) (d_all d),
       d_pending := filter (\<lambda>k. k \<noteq> rs_decision p) (d_pending d)\<rparr>"

definition automatic_allowed :: "decision_request \<Rightarrow> string \<Rightarrow> bool" where
  "automatic_allowed q option_id \<longleftrightarrow>
     dr_risk q = Low \<and> dr_reversible q \<and> dr_default q = Some option_id"

definition reduce_resolved :: "prims \<Rightarrow> mission \<Rightarrow> meta \<Rightarrow> resolution_payload \<Rightarrow> decision_state result" where
  "reduce_resolved E s m p =
     (let d = x_decisions s in
      case pending_decision d (rs_decision p) of
        None \<Rightarrow> Inl MissionConflict
      | Some de \<Rightarrow>
         (let q = de_request de in
          if m_actor m \<noteq> (case rs_kind p of By_human \<Rightarrow> ''HUMAN'' | Automatic \<Rightarrow> ''CONTROL'')
            then Inl MissionStateError
          else if rs_request_event p \<noteq> de_request_event de then Inl MissionConflict
          else if rs_option p \<notin> set (dr_options q) then Inl MissionConflict
          else if rs_kind p = Automatic \<and> \<not> automatic_allowed q (rs_option p) then Inl MissionConflict
          else if rs_kind p = Automatic \<and> instant E (m_time m) < instant E (de_deadline de)
            then Inl MissionConflict
          else Inr (resolve_decision m p de d)))"

fun reduce_decision :: "prims \<Rightarrow> mission \<Rightarrow> meta \<Rightarrow> decision_event \<Rightarrow> decision_state result" where
  "reduce_decision E s m (Decision_requested q) = reduce_decision_requested E s m q"
| "reduce_decision E s m (Notification_enqueued k) = reduce_enqueued s m k"
| "reduce_decision E s m (Notification_attempted p) = reduce_attempted E s m p"
| "reduce_decision E s m (Notification_outcome p) = reduce_outcome E s m p"
| "reduce_decision E s m (Decision_resolved p) = reduce_resolved E s m p"

end
