(* ===== verification/Lifecycle.thy ===== *)
theory Lifecycle
  imports Decisions
begin

text \<open>
  The mission lifecycle (the \<open>STATE_EVENT\<close> table of scripts/fleet_mission_state.py and its
  guards), assurance approvals, risk escalation and the terminal.
\<close>

section \<open>The status of each event\<close>

text \<open>The table \<open>STATE_EVENT\<close>, and the assignment \<open>result["status"] = STATE_EVENT[kind]\<close>.\<close>

fun state_event :: "lifecycle_event \<Rightarrow> status option" where
  "state_event Mission_recreated = Some Created"
| "state_event (Workflow_compiled _) = Some Compiled"
| "state_event Fleet_boot_started = Some Booting"
| "state_event Mission_running = Some Running"
| "state_event (Assurance_requested _) = Some Awaiting_assurance"
| "state_event (Assurance_approved _) = Some Assurance_ok"
| "state_event (Assurance_boot_started _) = Some Assured_booting"
| "state_event (Assurance_started _) = Some Assured_running"
| "state_event Mission_completing = Some Completing"
| "state_event Archive_created = Some Archived"
| "state_event _ = None"

definition enter :: "lifecycle_event \<Rightarrow> mission \<Rightarrow> mission" where
  "enter e s = (case state_event e of None \<Rightarrow> s | Some st \<Rightarrow> s\<lparr>x_status := st\<rparr>)"

definition merge_categories :: "string list \<Rightarrow> string list \<Rightarrow> string list" where
  "merge_categories old new = sort (remdups (old @ new))"

section \<open>Boot and run\<close>

definition reduce_compiled :: "mission \<Rightarrow> string \<Rightarrow> mission result" where
  "reduce_compiled s digest =
     (if x_status s \<noteq> Created then Inl MissionStateError
      else Inr (enter (Workflow_compiled digest) (s\<lparr>x_compiled := Some digest\<rparr>)))"

definition reduce_boot :: "mission \<Rightarrow> mission result" where
  "reduce_boot s = (if x_status s \<noteq> Compiled then Inl MissionStateError else Inr (enter Fleet_boot_started s))"

definition reduce_running :: "mission \<Rightarrow> mission result" where
  "reduce_running s =
     (if x_status s \<notin> {Booting, Running} then Inl MissionStateError else Inr (enter Mission_running s))"

section \<open>Assurance\<close>

definition reduce_assurance_requested :: "mission \<Rightarrow> string list \<Rightarrow> mission result" where
  "reduce_assurance_requested s cats =
     (if x_status s \<notin> {Compiled, Running, Assured_running} then Inl MissionStateError
      else
        (case require_no_active_admissions s of
           Inl e \<Rightarrow> Inl e
         | Inr _ \<Rightarrow>
             Inr (enter (Assurance_requested cats)
                    (s\<lparr>x_categories := merge_categories (x_categories s) cats\<rparr>))))"

text \<open>
  \<open>last_request\<close> is the hash of the last assurance request before this event, which
  \<open>next(...)\<close> finds by scanning the earlier events backwards.
\<close>

definition approval_timely :: "prims \<Rightarrow> meta \<Rightarrow> approval \<Rightarrow> bool" where
  "approval_timely E m ap =
     (case ap_expires_in ap of
        None \<Rightarrow> True
      | Some n \<Rightarrow> instant E (ap_expires_at ap) > instant E (m_time m)
          \<and> instant E (ap_expires_at ap) \<le> instant E (m_time m) + seconds n)"

definition reduce_assurance_approved ::
  "prims \<Rightarrow> mission \<Rightarrow> meta \<Rightarrow> string option \<Rightarrow> approval \<Rightarrow> mission result" where
  "reduce_assurance_approved E s m last_request ap =
     (if x_status s \<noteq> Awaiting_assurance then Inl MissionStateError
      else
        (case last_request of
           None \<Rightarrow> Inl StopIteration
         | Some request \<Rightarrow>
             if ap_request ap \<noteq> request then Inl MissionStateError
             else if ap_workflow_digest ap \<noteq> x_workflow_digest s then Inl MissionStateError
             else if ap_scope ap \<noteq> x_target_repo s \<or> ap_risk ap \<noteq> x_risk s then Inl MissionStateError
             else if \<not> approval_timely E m ap then Inl MissionStateError
             else Inr (enter (Assurance_approved ap) (s\<lparr>x_approval := Some (ap, m_sha m)\<rparr>))))"

text \<open>What assured boot and assured start both demand of the approval they name.\<close>

definition check_approval_use :: "prims \<Rightarrow> mission \<Rightarrow> meta \<Rightarrow> status \<Rightarrow> string \<Rightarrow> unit result" where
  "check_approval_use E s m required ref =
     (if x_status s \<noteq> required then Inl MissionStateError
      else
        (case x_approval s of
           None \<Rightarrow> Inl MissionStateError
         | Some (ap, ev) \<Rightarrow>
             if ref \<noteq> ev then Inl MissionStateError
             else if ap_workflow_digest ap \<noteq> x_workflow_digest s \<or> ap_scope ap \<noteq> x_target_repo s
                \<or> ap_risk ap \<noteq> x_risk s then Inl MissionStateError
             else require (instant E (m_time m) < instant E (ap_expires_at ap)) MissionStateError))"

definition reduce_assurance_boot :: "prims \<Rightarrow> mission \<Rightarrow> meta \<Rightarrow> string \<Rightarrow> mission result" where
  "reduce_assurance_boot E s m ref =
     (case check_approval_use E s m Assurance_ok ref of
        Inl e \<Rightarrow> Inl e | Inr _ \<Rightarrow> Inr (enter (Assurance_boot_started ref) s))"

definition reduce_assurance_started :: "prims \<Rightarrow> mission \<Rightarrow> meta \<Rightarrow> string \<Rightarrow> mission result" where
  "reduce_assurance_started E s m ref =
     (case check_approval_use E s m Assured_booting ref of
        Inl e \<Rightarrow> Inl e | Inr _ \<Rightarrow> Inr (enter (Assurance_started ref) s))"

definition renewal_uuid :: "prims \<Rightarrow> string \<Rightarrow> string \<Rightarrow> string \<Rightarrow> string" where
  "renewal_uuid E mission prior_event key =
     uuid5 E mission (''approval-renewal:'' @ prior_event @ '':'' @ key)"

definition renewal_bound :: "prims \<Rightarrow> mission \<Rightarrow> meta \<Rightarrow> approval \<Rightarrow> string \<Rightarrow> approval \<Rightarrow> bool" where
  "renewal_bound E s m prior prior_event ap \<longleftrightarrow>
     ap_id ap = renewal_uuid E (x_id s) prior_event (m_key m)
     \<and> ap_prior ap = Some prior_event \<and> ap_request ap = ap_request prior
     \<and> ap_workflow_digest ap = x_workflow_digest s \<and> ap_scope ap = x_target_repo s
     \<and> ap_risk ap = x_risk s"

definition renewal_span :: "approval \<Rightarrow> int" where
  "renewal_span ap = (case ap_expires_in ap of None \<Rightarrow> 0 | Some n \<Rightarrow> n)"

definition reduce_renewed :: "prims \<Rightarrow> mission \<Rightarrow> meta \<Rightarrow> approval \<Rightarrow> mission result" where
  "reduce_renewed E s m ap =
     (if x_status s \<notin> {Assurance_ok, Assured_running} then Inl MissionStateError
      else
     (case x_approval s of
        None \<Rightarrow> Inl MissionStateError
      | Some (prior, prior_event) \<Rightarrow>
     (case (if x_status s = Assured_running then require_no_active_admissions s else Inr ()) of
        Inl e \<Rightarrow> Inl e
      | Inr _ \<Rightarrow>
         (let now = instant E (m_time m); expiry = instant E (ap_expires_at ap) in
          if m_actor m \<noteq> ''HUMAN'' then Inl MissionStateError
          else if now < instant E (ap_expires_at prior) then Inl MissionConflict
          else if expiry \<le> now then Inl MissionStateError
          else if expiry > now + seconds (renewal_span ap) then Inl MissionStateError
          else if \<not> renewal_bound E s m prior prior_event ap then Inl MissionConflict
          else if ap_risk prior \<noteq> x_risk s then Inl MissionConflict
          else Inr (s\<lparr>x_approval := Some (ap, m_sha m)\<rparr>)))))"

section \<open>Completion, archive, risk and terminal\<close>

definition require_no_pending_decisions :: "mission \<Rightarrow> unit result" where
  "require_no_pending_decisions s = require (d_pending (x_decisions s) = []) MissionConflict"

definition reduce_completing :: "mission \<Rightarrow> mission result" where
  "reduce_completing s =
     (if x_status s \<notin> {Running, Assured_running} then Inl MissionStateError
      else
        (case require_no_active_admissions s of
           Inl e \<Rightarrow> Inl e
         | Inr _ \<Rightarrow>
        (case require_no_pending_decisions s of
           Inl e \<Rightarrow> Inl e
         | Inr _ \<Rightarrow> Inr (enter Mission_completing s))))"

text \<open>A Herdr control request other than \<open>running\<close> blocks an accepted completion.\<close>

definition wants_running :: "mission \<Rightarrow> bool" where
  "wants_running s \<longleftrightarrow>
     (case h_control (x_herdr s) of None \<Rightarrow> True | Some c \<Rightarrow> co_desired c = Want_running)"

definition reduce_archive :: "mission \<Rightarrow> mission result" where
  "reduce_archive s =
     (if \<not> wants_running s then Inl MissionConflict
      else if x_status s \<noteq> Completing then Inl MissionStateError
      else
        (case require_no_active_admissions s of
           Inl e \<Rightarrow> Inl e
         | Inr _ \<Rightarrow> Inr (enter Archive_created s)))"

definition reduce_escalated :: "mission \<Rightarrow> risk \<Rightarrow> risk \<Rightarrow> string list \<Rightarrow> mission result" where
  "reduce_escalated s old new cats =
     (if old \<noteq> x_risk s then Inl MissionStateError
      else if risk_order new < risk_order (x_risk s) then Inl MissionStateError
      else Inr (s\<lparr>x_risk := new, x_categories := merge_categories (x_categories s) cats\<rparr>))"

definition functional_open :: "mission \<Rightarrow> bool" where
  "functional_open s \<longleftrightarrow>
     (case h_functional (x_herdr s) of None \<Rightarrow> False | Some f \<Rightarrow> fa_result f = None)"

definition reduce_terminal :: "mission \<Rightarrow> terminal_status \<Rightarrow> string \<Rightarrow> mission result" where
  "reduce_terminal s st reason =
     (if st = T_succeeded \<and> \<not> wants_running s then Inl MissionConflict
      else if x_terminal s \<noteq> None then Inl MissionConflict
      else if \<not> inference_settled s then Inl MissionConflict
      else if functional_open s then Inl MissionConflict
      else if \<not> no_active_admissions (x_admissions s) then Inl MissionConflict
      else if st = T_succeeded \<and> x_status s \<noteq> Archived then Inl MissionStateError
      else Inr (s\<lparr>x_status := Ended st, x_terminal := Some (st, reason)\<rparr>))"

fun reduce_lifecycle ::
  "prims \<Rightarrow> mission \<Rightarrow> meta \<Rightarrow> string option \<Rightarrow> lifecycle_event \<Rightarrow> mission result" where
  "reduce_lifecycle E s m lr Mission_recreated = Inr (enter Mission_recreated s)"
| "reduce_lifecycle E s m lr (Workflow_compiled digest) = reduce_compiled s digest"
| "reduce_lifecycle E s m lr Fleet_boot_started = reduce_boot s"
| "reduce_lifecycle E s m lr Mission_running = reduce_running s"
| "reduce_lifecycle E s m lr (Assurance_requested cats) = reduce_assurance_requested s cats"
| "reduce_lifecycle E s m lr (Assurance_approved ap) = reduce_assurance_approved E s m lr ap"
| "reduce_lifecycle E s m lr (Assurance_boot_started ref) = reduce_assurance_boot E s m ref"
| "reduce_lifecycle E s m lr (Assurance_started ref) = reduce_assurance_started E s m ref"
| "reduce_lifecycle E s m lr Mission_completing = reduce_completing s"
| "reduce_lifecycle E s m lr Archive_created = reduce_archive s"
| "reduce_lifecycle E s m lr (Assurance_renewed ap) = reduce_renewed E s m ap"
| "reduce_lifecycle E s m lr (Risk_escalated old new cats) = reduce_escalated s old new cats"
| "reduce_lifecycle E s m lr (Mission_terminal st reason) = reduce_terminal s st reason"

end
