(* ===== verification/Inference.thy ===== *)
theory Inference
  imports Lifecycle
begin

text \<open>
  The inference broker's ledger events (\<open>admitted\<close>, \<open>reduce\<close>,
  \<open>reservation_allowed\<close> of scripts/fleet_herdr_inference.py): a policy per attempt, one
  unresolved request at a time, and a budget of requests, input bytes and output tokens.
\<close>

section \<open>Admission of an inference\<close>

definition inference_match :: "inference_policy \<Rightarrow> admission \<Rightarrow> bool" where
  "inference_match po a \<longleftrightarrow>
     a_run_id a = ip_run_id po \<and> a_recipient a = ha_role (ip_attempt po) \<and> a_active a
     \<and> a_writer a = (ha_role (ip_attempt po) = ''worker'')
     \<and> (a_phase a = Authorized \<or> a_phase a = Started) \<and> a_result a = None"

definition inference_admitted :: "prims \<Rightarrow> mission \<Rightarrow> inference_policy \<Rightarrow> int \<Rightarrow> unit result" where
  "inference_admitted E s po now =
     (let t = x_admissions s in
      if x_status s \<noteq> Running \<or> \<not> wants_running s \<or> ha_mission (ip_attempt po) \<noteq> x_id s
        then Inl InferenceError
      else
        (case s_policy t of
           None \<Rightarrow> Inl TypeError
         | Some (adm, _) \<Rightarrow>
             if ip_deadline po \<noteq> po_deadline_at adm \<or> now \<ge> instant E (ip_deadline po)
                \<or> dhas (s_cancelled t) (ip_run_id po) then Inl InferenceError
             else
               (case filter (inference_match po) (dvals (s_admissions t)) of
                  [a] \<Rightarrow> require (\<not> a_writer a \<or> s_writer t = Some (a_id a)) InferenceError
                | _ \<Rightarrow> Inl InferenceError)))"

section \<open>Reservations\<close>

definition spent_input :: "inference_entry \<Rightarrow> int" where
  "spent_input e = (\<Sum>r \<leftarrow> dvals (ie_requests e). ir_input r)"

definition spent_output :: "inference_entry \<Rightarrow> int" where
  "spent_output e = (\<Sum>r \<leftarrow> dvals (ie_requests e). ir_output r)"

definition reservation_allowed :: "inference_entry \<Rightarrow> string \<Rightarrow> int \<Rightarrow> int \<Rightarrow> unit result" where
  "reservation_allowed e rid inp out =
     (let rs = ie_requests e; po = ie_policy e in
      if dhas rs rid then Inl InferenceError
      else if \<not> list_all (\<lambda>r. ir_result r = Some I_completed) (dvals rs) then Inl InferenceError
      else require (int (length (dvals rs)) < ip_max_requests po
                    \<and> spent_input e + inp \<le> ip_max_input po
                    \<and> spent_output e + out \<le> ip_max_output po) InferenceError)"

definition put_entry :: "string \<Rightarrow> inference_entry \<Rightarrow> herdr_state \<Rightarrow> herdr_state" where
  "put_entry pid e h = h\<lparr>h_inference := dput pid e (h_inference h)\<rparr>"

definition freeze_inference :: "prims \<Rightarrow> mission \<Rightarrow> meta \<Rightarrow> string \<Rightarrow> inference_policy \<Rightarrow> herdr_state result" where
  "freeze_inference E s m pid po =
     (let h = x_herdr s in
      case inference_admitted E s po (instant E (m_time m)) of
        Inl e \<Rightarrow> Inl e
      | Inr _ \<Rightarrow>
          if \<not> inference_settled s then Inl InferenceError
          else if dhas (h_inference h) pid
             \<or> list_ex (\<lambda>e. ip_attempt (ie_policy e) = ip_attempt po) (dvals (h_inference h))
            then Inl InferenceError
          else Inr (put_entry pid \<lparr>ie_policy = po, ie_requests = dempty\<rparr> h))"

definition reserve_inference ::
  "prims \<Rightarrow> mission \<Rightarrow> meta \<Rightarrow> string \<Rightarrow> string \<Rightarrow> string \<Rightarrow> int \<Rightarrow> int \<Rightarrow> herdr_state result" where
  "reserve_inference E s m pid rid rsha inp out =
     (let h = x_herdr s in
      case dget (h_inference h) pid of
        None \<Rightarrow> Inl InferenceError
      | Some e \<Rightarrow>
     (case inference_admitted E s (ie_policy e) (instant E (m_time m)) of
        Inl x \<Rightarrow> Inl x
      | Inr _ \<Rightarrow>
     (case reservation_allowed e rid inp out of
        Inl x \<Rightarrow> Inl x
      | Inr _ \<Rightarrow>
          Inr (put_entry pid
            (e\<lparr>ie_requests := dput rid
                 \<lparr>ir_sha = rsha, ir_input = inp, ir_output = out, ir_result = None\<rparr>
                 (ie_requests e)\<rparr>) h))))"

definition finish_inference ::
  "prims \<Rightarrow> mission \<Rightarrow> meta \<Rightarrow> string \<Rightarrow> string \<Rightarrow> inference_status \<Rightarrow> herdr_state result" where
  "finish_inference E s m pid rid st =
     (let h = x_herdr s in
      case dget (h_inference h) pid of
        None \<Rightarrow> Inl InferenceError
      | Some e \<Rightarrow>
     (case dget (ie_requests e) rid of
        None \<Rightarrow> Inl InferenceError
      | Some r \<Rightarrow>
          if ir_result r \<noteq> None then Inl InferenceError
          else
            (case (if st = I_completed
                   then inference_admitted E s (ie_policy e) (instant E (m_time m)) else Inr ()) of
               Inl x \<Rightarrow> Inl x
             | Inr _ \<Rightarrow>
                 Inr (put_entry pid
                   (e\<lparr>ie_requests := dput rid (r\<lparr>ir_result := Some st\<rparr>) (ie_requests e)\<rparr>) h))))"

text \<open>The reducer turns an \<open>InferenceError\<close> into a \<open>MissionConflict\<close>.\<close>

definition as_conflict :: "'a result \<Rightarrow> 'a result" where
  "as_conflict r = (case r of Inl InferenceError \<Rightarrow> Inl MissionConflict | _ \<Rightarrow> r)"

lemma as_conflict_eq_Inr [guard_simps]: "as_conflict r = Inr x \<longleftrightarrow> r = Inr x"
  by (cases r) (auto simp: as_conflict_def split: error.splits)

definition reduce_inference :: "prims \<Rightarrow> mission \<Rightarrow> meta \<Rightarrow> herdr_event \<Rightarrow> herdr_state result" where
  "reduce_inference E s m e =
     (if m_actor m \<noteq> ''CONTROL'' then Inl MissionConflict
      else as_conflict
        (case e of
           Inference_frozen pid po \<Rightarrow> freeze_inference E s m pid po
         | Inference_reserved pid rid rsha inp out \<Rightarrow> reserve_inference E s m pid rid rsha inp out
         | Inference_finished pid rid receipt st \<Rightarrow> finish_inference E s m pid rid st
         | _ \<Rightarrow> Inr (x_herdr s)))"

end
