(* ===== verification/Herdr.thy ===== *)
theory Herdr
  imports Inference
begin

text \<open>
  The Herdr part of the reducer (scripts/fleet_mission_state.py and
  scripts/fleet_herdr_control.py): controller intervals, native observations, durable
  pause/resume/cancel, the scope baseline, functional checks, repair attempts, delivery and the
  archive selection.
\<close>

section \<open>Controller intervals and native observations\<close>

definition reduce_interval_started :: "herdr_state \<Rightarrow> meta \<Rightarrow> string \<Rightarrow> string \<Rightarrow> string option \<Rightarrow> herdr_state result" where
  "reduce_interval_started h m k kind run =
     (if m_actor m \<noteq> ''CONTROL'' then Inl MissionConflict
      else if dhas (h_intervals h) k then Inl MissionConflict
      else Inr (h\<lparr>h_intervals := dput k
             \<lparr>i_kind = kind, i_run = run, i_started = m_time m, i_ended = None, i_elapsed = None,
              i_returned = None\<rparr> (h_intervals h)\<rparr>))"

definition reduce_interval_finished :: "herdr_state \<Rightarrow> meta \<Rightarrow> string \<Rightarrow> int \<Rightarrow> bool \<Rightarrow> herdr_state result" where
  "reduce_interval_finished h m k elapsed returned =
     (if m_actor m \<noteq> ''CONTROL'' then Inl MissionConflict
      else
        (case dget (h_intervals h) k of
           None \<Rightarrow> Inl MissionConflict
         | Some i \<Rightarrow>
             if i_ended i \<noteq> None then Inl MissionConflict
             else Inr (h\<lparr>h_intervals := dput k
                    (i\<lparr>i_ended := Some (m_time m), i_elapsed := Some elapsed,
                       i_returned := Some returned\<rparr>) (h_intervals h)\<rparr>)))"

definition reduce_native :: "mission \<Rightarrow> meta \<Rightarrow> native_payload \<Rightarrow> herdr_state result" where
  "reduce_native s m p =
     (let h = x_herdr s;
          previous = filter (\<lambda>q. na_attempt q = na_attempt p) (h_native h) in
      if m_actor m \<noteq> ''CONTROL'' \<or> x_status s \<notin> {Booting, Running}
         \<or> ha_mission (na_attempt p) \<noteq> x_id s then Inl MissionConflict
      else if na_sequence p \<noteq> int (length previous)
         \<or> (previous \<noteq> [] \<and> (na_channel (last previous) \<noteq> na_channel p \<or> \<not> na_allow (last previous)))
        then Inl MissionConflict
      else Inr (h\<lparr>h_native := h_native h @ [p]\<rparr>))"

section \<open>Durable control\<close>

definition initial_control :: "int \<Rightarrow> control" where
  "initial_control sequence =
     \<lparr>co_desired = Want_running, co_applied = Is_running, co_latest = None, co_requests = dempty,
      co_dispatches = dempty, co_sequence = sequence\<rparr>"

definition authorized_runs :: "admission_state \<Rightarrow> string list" where
  "authorized_runs t =
     map a_run_id (filter (\<lambda>a. a_phase a \<in> {Authorized, Started, Finalized}) (dvals (s_admissions t)))"

definition reduce_supervision :: "mission \<Rightarrow> meta \<Rightarrow> herdr_state result" where
  "reduce_supervision s m =
     (let h = x_herdr s in
      if m_actor m \<noteq> ''CONTROL'' then Inl MissionConflict
      else if h_control h \<noteq> None then Inl MissionConflict
      else Inr (h\<lparr>h_legacy_runs := authorized_runs (x_admissions s),
                  h_control := Some (initial_control (m_sequence m))\<rparr>))"

definition fresh_authorization :: "herdr_state \<Rightarrow> admission \<Rightarrow> bool" where
  "fresh_authorization h a \<longleftrightarrow> a_run_id a \<notin> set (h_legacy_runs h)"

fun desired_of :: "control_action \<Rightarrow> desired" where
  "desired_of Pause = Want_pause"
| "desired_of Resume = Want_running"
| "desired_of Cancel = Want_cancel"

fun applied_of :: "control_action \<Rightarrow> applied" where
  "applied_of Pause = Is_paused"
| "applied_of Resume = Is_running"
| "applied_of Cancel = Is_cancelled"

definition owns_active_run :: "admission_state \<Rightarrow> string \<Rightarrow> bool" where
  "owns_active_run t r \<longleftrightarrow> list_ex (\<lambda>a. a_run_id a = r \<and> a_active a) (dvals (s_admissions t))"

definition reduce_control_requested :: "mission \<Rightarrow> meta \<Rightarrow> control_request \<Rightarrow> herdr_state result" where
  "reduce_control_requested s m q =
     (let h = x_herdr s in
      if m_actor m \<noteq> ''CONTROL'' then Inl MissionConflict
      else
        (case h_control h of
           None \<Rightarrow> Inl MissionConflict
         | Some c \<Rightarrow>
             if co_desired c = Want_cancel then Inl MissionConflict
             else if (case cq_run_id q of None \<Rightarrow> False
                      | Some r \<Rightarrow> \<not> owns_active_run (x_admissions s) r) then Inl MissionConflict
             else Inr (h\<lparr>h_control := Some
                    (c\<lparr>co_requests := dput (cq_id q)
                         \<lparr>sr_request = q, sr_at = m_time m, sr_event = m_sha m, sr_applied = None,
                          sr_cleanup = None\<rparr> (co_requests c),
                       co_latest := Some (cq_id q), co_desired := desired_of (cq_action q)\<rparr>)\<rparr>)))"

text \<open>An active admission that keeps a pause from being confirmed.\<close>

definition blocks_pause :: "herdr_state \<Rightarrow> control \<Rightarrow> admission \<Rightarrow> bool" where
  "blocks_pause h c a \<longleftrightarrow>
     a_phase a = Started \<or> dhas (co_dispatches c) (a_run_id a)
     \<or> (a_phase a = Authorized \<and> \<not> fresh_authorization h a)"

definition delivery_open :: "herdr_state \<Rightarrow> bool" where
  "delivery_open h \<longleftrightarrow> h_deliveries h \<noteq> [] \<and> dv_finished (last (h_deliveries h)) = None"

definition control_quiescent :: "mission \<Rightarrow> control \<Rightarrow> control_action \<Rightarrow> unit result" where
  "control_quiescent s c act =
     (let h = x_herdr s; active = filter a_active (dvals (s_admissions (x_admissions s))) in
      if act = Resume then Inr ()
      else if \<not> inference_settled s then Inl MissionConflict
      else if act = Cancel \<and> active \<noteq> [] then Inl MissionConflict
      else if act = Pause \<and> list_ex (blocks_pause h c) active then Inl MissionConflict
      else if functional_open s then Inl MissionConflict
      else if delivery_open h then Inl MissionConflict
      else Inr ())"

definition apply_control :: "meta \<Rightarrow> string \<Rightarrow> control_action \<Rightarrow> string option \<Rightarrow> stored_request \<Rightarrow> control \<Rightarrow> control" where
  "apply_control m k act cleanup r c =
     c\<lparr>co_requests := dput k
         (r\<lparr>sr_applied := Some (m_time m),
            sr_cleanup := (case cleanup of None \<Rightarrow> sr_cleanup r | Some x \<Rightarrow> Some x)\<rparr>) (co_requests c),
       co_applied := applied_of act\<rparr>"

definition reduce_control_applied ::
  "mission \<Rightarrow> meta \<Rightarrow> string \<Rightarrow> control_action \<Rightarrow> string option \<Rightarrow> herdr_state result" where
  "reduce_control_applied s m k act cleanup =
     (let h = x_herdr s in
      if m_actor m \<noteq> ''CONTROL'' then Inl MissionConflict
      else
     (case h_control h of
        None \<Rightarrow> Inl MissionConflict
      | Some c \<Rightarrow>
     (case dget (co_requests c) k of
        None \<Rightarrow> Inl MissionConflict
      | Some r \<Rightarrow>
          if cq_action (sr_request r) \<noteq> act \<or> sr_applied r \<noteq> None \<or> co_latest c \<noteq> Some k
            then Inl MissionConflict
          else
            (case control_quiescent s c act of
               Inl e \<Rightarrow> Inl e
             | Inr _ \<Rightarrow> Inr (h\<lparr>h_control := Some (apply_control m k act cleanup r c)\<rparr>)))))"

definition reduce_dispatch :: "mission \<Rightarrow> meta \<Rightarrow> string \<Rightarrow> string \<Rightarrow> string \<Rightarrow> herdr_state result" where
  "reduce_dispatch s m r task generation =
     (let h = x_herdr s; t = x_admissions s in
      if m_actor m \<noteq> ''CONTROL'' then Inl MissionConflict
      else
     (case h_control h of
        None \<Rightarrow> Inl MissionConflict
      | Some c \<Rightarrow>
          if co_desired c \<noteq> Want_running then Inl MissionConflict
          else
            (case find (\<lambda>a. a_run_id a = r) (dvals (s_admissions t)) of
               None \<Rightarrow> Inl MissionConflict
             | Some a \<Rightarrow>
                 if a_phase a \<noteq> Authorized then Inl MissionConflict
                 else if a_task a = None then Inl KeyError
                 else if a_task a \<noteq> Some task \<or> dhas (co_dispatches c) r
                    \<or> \<not> fresh_authorization h a \<or> dhas (s_cancelled t) r then Inl MissionConflict
                 else Inr (h\<lparr>h_control := Some
                        (c\<lparr>co_dispatches := dput r (task, generation, m_sha m) (co_dispatches c)\<rparr>)\<rparr>))))"

section \<open>Baseline and functional checks\<close>

definition reduce_scope_baseline :: "mission \<Rightarrow> meta \<Rightarrow> string \<Rightarrow> string \<Rightarrow> string \<Rightarrow> herdr_state result" where
  "reduce_scope_baseline s m digest contract artifact =
     (let h = x_herdr s in
      if m_actor m \<noteq> ''CONTROL'' \<or> x_status s \<noteq> Compiled \<or> ditems (s_admissions (x_admissions s)) \<noteq> []
         \<or> h_scope_baseline h \<noteq> None \<or> Some digest \<noteq> x_compiled s
         \<or> Some contract \<noteq> cr_scope_contract (x_created s) then Inl MissionConflict
      else Inr (h\<lparr>h_scope_baseline := Some (artifact, m_sha m)\<rparr>))"

definition reduce_functional_policy :: "mission \<Rightarrow> meta \<Rightarrow> string \<Rightarrow> string \<Rightarrow> string \<Rightarrow> herdr_state result" where
  "reduce_functional_policy s m digest spec tests =
     (let h = x_herdr s in
      if m_actor m \<noteq> ''CONTROL'' \<or> x_status s \<noteq> Compiled \<or> Some digest \<noteq> x_compiled s
         \<or> h_functional_policy h \<noteq> None then Inl MissionConflict
      else Inr (h\<lparr>h_functional_policy := Some (spec, tests)\<rparr>))"

definition reduce_functional_started :: "mission \<Rightarrow> meta \<Rightarrow> string \<Rightarrow> string \<Rightarrow> string \<Rightarrow> herdr_state result" where
  "reduce_functional_started s m contract attempt tree =
     (let h = x_herdr s in
      if m_actor m \<noteq> ''CONTROL'' \<or> h_functional_policy h = None \<or> h_functional h \<noteq> None
         \<or> x_status s \<notin> {Running, Completing} \<or> \<not> wants_running s then Inl MissionConflict
      else
        (case require_no_active_admissions s of
           Inl e \<Rightarrow> Inl e
         | Inr _ \<Rightarrow> Inr (h\<lparr>h_functional := Some
             \<lparr>fa_contract = contract, fa_attempt = attempt, fa_tree = tree, fa_result = None\<rparr>\<rparr>)))"

definition reduce_functional_finished ::
  "mission \<Rightarrow> meta \<Rightarrow> string \<Rightarrow> string \<Rightarrow> string \<Rightarrow> functional_status \<Rightarrow> herdr_state result" where
  "reduce_functional_finished s m contract attempt receipt st =
     (let h = x_herdr s in
      if m_actor m \<noteq> ''CONTROL'' then Inl MissionConflict
      else
        (case h_functional h of
           None \<Rightarrow> Inl MissionConflict
         | Some f \<Rightarrow>
             if fa_result f \<noteq> None \<or> fa_contract f \<noteq> contract \<or> fa_attempt f \<noteq> attempt
               then Inl MissionConflict
             else Inr (h\<lparr>h_functional := Some (f\<lparr>fa_result := Some (receipt, st)\<rparr>)\<rparr>)))"

section \<open>Repair attempts\<close>

definition reduce_repair_policy :: "mission \<Rightarrow> meta \<Rightarrow> string \<Rightarrow> string \<Rightarrow> herdr_state result" where
  "reduce_repair_policy s m digest artifact =
     (let h = x_herdr s in
      if m_actor m \<noteq> ''CONTROL'' \<or> x_status s \<noteq> Compiled \<or> Some digest \<noteq> x_compiled s
         \<or> h_repair_policy h \<noteq> None \<or> Some artifact \<noteq> cr_repair_policy (x_created s)
        then Inl MissionConflict
      else Inr (h\<lparr>h_repair_policy := Some artifact, h_repairs := [], h_deliveries := []\<rparr>))"

text \<open>The deadline of the admission policy; the code subscripts the policy without a check.\<close>

definition before_deadline :: "prims \<Rightarrow> mission \<Rightarrow> meta \<Rightarrow> unit result" where
  "before_deadline E s m =
     (case s_policy (x_admissions s) of
        None \<Rightarrow> Inl TypeError
      | Some (po, _) \<Rightarrow> require (instant E (m_time m) < instant E (po_deadline_at po)) MissionConflict)"

fun settled_failed :: "repair_attempt \<Rightarrow> bool" where
  "settled_failed r = (case ra_settled r of None \<Rightarrow> False | Some p \<Rightarrow> \<not> se_passed p)"

definition reduce_repair_opened :: "prims \<Rightarrow> mission \<Rightarrow> meta \<Rightarrow> int \<Rightarrow> string option \<Rightarrow> herdr_state result" where
  "reduce_repair_opened E s m ordinal feedback =
     (let h = x_herdr s; attempts = h_repairs h in
      if m_actor m \<noteq> ''CONTROL'' \<or> h_repair_policy h = None \<or> x_status s \<noteq> Running
         \<or> ordinal \<noteq> int (length attempts) + 1
         \<or> (attempts \<noteq> [] \<and> \<not> settled_failed (last attempts)) \<or> \<not> wants_running s
        then Inl MissionConflict
      else
     (case before_deadline E s m of
        Inl e \<Rightarrow> Inl e
      | Inr _ \<Rightarrow>
     (case require_no_active_admissions s of
        Inl e \<Rightarrow> Inl e
      | Inr _ \<Rightarrow>
          Inr (h\<lparr>h_functional := (if attempts \<noteq> [] then None else h_functional h),
                 h_repairs := attempts @
                   [\<lparr>ra_ordinal = ordinal, ra_feedback = feedback, ra_functional = None,
                     ra_settled = None\<rparr>]\<rparr>))))"

fun functional_status :: "bool \<Rightarrow> functional_status" where
  "functional_status True = F_passed"
| "functional_status False = F_failed"

definition settles_functional :: "functional_attempt option \<Rightarrow> settle_payload \<Rightarrow> bool" where
  "settles_functional fo p \<longleftrightarrow>
     (case fo of
        None \<Rightarrow> False
      | Some f \<Rightarrow> fa_result f = Some (se_receipt p, functional_status (se_passed p))
          \<and> fa_attempt f = se_functional p \<and> fa_tree f = se_tree p)"

definition reuses_failed :: "repair_attempt list \<Rightarrow> int \<Rightarrow> settle_payload \<Rightarrow> bool" where
  "reuses_failed attempts n p \<longleftrightarrow>
     (if 1 \<le> n \<and> n \<le> int (length attempts) then
        (case ra_settled (attempts ! nat (n - 1)) of
           None \<Rightarrow> False
         | Some src \<Rightarrow> \<not> se_passed src \<and> se_tree src = se_tree p \<and> se_functional src = se_functional p
             \<and> se_receipt src = se_receipt p)
      else False)"

definition settle_last :: "repair_attempt list \<Rightarrow> (repair_attempt \<Rightarrow> repair_attempt) \<Rightarrow> repair_attempt list" where
  "settle_last attempts f = butlast attempts @ [f (last attempts)]"

definition reduce_repair_settled :: "mission \<Rightarrow> meta \<Rightarrow> settle_payload \<Rightarrow> herdr_state result" where
  "reduce_repair_settled s m p =
     (let h = x_herdr s; attempts = h_repairs h in
      if m_actor m \<noteq> ''CONTROL'' \<or> attempts = [] \<or> ra_settled (last attempts) \<noteq> None
         \<or> se_ordinal p \<noteq> ra_ordinal (last attempts) then Inl MissionConflict
      else
        (case se_unchanged p of
           None \<Rightarrow>
             if \<not> settles_functional (h_functional h) p then Inl MissionConflict
             else Inr (h\<lparr>h_repairs := settle_last attempts
                    (\<lambda>r. r\<lparr>ra_functional := h_functional h, ra_settled := Some p\<rparr>)\<rparr>)
         | Some n \<Rightarrow>
             if h_functional h \<noteq> None \<or> \<not> reuses_failed attempts n p then Inl MissionConflict
             else Inr (h\<lparr>h_repairs := settle_last attempts (\<lambda>r. r\<lparr>ra_settled := Some p\<rparr>)\<rparr>)))"

section \<open>Delivery and archive\<close>

definition accepted_revision :: "herdr_state \<Rightarrow> (int \<times> string) option" where
  "accepted_revision h =
     (if h_repairs h = [] then None
      else
        (case ra_settled (last (h_repairs h)) of
           None \<Rightarrow> None
         | Some p \<Rightarrow> if se_passed p then Some (se_ordinal p, se_tree p) else None))"

definition may_deliver_again :: "delivery list \<Rightarrow> bool" where
  "may_deliver_again ds \<longleftrightarrow>
     ds = [] \<or> (case dv_finished (last ds) of None \<Rightarrow> False | Some (st, _) \<Rightarrow> st = D_aborted)"

definition reduce_delivery_started :: "prims \<Rightarrow> mission \<Rightarrow> meta \<Rightarrow> int \<Rightarrow> string \<Rightarrow> herdr_state result" where
  "reduce_delivery_started E s m ordinal tree =
     (let h = x_herdr s in
      if m_actor m \<noteq> ''CONTROL'' \<or> h_repair_policy h = None \<or> x_status s \<noteq> Running
         \<or> accepted_revision h \<noteq> Some (ordinal, tree) \<or> \<not> may_deliver_again (h_deliveries h)
         \<or> \<not> wants_running s then Inl MissionConflict
      else
     (case before_deadline E s m of
        Inl e \<Rightarrow> Inl e
      | Inr _ \<Rightarrow>
     (case require_no_active_admissions s of
        Inl e \<Rightarrow> Inl e
      | Inr _ \<Rightarrow>
          Inr (h\<lparr>h_deliveries := h_deliveries h @
                 [\<lparr>dv_ordinal = ordinal, dv_tree = tree, dv_finished = None\<rparr>]\<rparr>))))"

definition reduce_delivery_finished ::
  "mission \<Rightarrow> meta \<Rightarrow> int \<Rightarrow> string \<Rightarrow> delivery_status \<Rightarrow> string \<Rightarrow> herdr_state result" where
  "reduce_delivery_finished s m ordinal tree st receipt =
     (let h = x_herdr s; ds = h_deliveries h in
      if m_actor m \<noteq> ''CONTROL'' \<or> ds = [] \<or> dv_finished (last ds) \<noteq> None
         \<or> dv_ordinal (last ds) \<noteq> ordinal \<or> dv_tree (last ds) \<noteq> tree then Inl MissionConflict
      else Inr (h\<lparr>h_deliveries := butlast ds @ [(last ds)\<lparr>dv_finished := Some (st, receipt)\<rparr>]\<rparr>))"

definition reduce_archive_selected :: "mission \<Rightarrow> meta \<Rightarrow> string \<Rightarrow> string \<Rightarrow> string \<Rightarrow> herdr_state result" where
  "reduce_archive_selected s m digest head index =
     (let h = x_herdr s in
      if h_archive h \<noteq> None then Inl MissionConflict
      else if m_actor m \<noteq> ''CONTROL'' \<or> x_status s \<noteq> Completing \<or> Some digest \<noteq> x_compiled s
         \<or> head \<noteq> x_head s then Inl MissionConflict
      else
        (case require_no_active_admissions s of
           Inl e \<Rightarrow> Inl e
         | Inr _ \<Rightarrow> Inr (h\<lparr>h_archive := Some (index, m_sha m)\<rparr>)))"

definition reduce_finalization :: "mission \<Rightarrow> meta \<Rightarrow> finalization_policy \<Rightarrow> herdr_state result" where
  "reduce_finalization s m p =
     (let h = x_herdr s in
      if h_finalization h \<noteq> None then Inl MissionConflict
      else if m_actor m \<noteq> ''CONTROL'' \<or> Some (fp_compiled p) \<noteq> x_compiled s then Inl MissionStateError
      else if fp_repair p \<noteq> cr_repair_policy (x_created s) then Inl MissionStateError
      else if fp_repair p \<noteq> None \<and> fp_turns p \<noteq> int (length (h_repairs h)) then Inl MissionStateError
      else Inr (h\<lparr>h_finalization := Some p\<rparr>))"

fun reduce_herdr :: "prims \<Rightarrow> mission \<Rightarrow> meta \<Rightarrow> herdr_event \<Rightarrow> herdr_state result" where
  "reduce_herdr E s m (Interval_started k kind run) = reduce_interval_started (x_herdr s) m k kind run"
| "reduce_herdr E s m (Interval_finished k el ret) = reduce_interval_finished (x_herdr s) m k el ret"
| "reduce_herdr E s m (Native_observed p) = reduce_native s m p"
| "reduce_herdr E s m Supervision_enabled = reduce_supervision s m"
| "reduce_herdr E s m (Control_requested q) = reduce_control_requested s m q"
| "reduce_herdr E s m (Control_applied k act cleanup) = reduce_control_applied s m k act cleanup"
| "reduce_herdr E s m (Dispatch_intent r task generation) = reduce_dispatch s m r task generation"
| "reduce_herdr E s m (Scope_baseline digest contract artifact) = reduce_scope_baseline s m digest contract artifact"
| "reduce_herdr E s m (Functional_policy digest spec tests) = reduce_functional_policy s m digest spec tests"
| "reduce_herdr E s m (Repair_policy digest artifact) = reduce_repair_policy s m digest artifact"
| "reduce_herdr E s m (Repair_opened ordinal feedback) = reduce_repair_opened E s m ordinal feedback"
| "reduce_herdr E s m (Repair_settled p) = reduce_repair_settled s m p"
| "reduce_herdr E s m (Delivery_started ordinal tree) = reduce_delivery_started E s m ordinal tree"
| "reduce_herdr E s m (Delivery_finished ordinal tree st receipt) = reduce_delivery_finished s m ordinal tree st receipt"
| "reduce_herdr E s m (Functional_started c a tree) = reduce_functional_started s m c a tree"
| "reduce_herdr E s m (Functional_finished c a receipt st) = reduce_functional_finished s m c a receipt st"
| "reduce_herdr E s m (Archive_selected digest head index) = reduce_archive_selected s m digest head index"
| "reduce_herdr E s m (Finalization_frozen p) = reduce_finalization s m p"
| "reduce_herdr E s m e = reduce_inference E s m e"

end
