(* ===== verification/Json_Parse.thy ===== *)
theory Json_Parse
  imports Json "HOL-Library.Monad_Syntax"
begin

text \<open>
  The strict reader of scripts/fleet_json.py (\<open>loads\<close>, \<open>load_jsonl\<close>) over the bytes of a
  text, with the scanner of the standard library it configures: whitespace, string escapes,
  surrogate pairs, the number grammar, duplicate keys, record framing.  None is
  \<open>FleetJSONError\<close>.  What the code passes as \<open>parse_float\<close> is an argument of the reader: it
  turns the text of a fractional number into a value or refuses it.
\<close>

section \<open>UTF-8\<close>

text \<open>
  Strict decoding as an automaton: how many continuation bytes are due, and the range of the
  next one (the second byte excludes overlong forms, surrogates and values past U+10FFFF).
\<close>

definition utf8_lead :: "nat \<Rightarrow> (nat \<times> nat \<times> nat) option" where
  "utf8_lead n =
     (if n < 0x80 then Some (0, 0x80, 0xBF)
      else if 0xC2 \<le> n \<and> n \<le> 0xDF then Some (1, 0x80, 0xBF)
      else if n = 0xE0 then Some (2, 0xA0, 0xBF)
      else if n = 0xED then Some (2, 0x80, 0x9F)
      else if 0xE1 \<le> n \<and> n \<le> 0xEF then Some (2, 0x80, 0xBF)
      else if n = 0xF0 then Some (3, 0x90, 0xBF)
      else if 0xF1 \<le> n \<and> n \<le> 0xF3 then Some (3, 0x80, 0xBF)
      else if n = 0xF4 then Some (3, 0x80, 0x8F)
      else None)"

fun utf8_from :: "nat \<Rightarrow> nat \<Rightarrow> nat \<Rightarrow> string \<Rightarrow> bool" where
  "utf8_from k lo hi [] \<longleftrightarrow> k = 0"
| "utf8_from 0 lo hi (c # s) \<longleftrightarrow>
     (case utf8_lead (of_char c) of None \<Rightarrow> False | Some (k, lo', hi') \<Rightarrow> utf8_from k lo' hi' s)"
| "utf8_from (Suc k) lo hi (c # s) \<longleftrightarrow> lo \<le> of_char c \<and> of_char c \<le> hi \<and> utf8_from k 0x80 0xBF s"

definition utf8_ok :: "string \<Rightarrow> bool" where
  "utf8_ok s \<longleftrightarrow> utf8_from 0 0x80 0xBF s"

definition utf8_encode :: "nat \<Rightarrow> string" where
  "utf8_encode n =
     map char_of
       (if n < 0x80 then [n]
        else if n < 0x800 then [0xC0 + n div 64, 0x80 + n mod 64]
        else if n < 0x10000 then [0xE0 + n div 4096, 0x80 + n div 64 mod 64, 0x80 + n mod 64]
        else [0xF0 + n div 262144, 0x80 + n div 4096 mod 64, 0x80 + n div 64 mod 64, 0x80 + n mod 64])"

definition starts_with_bom :: "string \<Rightarrow> bool" where
  "starts_with_bom s \<longleftrightarrow> take 3 s = [CHR 0xEF, CHR 0xBB, CHR 0xBF]"

section \<open>Strings\<close>

definition hex_value :: "char \<Rightarrow> nat option" where
  "hex_value c =
     (let n = of_char c in
      if 48 \<le> n \<and> n \<le> 57 then Some (n - 48)
      else if 97 \<le> n \<and> n \<le> 102 then Some (n - 87)
      else if 65 \<le> n \<and> n \<le> 70 then Some (n - 55)
      else None)"

fun scan_hex4 :: "string \<Rightarrow> (nat \<times> string) option" where
  "scan_hex4 (a # b # c # d # s) = do {
     w \<leftarrow> hex_value a;
     x \<leftarrow> hex_value b;
     y \<leftarrow> hex_value c;
     z \<leftarrow> hex_value d;
     Some (4096 * w + 256 * x + 16 * y + z, s)
   }"
| "scan_hex4 _ = None"

definition high_surrogate :: "nat \<Rightarrow> bool" where
  "high_surrogate n \<longleftrightarrow> 0xD800 \<le> n \<and> n \<le> 0xDBFF"

definition low_surrogate :: "nat \<Rightarrow> bool" where
  "low_surrogate n \<longleftrightarrow> 0xDC00 \<le> n \<and> n \<le> 0xDFFF"

text \<open>
  What follows \<open>\u\<close>: one scalar value, or a surrogate pair.  The scanner lets a lone
  surrogate through and \<open>_validate_value\<close> then refuses the string, so it is refused here.
\<close>

definition scan_unicode :: "string \<Rightarrow> (string \<times> string) option" where
  "scan_unicode s = do {
     (n, s1) \<leftarrow> scan_hex4 s;
     if high_surrogate n then
       (case s1 of
          b # u # s2 \<Rightarrow>
            if b = CHR 0x5C \<and> u = CHR ''u'' then do {
              (m, s3) \<leftarrow> scan_hex4 s2;
              if low_surrogate m
              then Some (utf8_encode (0x10000 + (n - 0xD800) * 1024 + (m - 0xDC00)), s3)
              else None
            }
            else None
        | _ \<Rightarrow> None)
     else if low_surrogate n then None
     else Some (utf8_encode n, s1)
   }"

definition simple_escape :: "char \<Rightarrow> char option" where
  "simple_escape c =
     (if c = CHR 0x22 then Some (CHR 0x22)
      else if c = CHR 0x5C then Some (CHR 0x5C)
      else if c = CHR ''/'' then Some (CHR ''/'')
      else if c = CHR ''b'' then Some (CHR 0x08)
      else if c = CHR ''f'' then Some (CHR 0x0C)
      else if c = CHR ''n'' then Some (CHR 0x0A)
      else if c = CHR ''r'' then Some (CHR 0x0D)
      else if c = CHR ''t'' then Some (CHR 0x09)
      else None)"

definition scan_escape :: "string \<Rightarrow> (string \<times> string) option" where
  "scan_escape s =
     (case s of
        [] \<Rightarrow> None
      | c # s1 \<Rightarrow>
          if c = CHR ''u'' then scan_unicode s1
          else map_option (\<lambda>d. ([d], s1)) (simple_escape c))"

lemma scan_hex4_length: "scan_hex4 s = Some (n, r) \<Longrightarrow> length s = length r + 4"
  by (induction s rule: scan_hex4.induct) (auto simp: bind_eq_Some_conv)

lemma scan_escape_length:
  assumes "scan_escape s = Some (t, r)"
  shows "length r < length s"
proof (cases s)
  case (Cons c s1)
  show ?thesis
  proof (cases "c = CHR ''u''")
    case True
    then have u: "scan_unicode s1 = Some (t, r)" using assms Cons by (simp add: scan_escape_def)
    then obtain n s2 where n: "scan_hex4 s1 = Some (n, s2)" by (auto simp: scan_unicode_def bind_eq_Some_conv)
    then consider "r = s2" | b v s3 m where "s2 = b # v # s3" "scan_hex4 s3 = Some (m, r)"
      using u by (auto simp: scan_unicode_def bind_eq_Some_conv split: if_splits list.splits)
    then show ?thesis using scan_hex4_length [OF n] Cons by cases (auto dest!: scan_hex4_length)
  qed (use assms Cons in \<open>auto simp: scan_escape_def\<close>)
qed (use assms in \<open>simp add: scan_escape_def\<close>)

text \<open>The rest of a string literal after its opening quote: its value, and what follows it.\<close>

function scan_string :: "string \<Rightarrow> (string \<times> string) option" where
  "scan_string s =
     (case s of
        [] \<Rightarrow> None
      | c # s1 \<Rightarrow>
          if c = CHR 0x22 then Some ([], s1)
          else if c = CHR 0x5C then
            (case scan_escape s1 of
               None \<Rightarrow> None
             | Some (t, s2) \<Rightarrow> map_option (\<lambda>(u, r). (t @ u, r)) (scan_string s2))
          else if (of_char c :: nat) < 32 then None
          else map_option (\<lambda>(u, r). (c # u, r)) (scan_string s1))"
  by pat_completeness auto
termination
  by (relation "measure length") (auto dest: scan_escape_length)

declare scan_string.simps [simp del]

section \<open>Numbers\<close>

definition digit_char :: "char \<Rightarrow> bool" where
  "digit_char c \<longleftrightarrow> 48 \<le> (of_char c :: nat) \<and> (of_char c :: nat) \<le> 57"

definition digits_value :: "string \<Rightarrow> int" where
  "digits_value ds = foldl (\<lambda>n d. 10 * n + (int (of_char d) - 48)) 0 ds"

text \<open>\<open>-?(0|[1-9][0-9]*)\<close>: the sign and the digits.\<close>

definition scan_sign :: "string \<Rightarrow> bool \<times> string" where
  "scan_sign s = (case s of c # r \<Rightarrow> if c = CHR ''-'' then (True, r) else (False, s) | [] \<Rightarrow> (False, s))"

definition integer_digits :: "string \<Rightarrow> string" where
  "integer_digits s =
     (case s of
        [] \<Rightarrow> []
      | c # r \<Rightarrow> if c = CHR ''0'' then [c] else takeWhile digit_char s)"

text \<open>\<open>(\.[0-9]+)?\<close> and \<open>([eE][-+]?[0-9]+)?\<close>: the matched text, empty when there is none.\<close>

definition fraction_part :: "string \<Rightarrow> string" where
  "fraction_part s =
     (case s of
        [] \<Rightarrow> []
      | c # r \<Rightarrow> (let ds = takeWhile digit_char r in if c = CHR ''.'' \<and> ds \<noteq> [] then c # ds else []))"

definition exponent_sign :: "string \<Rightarrow> string" where
  "exponent_sign r = (case r of d # _ \<Rightarrow> if d = CHR ''-'' \<or> d = CHR ''+'' then [d] else [] | [] \<Rightarrow> [])"

definition exponent_part :: "string \<Rightarrow> string" where
  "exponent_part s =
     (case s of
        [] \<Rightarrow> []
      | c # r \<Rightarrow>
          if c = CHR ''e'' \<or> c = CHR ''E'' then
            (let ds = takeWhile digit_char (drop (length (exponent_sign r)) r)
             in if ds = [] then [] else c # exponent_sign r @ ds)
          else [])"

definition scan_number :: "(string \<Rightarrow> json option) \<Rightarrow> string \<Rightarrow> (json \<times> string) option" where
  "scan_number parse_float s =
     (let (negative, s1) = scan_sign s;
          ds = integer_digits s1;
          s2 = drop (length ds) s1;
          fraction = fraction_part s2;
          s3 = drop (length fraction) s2;
          exponent = exponent_part s3;
          s4 = drop (length exponent) s3
      in if ds = [] then None
         else if fraction = [] \<and> exponent = []
         then Some (JInt (if negative then - digits_value ds else digits_value ds), s4)
         else map_option (\<lambda>v. (v, s4)) (parse_float (take (length s - length s4) s)))"

section \<open>Values\<close>

definition json_space :: "char \<Rightarrow> bool" where
  "json_space c \<longleftrightarrow> c = CHR '' '' \<or> c = CHR 0x09 \<or> c = CHR 0x0A \<or> c = CHR 0x0D"

definition skip_space :: "string \<Rightarrow> string" where
  "skip_space s = dropWhile json_space s"

definition expect :: "char \<Rightarrow> string \<Rightarrow> string option" where
  "expect c s = (case s of d # r \<Rightarrow> if d = c then Some r else None | [] \<Rightarrow> None)"

definition scan_word :: "string \<Rightarrow> json \<Rightarrow> string \<Rightarrow> (json \<times> string) option" where
  "scan_word w v s = (if take (length w) s = w then Some (v, drop (length w) s) else None)"

text \<open>\<open>_reject_duplicate_keys\<close>: the dictionary of the pairs, refused when a key comes twice.\<close>

fun reject_duplicate_keys :: "(string \<times> json) list \<Rightarrow> (string \<times> json) list \<Rightarrow> json option" where
  "reject_duplicate_keys value [] = Some (JObj value)"
| "reject_duplicate_keys value ((k, v) # kvs) =
     (if k \<in> set (map fst value) then None else reject_duplicate_keys (value @ [(k, v)]) kvs)"

text \<open>
  The scanner, object members from the opening quote of a key, and array elements.  The first
  argument bounds the number of nested calls; each consumes at least one byte of the text, so
  the length of the text is enough.
\<close>

fun scan_value :: "(string \<Rightarrow> json option) \<Rightarrow> nat \<Rightarrow> string \<Rightarrow> (json \<times> string) option"
  and scan_members :: "(string \<Rightarrow> json option) \<Rightarrow> nat \<Rightarrow> string \<Rightarrow> ((string \<times> json) list \<times> string) option"
  and scan_elements :: "(string \<Rightarrow> json option) \<Rightarrow> nat \<Rightarrow> string \<Rightarrow> (json list \<times> string) option" where
  "scan_value h 0 s = None"
| "scan_value h (Suc n) [] = None"
| "scan_value h (Suc n) (c # s) =
     (if c = CHR 0x22 then map_option (\<lambda>(t, r). (JStr t, r)) (scan_string s)
      else if c = CHR ''{'' then
        (case expect (CHR ''}'') (skip_space s) of
           Some r \<Rightarrow> Some (JObj [], r)
         | None \<Rightarrow> do {
             (kvs, r) \<leftarrow> scan_members h n (skip_space s);
             v \<leftarrow> reject_duplicate_keys [] kvs;
             Some (v, r)
           })
      else if c = CHR ''['' then
        (case expect (CHR '']'') (skip_space s) of
           Some r \<Rightarrow> Some (JArr [], r)
         | None \<Rightarrow> map_option (\<lambda>(xs, r). (JArr xs, r)) (scan_elements h n (skip_space s)))
      else if c = CHR ''n'' then scan_word ''null'' JNull (c # s)
      else if c = CHR ''t'' then scan_word ''true'' (JBool True) (c # s)
      else if c = CHR ''f'' then scan_word ''false'' (JBool False) (c # s)
      else scan_number h (c # s))"
| "scan_members h 0 s = None"
| "scan_members h (Suc n) s = do {
     s1 \<leftarrow> expect (CHR 0x22) s;
     (k, s2) \<leftarrow> scan_string s1;
     s3 \<leftarrow> expect (CHR '':'') (skip_space s2);
     (v, s4) \<leftarrow> scan_value h n (skip_space s3);
     (case expect (CHR ''}'') (skip_space s4) of
        Some r \<Rightarrow> Some ([(k, v)], r)
      | None \<Rightarrow> do {
          s5 \<leftarrow> expect (CHR '','') (skip_space s4);
          (kvs, r) \<leftarrow> scan_members h n (skip_space s5);
          Some ((k, v) # kvs, r)
        })
   }"
| "scan_elements h 0 s = None"
| "scan_elements h (Suc n) s = do {
     (v, s1) \<leftarrow> scan_value h n s;
     (case expect (CHR '']'') (skip_space s1) of
        Some r \<Rightarrow> Some ([v], r)
      | None \<Rightarrow> do {
          s2 \<leftarrow> expect (CHR '','') (skip_space s1);
          (vs, r) \<leftarrow> scan_elements h n (skip_space s2);
          Some (v # vs, r)
        })
   }"

definition scan_text :: "(string \<Rightarrow> json option) \<Rightarrow> string \<Rightarrow> json option" where
  "scan_text h s = do {
     (v, r) \<leftarrow> scan_value h (Suc (length s)) (skip_space s);
     if skip_space r = [] then Some v else None
   }"

text \<open>\<open>_text\<close>: strict UTF-8 without a byte order mark.\<close>

definition text_ok :: "string \<Rightarrow> bool" where
  "text_ok s \<longleftrightarrow> utf8_ok s \<and> \<not> starts_with_bom s"

definition loads :: "(string \<Rightarrow> json option) \<Rightarrow> string \<Rightarrow> json option" where
  "loads h raw = (if text_ok raw then scan_text h raw else None)"

section \<open>JSON Lines\<close>

text \<open>\<open>body.split("\n")\<close>.\<close>

fun split_lines :: "string \<Rightarrow> string list" where
  "split_lines [] = [[]]"
| "split_lines (c # s) =
     (if c = CHR 0x0A then [] # split_lines s
      else (case split_lines s of [] \<Rightarrow> [[c]] | l # ls \<Rightarrow> (c # l) # ls))"

fun loads_all :: "(string \<Rightarrow> json option) \<Rightarrow> string list \<Rightarrow> json list option" where
  "loads_all h [] = Some []"
| "loads_all h (l # ls) = do {
     v \<leftarrow> loads h l;
     vs \<leftarrow> loads_all h ls;
     Some (v # vs)
   }"

definition record_lines :: "string \<Rightarrow> string list" where
  "record_lines s =
     (if s = [] then [] else split_lines (if last s = CHR 0x0A then butlast s else s))"

definition load_jsonl :: "(string \<Rightarrow> json option) \<Rightarrow> bool \<Rightarrow> bool \<Rightarrow> string \<Rightarrow> json list option" where
  "load_jsonl h require_nonempty require_final_newline raw =
     (if \<not> text_ok raw then None
      else if raw \<noteq> [] \<and> require_final_newline \<and> last raw \<noteq> CHR 0x0A then None
      else if CHR 0x0D \<in> set raw then None
      else if [] \<in> set (record_lines raw) then None
      else if require_nonempty \<and> record_lines raw = [] then None
      else loads_all h (record_lines raw))"

definition canonical_jsonl :: "json list \<Rightarrow> string" where
  "canonical_jsonl vs = concat (map (\<lambda>v. canonical_bytes v @ [CHR 0x0A]) vs)"

end
