(* ===== verification/Ledger.thy ===== *)
theory Ledger
  imports Decode Herdr Json_Parse
begin

text \<open>
  The event-sourced ledger of scripts/fleet_mission_state.py: the envelope of an event and its
  hash chain (\<open>_validate_event\<close>, \<open>_events_from_bytes\<close>), the fold of the reducer over the
  events (\<open>derive_state\<close>), \<open>verify_events\<close> and \<open>resume_plan\<close>.
\<close>

section \<open>Folding a fallible step\<close>

fun fold_result :: "('s \<Rightarrow> 'e \<Rightarrow> 's result) \<Rightarrow> 's \<Rightarrow> 'e list \<Rightarrow> 's result" where
  "fold_result step s [] = Inr s"
| "fold_result step s (e # es) = (case step s e of Inl x \<Rightarrow> Inl x | Inr s' \<Rightarrow> fold_result step s' es)"

lemma fold_result_append:
  "fold_result step s (es @ fs) =
     (case fold_result step s es of Inl x \<Rightarrow> Inl x | Inr s' \<Rightarrow> fold_result step s' fs)"
  by (induction es arbitrary: s) (auto split: sum.splits)

lemma fold_result_append_ok [simp]:
  "fold_result step s (es @ fs) = Inr u \<longleftrightarrow>
     (\<exists>s'. fold_result step s es = Inr s' \<and> fold_result step s' fs = Inr u)"
  by (auto simp: fold_result_append split: sum.splits)

lemma fold_result_cong:
  assumes "\<And>s e. e \<in> set es \<Longrightarrow> step s e = step' s e"
  shows "fold_result step s es = fold_result step' s es"
  using assms by (induction es arbitrary: s) (auto split: sum.splits)

text \<open>
  What the reducers rely on when they say that a property of the state survives the whole
  ledger: it is enough that one step keeps it.
\<close>

locale preserved =
  fixes step :: "'s \<Rightarrow> 'e \<Rightarrow> 's result"
    and inv :: "'s \<Rightarrow> bool"
  assumes step_inv: "inv s \<Longrightarrow> step s e = Inr s' \<Longrightarrow> inv s'"
begin

lemma fold_inv: "inv s \<Longrightarrow> fold_result step s es = Inr s' \<Longrightarrow> inv s'"
  by (induction es arbitrary: s) (auto simp: guard_simps intro: step_inv split: sum.splits)

end

text \<open>The same for a relation between the state before and the states after.\<close>

locale monotone_step =
  fixes step :: "'s \<Rightarrow> 'e \<Rightarrow> 's result"
    and rel :: "'s \<Rightarrow> 's \<Rightarrow> bool"
  assumes rel_refl: "rel s s"
    and rel_trans: "rel a b \<Longrightarrow> rel b c \<Longrightarrow> rel a c"
    and step_rel: "step s e = Inr s' \<Longrightarrow> rel s s'"
begin

lemma fold_rel: "fold_result step s es = Inr s' \<Longrightarrow> rel s s'"
  by (induction es arbitrary: s) (auto simp: rel_refl intro: rel_trans step_rel split: sum.splits)

end

section \<open>Events\<close>

record event =
  e_id :: string
  e_mission :: string
  e_sequence :: int
  e_time :: string
  e_kind :: string
  e_actor :: string
  e_key :: string
  e_payload :: json
  e_previous :: string
  e_sha :: string

definition event_fields :: "string list" where
  "event_fields =
     [''schema_version'', ''event_id'', ''mission_id'', ''sequence'', ''timestamp'', ''kind'', ''actor'',
      ''idempotency_key'', ''payload'', ''previous_event_sha256'', ''event_sha256'']"

text \<open>The members of an event without its own digest (\<open>unsigned\<close>), and with it.\<close>

definition unsigned_items :: "event \<Rightarrow> (string \<times> json) list" where
  "unsigned_items e =
     [(''schema_version'', JInt 1), (''event_id'', JStr (e_id e)), (''mission_id'', JStr (e_mission e)),
      (''sequence'', JInt (e_sequence e)), (''timestamp'', JStr (e_time e)), (''kind'', JStr (e_kind e)),
      (''actor'', JStr (e_actor e)), (''idempotency_key'', JStr (e_key e)), (''payload'', e_payload e),
      (''previous_event_sha256'', JStr (e_previous e))]"

definition unsigned_json :: "event \<Rightarrow> json" where
  "unsigned_json e = JObj (unsigned_items e)"

definition event_json :: "event \<Rightarrow> json" where
  "event_json e = JObj (unsigned_items e @ [(''event_sha256'', JStr (e_sha e))])"

definition event_of :: "json \<Rightarrow> event" where
  "event_of j =
     \<lparr>e_id = sget j ''event_id'', e_mission = sget j ''mission_id'', e_sequence = iget j ''sequence'',
      e_time = sget j ''timestamp'', e_kind = sget j ''kind'', e_actor = sget j ''actor'',
      e_key = sget j ''idempotency_key'', e_payload = field j ''payload'',
      e_previous = sget j ''previous_event_sha256'', e_sha = sget j ''event_sha256''\<rparr>"

definition meta_of :: "event \<Rightarrow> meta" where
  "meta_of e =
     \<lparr>m_sequence = e_sequence e, m_time = e_time e, m_actor = e_actor e, m_key = e_key e,
      m_previous = e_previous e, m_sha = e_sha e\<rparr>"

section \<open>Validation of one event\<close>

definition valid_envelope :: "string \<Rightarrow> json \<Rightarrow> bool" where
  "valid_envelope mission j \<longleftrightarrow>
     has_exactly j event_fields \<and> field j ''schema_version'' = JInt 1
     \<and> v_uuid (field j ''event_id'') \<and> v_uuid (field j ''mission_id'') \<and> sget j ''mission_id'' = mission"

text \<open>Sequence, time and digest follow the previous event.\<close>

definition next_sequence :: "event option \<Rightarrow> int" where
  "next_sequence previous = (case previous of None \<Rightarrow> 1 | Some q \<Rightarrow> e_sequence q + 1)"

definition later :: "prims \<Rightarrow> event option \<Rightarrow> string \<Rightarrow> bool" where
  "later E previous t \<longleftrightarrow>
     (case previous of
        None \<Rightarrow> True
      | Some q \<Rightarrow> instant E (e_time q) < instant E t)"

definition head_of :: "event option \<Rightarrow> string" where
  "head_of previous = (case previous of None \<Rightarrow> genesis_sha256 | Some q \<Rightarrow> e_sha q)"

definition valid_position :: "prims \<Rightarrow> event option \<Rightarrow> json \<Rightarrow> bool" where
  "valid_position E previous j \<longleftrightarrow>
     field j ''sequence'' = JInt (next_sequence previous)
     \<and> v_time E (field j ''timestamp'') \<and> later E previous (sget j ''timestamp'')"

definition valid_request_names :: "json \<Rightarrow> bool" where
  "valid_request_names j \<longleftrightarrow>
     is_str (field j ''kind'') \<and> safe_kind (sget j ''kind'')
     \<and> is_str (field j ''actor'') \<and> safe_actor (sget j ''actor'')
     \<and> is_str (field j ''idempotency_key'') \<and> safe_key (sget j ''idempotency_key'')"

definition without :: "string \<Rightarrow> json \<Rightarrow> json" where
  "without k j = JObj (filter (\<lambda>(k', v). k' \<noteq> k) (obj_items j))"

definition valid_digests :: "prims \<Rightarrow> event option \<Rightarrow> json \<Rightarrow> bool" where
  "valid_digests E previous j \<longleftrightarrow>
     field j ''previous_event_sha256'' = JStr (head_of previous) \<and> v_sha (field j ''event_sha256'')
     \<and> sha256 E (without ''event_sha256'' j) = sget j ''event_sha256''"

definition decision_identity :: "prims \<Rightarrow> string \<Rightarrow> json \<Rightarrow> bool" where
  "decision_identity E mission j \<longleftrightarrow>
     (sget j ''kind'' = ''human_decision_requested'' \<longrightarrow>
        sget (field j ''payload'') ''decision_id'' = decision_uuid E mission (sget j ''idempotency_key''))"

definition validate_event :: "prims \<Rightarrow> string \<Rightarrow> event option \<Rightarrow> json \<Rightarrow> unit result" where
  "validate_event E mission previous j = all_checks
     [check (is_obj j), check (valid_envelope mission j), check (valid_position E previous j),
      check (valid_request_names j), check (valid_digests E previous j),
      validate_payload E (sget j ''kind'') (field j ''payload''), check (decision_identity E mission j)]"

section \<open>Reading a ledger\<close>

text \<open>
  The loop of \<open>_events_from_bytes\<close> over the parsed records: every record is validated against
  the event before it.
\<close>

fun validate_chain :: "prims \<Rightarrow> string \<Rightarrow> event option \<Rightarrow> json list \<Rightarrow> event list result" where
  "validate_chain E mission previous [] = Inr []"
| "validate_chain E mission previous (j # js) =
     (case validate_event E mission previous j of
        Inl x \<Rightarrow> Inl x
      | Inr _ \<Rightarrow>
          (case validate_chain E mission (Some (event_of j)) js of
             Inl x \<Rightarrow> Inl x
           | Inr es \<Rightarrow> Inr (event_of j # es)))"

definition load_records :: "prims \<Rightarrow> string \<Rightarrow> bool \<Rightarrow> json list \<Rightarrow> event list result" where
  "load_records E mission require_nonempty js =
     (case validate_chain E mission None js of
        Inl x \<Rightarrow> Inl x
      | Inr es \<Rightarrow> if require_nonempty \<and> es = [] then Inl MissionStateError else Inr es)"

text \<open>
  The mission that unattributed records belong to: the one the first record names.  A record
  that is no object has no \<open>get\<close>.
\<close>

definition first_mission :: "json list \<Rightarrow> string result" where
  "first_mission js =
     (case js of
        [] \<Rightarrow> Inr []
      | j # _ \<Rightarrow> if is_obj j then normalize_uuid (sget j ''mission_id'') else Inl AttributeError)"

text \<open>
  \<open>_events_from_bytes\<close>: the bytes of a ledger are whole lines of canonical JSON, and their
  records validate.
\<close>

definition events_from_bytes :: "prims \<Rightarrow> string option \<Rightarrow> bool \<Rightarrow> string \<Rightarrow> event list result" where
  "events_from_bytes E expected require_nonempty content =
     (if content \<noteq> [] \<and> last content \<noteq> CHR 0x0A then Inl MissionStateError
      else
        (case load_jsonl (parse_float E) require_nonempty True content of
           None \<Rightarrow> Inl MissionStateError
         | Some parsed \<Rightarrow>
             if content \<noteq> canonical_jsonl parsed then Inl MissionStateError
             else
               (case (case expected of None \<Rightarrow> first_mission parsed | Some mission \<Rightarrow> Inr mission) of
                  Inl x \<Rightarrow> Inl x
                | Inr mission \<Rightarrow> load_records E mission require_nonempty parsed)))"

section \<open>The reducer\<close>

text \<open>\<open>events[: n]\<close>; a negative bound counts from the end.\<close>

definition py_prefix :: "int \<Rightarrow> 'a list \<Rightarrow> 'a list" where
  "py_prefix n xs = take (nat (if n < 0 then int (length xs) + n else n)) xs"

text \<open>The digest of the last assurance request before the event with this sequence.\<close>

definition last_request :: "event list \<Rightarrow> int \<Rightarrow> string option" where
  "last_request events sequence =
     map_option e_sha (find (\<lambda>e. e_kind e = ''assurance_requested'') (rev (py_prefix (sequence - 1) events)))"

text \<open>One branch of the reducer; \<open>last\<close> is the last assurance request.\<close>

fun reduce :: "prims \<Rightarrow> mission \<Rightarrow> meta \<Rightarrow> string option \<Rightarrow> payload \<Rightarrow> mission result" where
  "reduce E s m lr (Lifecycle e) = reduce_lifecycle E s m lr e"
| "reduce E s m lr (Admission e) =
     (case reduce_admission E s m e of Inl x \<Rightarrow> Inl x | Inr t \<Rightarrow> Inr (s\<lparr>x_admissions := t\<rparr>))"
| "reduce E s m lr (Run e) =
     (case reduce_run s m e of Inl x \<Rightarrow> Inl x | Inr t \<Rightarrow> Inr (s\<lparr>x_admissions := t\<rparr>))"
| "reduce E s m lr (Decision e) =
     (case reduce_decision E s m e of Inl x \<Rightarrow> Inl x | Inr d \<Rightarrow> Inr (s\<lparr>x_decisions := d\<rparr>))"
| "reduce E s m lr (Herdr e) =
     (case reduce_herdr E s m e of Inl x \<Rightarrow> Inl x | Inr h \<Rightarrow> Inr (s\<lparr>x_herdr := h\<rparr>))"
| "reduce E s m lr Inert = Inr s"

definition counted :: "meta \<Rightarrow> mission \<Rightarrow> mission" where
  "counted m s = s\<lparr>x_sequence := m_sequence m, x_head := m_sha m\<rparr>"

text \<open>The loop state of \<open>derive_state\<close>: the mission, \<open>terminal_seen\<close> and \<open>idempotency_keys\<close>.\<close>

record derivation =
  v_state :: mission
  v_terminal :: bool
  v_keys :: "string list"

definition derive_step :: "prims \<Rightarrow> event list \<Rightarrow> derivation \<Rightarrow> event \<Rightarrow> derivation result" where
  "derive_step E events v e =
     (if e_key e \<in> set (v_keys v) then Inl MissionStateError
      else if v_terminal v then Inl MissionStateError
      else
     (case validate_payload E (e_kind e) (e_payload e) of
        Inl x \<Rightarrow> Inl x
      | Inr _ \<Rightarrow>
     (case reduce E (v_state v) (meta_of e) (last_request events (e_sequence e))
             (decode_payload (e_kind e) (e_payload e)) of
        Inl x \<Rightarrow> Inl x
      | Inr s \<Rightarrow>
          Inr \<lparr>v_state = counted (meta_of e) s, v_terminal = (e_kind e = ''mission_terminal''),
               v_keys = e_key e # v_keys v\<rparr>)))"

definition start_derivation :: "event \<Rightarrow> derivation" where
  "start_derivation e =
     \<lparr>v_state = initial_state (e_mission e) (created_of (e_payload e)), v_terminal = False, v_keys = []\<rparr>"

definition derive :: "prims \<Rightarrow> event list \<Rightarrow> derivation result" where
  "derive E events =
     (case events of
        [] \<Rightarrow> Inl MissionStateError
      | e # es \<Rightarrow>
          if e_kind e \<noteq> ''mission_created'' then Inl MissionStateError
          else
            (case validate_payload E ''mission_created'' (e_payload e) of
               Inl x \<Rightarrow> Inl x
             | Inr _ \<Rightarrow> fold_result (derive_step E events) (start_derivation e) events))"

definition derive_state :: "prims \<Rightarrow> event list \<Rightarrow> mission result" where
  "derive_state E events =
     (case derive E events of Inl x \<Rightarrow> Inl x | Inr v \<Rightarrow> Inr (v_state v))"

section \<open>Verification and resumption\<close>

record verification =
  ve_mission :: string
  ve_events :: nat
  ve_head :: string
  ve_status :: status

definition verify_events :: "prims \<Rightarrow> event list \<Rightarrow> verification result" where
  "verify_events E events =
     (if events = [] then Inl MissionStateError
      else
        (case derive_state E events of
           Inl x \<Rightarrow> Inl x
         | Inr s \<Rightarrow> Inr \<lparr>ve_mission = e_mission (hd events), ve_events = length events,
                          ve_head = e_sha (last events), ve_status = x_status s\<rparr>))"

fun next_action :: "status \<Rightarrow> bool \<Rightarrow> string" where
  "next_action Created lead = ''compile''"
| "next_action Compiled lead = ''boot''"
| "next_action Booting lead = ''reconcile_boot''"
| "next_action Running lead = (if lead then ''reconcile_lead'' else ''dispatch_lead'')"
| "next_action Awaiting_assurance lead = ''await_human''"
| "next_action Assurance_ok lead = ''boot_assured''"
| "next_action Assured_booting lead = ''reconcile_assured_boot''"
| "next_action Assured_running lead = ''reconcile_assurance''"
| "next_action Completing lead = ''archive''"
| "next_action Archived lead = ''mark_succeeded''"
| "next_action (Ended _) lead = ''none''"

record plan =
  pl_mission :: string
  pl_status :: status
  pl_action :: string
  pl_sequence :: int
  pl_head :: string

definition resume_plan :: "mission \<Rightarrow> plan" where
  "resume_plan s =
     \<lparr>pl_mission = x_id s, pl_status = x_status s,
      pl_action = next_action (x_status s) (s_lead_run (x_admissions s) \<noteq> None),
      pl_sequence = x_sequence s, pl_head = x_head s\<rparr>"

end
