(* ===== verification/Transaction.thy ===== *)
theory Transaction
  imports Ledger
begin

text \<open>
  Appending to a ledger (\<open>_normalized_event_request\<close>, the append-schema guards and
  \<open>MissionTransaction.append_events\<close> of scripts/fleet_mission_state.py): replay of known
  idempotency keys, construction of the new events, validation, derivation of the prospective
  ledger and publication of its bytes.
\<close>

section \<open>Requests\<close>

record request =
  q_kind :: string
  q_actor :: string
  q_key :: string
  q_payload :: json

definition normalize_event_request :: "prims \<Rightarrow> json \<Rightarrow> request result" where
  "normalize_event_request E j =
     (case all_checks
        [check (is_obj j \<and> has_exactly j [''kind'', ''actor'', ''idempotency_key'', ''payload'']),
         check (valid_request_names j),
         validate_payload E (sget j ''kind'') (canonical_copy (field j ''payload''))] of
        Inl x \<Rightarrow> Inl x
      | Inr _ \<Rightarrow>
          Inr \<lparr>q_kind = sget j ''kind'', q_actor = sget j ''actor'', q_key = sget j ''idempotency_key'',
               q_payload = canonical_copy (field j ''payload'')\<rparr>)"

fun normalize_requests :: "prims \<Rightarrow> json list \<Rightarrow> request list result" where
  "normalize_requests E [] = Inr []"
| "normalize_requests E (j # js) =
     (case normalize_event_request E j of
        Inl x \<Rightarrow> Inl x
      | Inr q \<Rightarrow> (case normalize_requests E js of Inl x \<Rightarrow> Inl x | Inr qs \<Rightarrow> Inr (q # qs)))"

section \<open>Historical schemas are read-only\<close>

definition legacy_admission_request :: "request \<Rightarrow> bool" where
  "legacy_admission_request q \<longleftrightarrow>
     (let p = q_payload q; kind = q_kind q in
      if kind = ''delegations_reserved'' then
        \<not> has_field p ''request_sha256''
        \<or> list_ex (\<lambda>x. \<not> has_field x ''effect_sha256'' \<or> \<not> has_field x ''task_sha256'')
             (arr_of (field p ''admissions''))
      else if kind = ''delegation_committed'' then \<not> has_field p ''effect_sha256''
      else if kind = ''delegation_launch_authorized'' then \<not> has_field p ''approval_event_sha256''
      else if kind = ''delegation_started'' then \<not> has_field p ''authorization_event_sha256''
      else if kind = ''delegation_finalized'' then
        \<not> has_field p ''terminal_evidence_sha256'' \<or> \<not> has_field p ''terminal_evidence''
      else if kind = ''delegation_reservation_aborted'' then \<not> has_field p ''run_id''
      else False)"

definition require_admission_schema :: "request \<Rightarrow> unit result" where
  "require_admission_schema q = require (\<not> legacy_admission_request q) MissionConflict"

definition require_authority_schema :: "request \<Rightarrow> unit result" where
  "require_authority_schema q =
     (if (q_kind q = ''assurance_approved'' \<or> q_kind q = ''assurance_approval_renewed'')
         \<and> q_actor q \<noteq> ''HUMAN'' then Inl MissionConflict
      else if q_kind q = ''assurance_approved'' \<and> \<not> has_field (q_payload q) ''expires_in_seconds''
        then Inl MissionConflict
      else Inr ())"

section \<open>The transaction\<close>

text \<open>
  What an open transaction holds: the events it has read, the state derived from them (None for
  an absent ledger) and the bytes of the ledger.
\<close>

record txn =
  tx_mission :: string
  tx_events :: "event list"
  tx_state :: "mission option"
  tx_content :: string

text \<open>
  What the operating system supplies to one append: whether the transaction is a read-only
  snapshot, the clock and the random identity of the n-th new event, and whether the publication
  of the new bytes succeeds.
\<close>

record world =
  w_read_only :: bool
  w_clock :: "nat \<Rightarrow> int"
  w_fresh :: "nat \<Rightarrow> string"
  w_publishes :: bool

definition next_timestamp :: "prims \<Rightarrow> int \<Rightarrow> event option \<Rightarrow> string" where
  "next_timestamp E now previous =
     format_iso E
       (case previous of None \<Rightarrow> now | Some q \<Rightarrow> max now (instant E (e_time q) + 1))"

text \<open>A new event, sealed with the digest of its other members.\<close>

definition seal :: "prims \<Rightarrow> event \<Rightarrow> event" where
  "seal E e = e\<lparr>e_sha := sha256 E (unsigned_json e)\<rparr>"

definition new_event :: "prims \<Rightarrow> world \<Rightarrow> txn \<Rightarrow> nat \<Rightarrow> event option \<Rightarrow> request \<Rightarrow> event" where
  "new_event E w t n prior q = seal E
     \<lparr>e_id = w_fresh w n, e_mission = tx_mission t,
      e_sequence = int (length (tx_events t)) + int n + 1,
      e_time = next_timestamp E (w_clock w n) prior, e_kind = q_kind q, e_actor = q_actor q,
      e_key = q_key q, e_payload = q_payload q, e_previous = head_of prior, e_sha = []\<rparr>"

definition same_request :: "event \<Rightarrow> request \<Rightarrow> bool" where
  "same_request e q \<longleftrightarrow>
     e_kind e = q_kind q \<and> e_actor e = q_actor q \<and> py_eq (e_payload e) (q_payload q)"

fun ended :: "status \<Rightarrow> bool" where
  "ended (Ended _) = True"
| "ended _ = False"

text \<open>
  The loop over the requests.  \<open>known\<close> is the dictionary from idempotency key to event,
  \<open>new\<close> the events built so far, \<open>prior\<close> the last event of the prospective ledger.
\<close>

definition admit_request ::
  "prims \<Rightarrow> world \<Rightarrow> txn \<Rightarrow> event list \<Rightarrow> event option \<Rightarrow> request \<Rightarrow> event result" where
  "admit_request E w t new prior q =
     (case require_admission_schema q of
        Inl x \<Rightarrow> Inl x
      | Inr _ \<Rightarrow>
     (case require_authority_schema q of
        Inl x \<Rightarrow> Inl x
      | Inr _ \<Rightarrow>
          if (case tx_state t of None \<Rightarrow> False | Some s \<Rightarrow> ended (x_status s)) then Inl MissionConflict
          else
            (let e = new_event E w t (length new) prior q in
             case validate_event E (tx_mission t) prior (event_json e) of
               Inl x \<Rightarrow> Inl x
             | Inr _ \<Rightarrow> Inr e)))"

fun append_loop ::
  "prims \<Rightarrow> world \<Rightarrow> txn \<Rightarrow> (string \<times> event) list \<Rightarrow> event list \<Rightarrow> event option \<Rightarrow> request list
   \<Rightarrow> ((event \<times> bool) list \<times> event list) result" where
  "append_loop E w t known new prior [] = Inr ([], new)"
| "append_loop E w t known new prior (q # qs) =
     (case map_of known (q_key q) of
        Some old \<Rightarrow>
          if \<not> same_request old q then Inl MissionConflict
          else
            (case append_loop E w t known new prior qs of
               Inl x \<Rightarrow> Inl x
             | Inr (rs, es) \<Rightarrow> Inr ((old, False) # rs, es))
      | None \<Rightarrow>
          (case admit_request E w t new prior q of
             Inl x \<Rightarrow> Inl x
           | Inr e \<Rightarrow>
               (case append_loop E w t ((q_key q, e) # known) (new @ [e]) (Some e) qs of
                  Inl x \<Rightarrow> Inl x
                | Inr (rs, es) \<Rightarrow> Inr ((e, True) # rs, es))))"

definition by_key :: "event list \<Rightarrow> (string \<times> event) list" where
  "by_key es = map (\<lambda>e. (e_key e, e)) (rev es)"

definition last_event :: "event list \<Rightarrow> event option" where
  "last_event es = (if es = [] then None else Some (last es))"

definition append_normalized ::
  "prims \<Rightarrow> world \<Rightarrow> txn \<Rightarrow> request list \<Rightarrow> ((event \<times> bool) list \<times> txn) result" where
  "append_normalized E w t qs =
     (case append_loop E w t (by_key (tx_events t)) [] (last_event (tx_events t)) qs of
        Inl x \<Rightarrow> Inl x
      | Inr (rs, new) \<Rightarrow>
          if new = [] then Inr (rs, t)
          else
            (case derive_state E (tx_events t @ new) of
               Inl x \<Rightarrow> Inl x
             | Inr s \<Rightarrow>
                 if \<not> w_publishes w then Inl MissionStateError
                 else Inr (rs, t\<lparr>tx_events := tx_events t @ new, tx_state := Some s,
                                 tx_content := tx_content t @ canonical_jsonl (map event_json new)\<rparr>)))"

definition append_events ::
  "prims \<Rightarrow> world \<Rightarrow> txn \<Rightarrow> json list \<Rightarrow> ((event \<times> bool) list \<times> txn) result" where
  "append_events E w t js =
     (if w_read_only w then Inl MissionConflict
      else
        (case normalize_requests E js of
           Inl x \<Rightarrow> Inl x
         | Inr qs \<Rightarrow> append_normalized E w t qs))"

text \<open>The method \<open>append_event\<close>: one request, checked before the transaction is looked at.\<close>

definition request_json :: "string \<Rightarrow> string \<Rightarrow> string \<Rightarrow> json \<Rightarrow> json" where
  "request_json kind actor key p =
     JObj [(''kind'', JStr kind), (''actor'', JStr actor), (''idempotency_key'', JStr key), (''payload'', p)]"

definition first_result :: "((event \<times> bool) list \<times> txn) result \<Rightarrow> ((event \<times> bool) \<times> txn) result" where
  "first_result r = (case r of Inl x \<Rightarrow> Inl x | Inr (rs, t) \<Rightarrow> Inr (hd rs, t))"

definition append_event ::
  "prims \<Rightarrow> world \<Rightarrow> txn \<Rightarrow> string \<Rightarrow> string \<Rightarrow> string \<Rightarrow> json \<Rightarrow> ((event \<times> bool) \<times> txn) result" where
  "append_event E w t kind actor key p =
     (case normalize_event_request E (request_json kind actor key p) of
        Inl x \<Rightarrow> Inl x
      | Inr q \<Rightarrow> first_result (append_events E w t [request_json kind actor key (q_payload q)]))"

text \<open>
  Opening a transaction on the bytes of a ledger (None where there is no ledger file): the
  records are read and validated, and the state is derived from them before anything is
  appended.
\<close>

definition open_txn :: "prims \<Rightarrow> string \<Rightarrow> string option \<Rightarrow> txn result" where
  "open_txn E mission ledger =
     (case normalize_uuid mission of
        Inl x \<Rightarrow> Inl x
      | Inr mid \<Rightarrow>
          (case ledger of
             None \<Rightarrow> Inr \<lparr>tx_mission = mid, tx_events = [], tx_state = None, tx_content = []\<rparr>
           | Some content \<Rightarrow>
               (case events_from_bytes E (Some mid) True content of
                  Inl x \<Rightarrow> Inl x
                | Inr es \<Rightarrow>
                    (case derive_state E es of
                       Inl x \<Rightarrow> Inl x
                     | Inr s \<Rightarrow> Inr \<lparr>tx_mission = mid, tx_events = es, tx_state = Some s,
                                     tx_content = content\<rparr>))))"

text \<open>
  The functions of the module name their mission and run on the bytes of its ledger:
  \<open>in_transaction\<close> is the \<open>with MissionTransaction(...)\<close> block, whose result carries the
  transaction as it was left.  The requests are checked before the ledger is opened.
\<close>

definition in_transaction ::
  "prims \<Rightarrow> string \<Rightarrow> string option \<Rightarrow> (txn \<Rightarrow> 'a result) \<Rightarrow> 'a result" where
  "in_transaction E mission ledger f =
     (case open_txn E mission ledger of Inl x \<Rightarrow> Inl x | Inr t \<Rightarrow> f t)"

definition ledger_append ::
  "prims \<Rightarrow> world \<Rightarrow> string \<Rightarrow> string option \<Rightarrow> string \<Rightarrow> string \<Rightarrow> string \<Rightarrow> json
   \<Rightarrow> ((event \<times> bool) \<times> txn) result" where
  "ledger_append E w mission ledger kind actor key p =
     (case normalize_event_request E (request_json kind actor key p) of
        Inl x \<Rightarrow> Inl x
      | Inr q \<Rightarrow>
          in_transaction E mission ledger
            (\<lambda>t. first_result (append_events E w t [request_json kind actor key (q_payload q)])))"

definition append_terminal ::
  "prims \<Rightarrow> world \<Rightarrow> string \<Rightarrow> string option \<Rightarrow> string \<Rightarrow> string \<Rightarrow> string \<Rightarrow> string
   \<Rightarrow> ((event \<times> bool) \<times> txn) result" where
  "append_terminal E w mission ledger st reason key actor =
     ledger_append E w mission ledger ''mission_terminal'' actor key
       (JObj [(''status'', JStr st), (''reason'', JStr reason)])"

end
