(* ===== verification/Batch.thy ===== *)
theory Batch
  imports Transaction
begin

text \<open>
  What the loops of the reservation compute: the batch as a map from identities, the state after
  the batch is stored, and the debits as sums.
\<close>

section \<open>A batch as a map\<close>

definition batch_map :: "('a \<Rightarrow> string) \<Rightarrow> 'a list \<Rightarrow> string \<Rightarrow> 'a option" where
  "batch_map key as = map_of (map (\<lambda>a. (key a, a)) as)"

lemma batch_map_Nil [simp]: "batch_map key [] k = None"
  by (simp add: batch_map_def)

lemma batch_map_Cons [simp]:
  "batch_map key (a # as) k = (if key a = k then Some a else batch_map key as k)"
  by (simp add: batch_map_def)

lemma batch_map_None: "batch_map key as k = None \<longleftrightarrow> k \<notin> key ` set as"
  by (induction as) auto

lemma batch_map_outside [simp]: "k \<notin> key ` set as \<Longrightarrow> batch_map key as k = None"
  by (simp add: batch_map_None)

lemma batch_map_SomeD: "batch_map key as k = Some a \<Longrightarrow> a \<in> set as \<and> key a = k"
  by (induction as) (auto split: if_splits)

lemma batch_map_member: "distinct (map key as) \<Longrightarrow> a \<in> set as \<Longrightarrow> batch_map key as (key a) = Some a"
  by (induction as) (auto simp: image_iff)

section \<open>Identities\<close>

definition fresh_admission :: "prims \<Rightarrow> mission \<Rightarrow> admission_request \<Rightarrow> bool" where
  "fresh_admission E s a \<longleftrightarrow>
     (let t = x_admissions s in
      a_id a = admission_uuid E (x_id s) (a_run_kind a) (a_request_key a)
      \<and> a_run_id a = run_uuid E (x_id s) (a_run_kind a) (a_request_key a)
      \<and> a_delegation_id a = delegation_uuid E (x_id s) (a_run_kind a) (a_request_key a)
      \<and> a_request_digest a = sha256 E (request_binding a)
      \<and> \<not> dhas (s_admissions t) (a_id a) \<and> \<not> dhas (s_run_claims t) (a_run_id a)
      \<and> \<not> dhas (s_run_owners t) (a_run_id a) \<and> \<not> dhas (s_recipients t) (a_recipient a)
      \<and> (a_writer a \<longrightarrow> s_writer t = None)
      \<and> (a_run_kind a = Specialist \<longrightarrow> blocking_decisions s (a_recipient a) = []))"

lemma check_admission_iff:
  "check_admission E s ps a = Inr u \<longleftrightarrow> fresh_admission E s a \<and> \<not> dhas ps (a_id a)"
  by (auto simp: check_admission_def fresh_admission_def Let_def)

lemma dhas_dput [simp]: "dhas (dput k v d) k' \<longleftrightarrow> k = k' \<or> dhas d k'"
  by (auto simp: dhas_def)

lemma dhas_dempty [simp]: "\<not> dhas dempty k"
  by (simp add: dhas_def dict.get_empty)

lemma check_admissions_iff:
  "(\<exists>ps'. check_admissions E s ps as = Inr ps') \<longleftrightarrow>
     (\<forall>a \<in> set as. fresh_admission E s a \<and> \<not> dhas ps (a_id a)) \<and> distinct (map a_id as)"
  by (induction as arbitrary: ps)
    (auto simp: check_admission_iff guard_simps split: sum.splits)

lemma check_admissions_lookup:
  "check_admissions E s ps as = Inr ps' \<Longrightarrow>
     dget ps' k = (case batch_map a_id as k of Some a \<Rightarrow> Some a | None \<Rightarrow> dget ps k)"
proof (induction as arbitrary: ps)
  case (Cons a as)
  from Cons.prems have ok: "check_admissions E s (dput (a_id a) a ps) as = Inr ps'"
    by (auto simp: guard_simps)
  then have "\<forall>b \<in> set as. a_id b \<noteq> a_id a"
    using check_admissions_iff [of E s "dput (a_id a) a ps" as] by auto
  then have "batch_map a_id as (a_id a) = None"
    by (auto simp: batch_map_None)
  then show ?case
    using Cons.IH [OF ok] by (auto split: option.splits)
qed simp

section \<open>Debits\<close>

text \<open>What the debit of one admission establishes.\<close>

definition parent_present :: "admission_request dict \<Rightarrow> admission dict \<Rightarrow> admission_request \<Rightarrow> bool" where
  "parent_present ps stored a \<longleftrightarrow>
     (\<forall>k. a_parent a = Some k \<longrightarrow>
        (case find_parent ps stored (Some k) of None \<Rightarrow> False | Some q \<Rightarrow> \<not> idle_parent q))"

lemma check_parent_idle: "check_parent t lane q a = Inr u \<Longrightarrow> \<not> idle_parent q"
  by (auto simp: check_parent_def split: if_splits)

lemma debit_lead_ok:
  "debit_lead a = Inr d \<longleftrightarrow> d = No_debit \<and> a_parent a = None \<and> a_parent_run a = None \<and> a_budget a = 0
     \<and> a_cost a = 0 \<and> a_global_debit a = 0 \<and> a_parent_debit a = 0"
  by (auto simp: debit_lead_def)

lemma debit_child_ok:
  "debit_child t lane pid q a = Inr d \<longleftrightarrow> check_parent t lane q a = Inr () \<and> d = Parent_debit pid (a_cost a)
     \<and> a_global_debit a = 0 \<and> a_parent_debit a = a_cost a"
  by (auto simp: debit_child_def guard_simps)

lemma debit_root_ok:
  "debit_root t lane p a = Inr d \<longleftrightarrow> check_root t lane p a = Inr () \<and> d = Global_debit (a_cost a)
     \<and> a_global_debit a = a_cost a \<and> a_parent_debit a = 0"
  by (auto simp: debit_root_def guard_simps)

lemma check_root_parent:
  "check_root t lane p a = Inr u \<Longrightarrow> a_parent a \<noteq> None \<Longrightarrow> \<exists>q. p = Some q \<and> \<not> idle_parent q"
  by (cases p) (auto simp: check_root_def guard_simps dest: check_parent_idle)

fun global_part :: "debit \<Rightarrow> int" where
  "global_part (Global_debit c) = c"
| "global_part _ = 0"

fun parent_part :: "string \<Rightarrow> debit \<Rightarrow> int" where
  "parent_part k (Parent_debit pid c) = (if k = pid then c else 0)"
| "parent_part k _ = 0"

lemma dget0_dput [simp]: "dget0 (dput k c d) k' = (if k = k' then c else dget0 d k')"
  by (simp add: dget0_def)

lemma dget0_dempty [simp]: "dget0 dempty k = 0"
  by (simp add: dget0_def dict.get_empty)

lemma add_debit_parts:
  "add_debit d (g, ps) = (g', ps') \<Longrightarrow> g' = g + global_part d \<and> dget0 ps' k = dget0 ps k + parent_part k d"
  by (cases d) auto

definition parent_share :: "string \<Rightarrow> 'a admission_request_scheme \<Rightarrow> int" where
  "parent_share k a = (if a_parent a = Some k then a_parent_debit a else 0)"

lemma debit_of_ok:
  assumes "debit_of t lane ps a = Inr d"
  shows "global_part d = a_global_debit a" and "parent_part k d = parent_share k a"
    and "parent_present ps (s_admissions t) a"
    and "a_run_kind a = Specialist \<Longrightarrow> a_cost a = 1 + a_budget a \<and> a_global_debit a + a_parent_debit a = a_cost a"
proof -
  show "global_part d = a_global_debit a"
    using assms by (auto simp: debit_of_def Let_def debit_lead_ok debit_child_ok debit_root_ok
        split: if_splits option.splits)
  show "parent_part k d = parent_share k a"
    using assms by (auto simp: debit_of_def Let_def debit_lead_ok debit_child_ok debit_root_ok parent_share_def
        find_parent_def split: if_splits option.splits)
  show "a_run_kind a = Specialist \<Longrightarrow> a_cost a = 1 + a_budget a \<and> a_global_debit a + a_parent_debit a = a_cost a"
    using assms by (auto simp: debit_of_def Let_def debit_child_ok debit_root_ok split: if_splits option.splits)
  show "parent_present ps (s_admissions t) a"
    unfolding parent_present_def
  proof (intro allI impI)
    fix k assume k: "a_parent a = Some k"
    then have "a_run_kind a \<noteq> Lead"
      using assms by (auto simp: debit_of_def debit_lead_ok)
    then show "case find_parent ps (s_admissions t) (Some k) of None \<Rightarrow> False | Some q \<Rightarrow> \<not> idle_parent q"
      using assms k check_root_parent [of t lane "find_parent ps (s_admissions t) (a_parent a)" a]
      by (auto simp: debit_of_def Let_def debit_child_ok debit_root_ok
          split: if_splits option.splits dest: check_parent_idle)
  qed
qed

lemma debits_ConsD:
  assumes "debits t lane ps (a # as) (g0, d0) = Inr r"
  obtains x g1 d1 where "debit_of t lane ps a = Inr x" and "add_debit x (g0, d0) = (g1, d1)"
    and "debits t lane ps as (g1, d1) = Inr r"
proof -
  from assms obtain x where x: "debit_of t lane ps a = Inr x"
    and rest: "debits t lane ps as (add_debit x (g0, d0)) = Inr r"
    by (auto simp: guard_simps)
  obtain g1 d1 where "add_debit x (g0, d0) = (g1, d1)" by fastforce
  with x rest that show thesis by simp
qed

lemma debits_sums:
  "debits t lane ps as (g0, d0) = Inr (g, d) \<Longrightarrow>
     g = g0 + (\<Sum>a \<leftarrow> as. a_global_debit a) \<and> dget0 d k = dget0 d0 k + (\<Sum>a \<leftarrow> as. parent_share k a)"
proof (induction as arbitrary: g0 d0)
  case (Cons a as)
  from Cons.prems obtain x g1 d1 where x: "debit_of t lane ps a = Inr x" "add_debit x (g0, d0) = (g1, d1)"
    and rest: "debits t lane ps as (g1, d1) = Inr (g, d)"
    by (rule debits_ConsD)
  show ?case
    using Cons.IH [OF rest] add_debit_parts [OF x(2), of k] debit_of_ok(1) [OF x(1)]
      debit_of_ok(2) [OF x(1), of k] by simp
qed simp

definition priced :: "'a admission_request_scheme \<Rightarrow> bool" where
  "priced a \<longleftrightarrow> (a_run_kind a = Specialist \<longrightarrow>
     a_cost a = 1 + a_budget a \<and> a_global_debit a + a_parent_debit a = a_cost a)"

lemma debits_each:
  "debits t lane ps as acc = Inr r \<Longrightarrow> \<forall>a \<in> set as. parent_present ps (s_admissions t) a \<and> priced a"
proof (induction as arbitrary: acc)
  case (Cons a as)
  from Cons.prems obtain x where x: "debit_of t lane ps a = Inr x"
    and rest: "debits t lane ps as (add_debit x acc) = Inr r"
    by (auto simp: guard_simps)
  from Cons.IH [OF rest] debit_of_ok(3,4) [OF x] show ?case
    by (simp add: priced_def)
qed simp

section \<open>Charging the parents\<close>

definition charge :: "int \<Rightarrow> admission \<Rightarrow> admission" where
  "charge c p = p\<lparr>a_child_spent := a_child_spent p + c\<rparr>"

lemma charge_parents_lookup:
  "distinct (map fst kcs) \<Longrightarrow>
     dget (charge_parents kcs d) k =
       map_option (charge (case map_of kcs k of None \<Rightarrow> 0 | Some c \<Rightarrow> c)) (dget d k)"
proof (induction kcs arbitrary: d)
  case Nil
  then show ?case by (cases "dget d k") (simp_all add: charge_def)
next
  case (Cons kc kcs)
  obtain k0 c where kc: "kc = (k0, c)" by (cases kc)
  have fresh: "map_of kcs k0 = None"
    using Cons.prems kc by (simp add: map_of_eq_None_iff)
  show ?case
  proof (cases "dget d k0")
    case None
    then show ?thesis
      using Cons.prems by (auto simp: kc Cons.IH)
  next
    case (Some p)
    have "charge 0 (charge c p) = charge c p" by (simp add: charge_def)
    then show ?thesis
      using Cons.prems Some fresh by (cases "k0 = k") (simp_all add: kc Cons.IH charge_def [symmetric])
  qed
qed

lemma dget_as_map_of: "dget d k = map_of (ditems d) k"
  by (simp add: DAList.lookup.rep_eq)

lemma charge_parents_dict:
  "dget (charge_parents (ditems ps) d) k = map_option (charge (dget0 ps k)) (dget d k)"
  using charge_parents_lookup [OF dict.items_distinct, of ps d k]
  by (simp add: dget0_def dget_as_map_of)

section \<open>The stored batch\<close>

lemma store_admissions_admissions:
  "distinct (map a_id as) \<Longrightarrow>
     dget (s_admissions (store_admissions lane ev ps as t)) k =
       (case batch_map a_id as k of
          Some a \<Rightarrow> Some (stored_admission lane ev ps a) | None \<Rightarrow> dget (s_admissions t) k)"
  by (induction as arbitrary: t) (auto simp: store_admission_def split: option.splits dest: batch_map_SomeD)

lemma store_admissions_claims:
  "distinct (map a_run_id as) \<Longrightarrow>
     dget (s_run_claims (store_admissions lane ev ps as t)) r =
       (case batch_map a_run_id as r of Some a \<Rightarrow> Some (a_id a) | None \<Rightarrow> dget (s_run_claims t) r)"
  by (induction as arbitrary: t) (auto simp: store_admission_def split: option.splits dest: batch_map_SomeD)

lemma store_admissions_recipients:
  "distinct (map a_recipient as) \<Longrightarrow>
     dget (s_recipients (store_admissions lane ev ps as t)) r =
       (case batch_map a_recipient as r of Some a \<Rightarrow> Some (a_id a) | None \<Rightarrow> dget (s_recipients t) r)"
  by (induction as arbitrary: t) (auto simp: store_admission_def split: option.splits dest: batch_map_SomeD)

lemma store_admissions_writer:
  "s_writer (store_admissions lane ev ps as t) =
     (case filter a_writer as of [] \<Rightarrow> s_writer t | ws \<Rightarrow> Some (a_id (last ws)))"
  by (induction as arbitrary: t) (auto simp: store_admission_def split: list.splits)

lemma store_admissions_active:
  "s_active (store_admissions lane ev ps as t) = s_active t + specialists as"
  by (induction as arbitrary: t) (auto simp: store_admission_def specialists_def)

lemma store_admissions_other [simp]:
  "s_policy (store_admissions lane ev ps as t) = s_policy t"
  "s_run_owners (store_admissions lane ev ps as t) = s_run_owners t"
  "s_spent (store_admissions lane ev ps as t) = s_spent t"
  "s_remaining (store_admissions lane ev ps as t) = s_remaining t"
  "s_delegations (store_admissions lane ev ps as t) = s_delegations t"
  "s_results (store_admissions lane ev ps as t) = s_results t"
  "s_cancelled (store_admissions lane ev ps as t) = s_cancelled t"
  "s_lead_run (store_admissions lane ev ps as t) = s_lead_run t"
  by (induction as arbitrary: t) (simp_all add: store_admission_def)

lemma store_admissions_total:
  "distinct (map a_id as) \<Longrightarrow> (\<And>a. a \<in> set as \<Longrightarrow> dget (s_admissions t) (a_id a) = None) \<Longrightarrow>
     dict.total f (s_admissions (store_admissions lane ev ps as t)) =
       dict.total f (s_admissions t) + (\<Sum>a \<leftarrow> as. f (stored_admission lane ev ps a))"
proof (induction as arbitrary: t)
  case (Cons a as)
  then show ?case
    by (subst store_admissions.simps, subst Cons.IH) (auto simp: store_admission_def dict.total_put)
qed simp

lemma stored_admission_fields [simp]:
  "a_id (stored_admission lane ev ps a) = a_id a"
  "a_run_id (stored_admission lane ev ps a) = a_run_id a"
  "a_run_kind (stored_admission lane ev ps a) = a_run_kind a"
  "a_recipient (stored_admission lane ev ps a) = a_recipient a"
  "a_delegation_id (stored_admission lane ev ps a) = a_delegation_id a"
  "a_parent (stored_admission lane ev ps a) = a_parent a"
  "a_budget (stored_admission lane ev ps a) = a_budget a"
  "a_cost (stored_admission lane ev ps a) = a_cost a"
  "a_global_debit (stored_admission lane ev ps a) = a_global_debit a"
  "a_parent_debit (stored_admission lane ev ps a) = a_parent_debit a"
  "a_writer (stored_admission lane ev ps a) = a_writer a"
  "a_phase (stored_admission lane ev ps a) = Reserved"
  "a_active (stored_admission lane ev ps a)"
  "a_child_spent (stored_admission lane ev ps a) = dget0 ps (a_id a)"
  "a_commit (stored_admission lane ev ps a) = None"
  "a_lane (stored_admission lane ev ps a) = lane"
  "a_result (stored_admission lane ev ps a) = None"
  "a_terminal (stored_admission lane ev ps a) = None"
  by (simp_all add: stored_admission_def admission_request.defs admission.defs)

end
