(* ===== verification/Admission_Spec.thy ===== *)
theory Admission_Spec
  imports Batch
begin

text \<open>
  The abstract specification of admission control: a relation of atomic moves on the admission
  state, each with the conditions under which it is allowed.  The simulation of the reducer by
  these moves is in the theory Admission_Sim.
\<close>

section \<open>Well-formed payloads\<close>

definition batch_ok :: "admission_request list \<Rightarrow> bool" where
  "batch_ok as \<longleftrightarrow>
     distinct (map a_id as) \<and> distinct (map a_run_id as) \<and> distinct (map a_recipient as)
     \<and> list_all (\<lambda>a. 0 \<le> a_budget a \<and> 0 \<le> a_cost a \<and> 0 \<le> a_global_debit a \<and> 0 \<le> a_parent_debit a) as"

definition policy_ok :: "admission_policy \<Rightarrow> bool" where
  "policy_ok po \<longleftrightarrow> 0 \<le> po_credits po \<and> 1 \<le> po_max_active po"

fun payload_ok :: "payload \<Rightarrow> bool" where
  "payload_ok (Admission (Policy_frozen po)) = policy_ok po"
| "payload_ok (Admission (Delegations_reserved p)) = batch_ok (rv_admissions p)"
| "payload_ok _ = True"

lemma valid_admission_ok:
  assumes "valid_admission current seen x = Inr u"
  shows "sget x ''admission_id'' \<notin> set (map (\<lambda>y. sget y ''admission_id'') seen)"
    and "sget x ''run_id'' \<notin> set (map (\<lambda>y. sget y ''run_id'') seen)"
    and "sget x ''recipient_instance'' \<notin> set (map (\<lambda>y. sget y ''recipient_instance'') seen)"
    and "0 \<le> iget x ''delegated_budget'' \<and> 0 \<le> iget x ''credit_cost''
         \<and> 0 \<le> iget x ''global_credit_debit'' \<and> 0 \<le> iget x ''parent_credit_debit''"
  using assms by (auto simp: valid_admission_def fresh_in_def v_uint_def iget_def)

lemma valid_admissions_ok:
  assumes "valid_admissions current seen xs = Inr u"
  shows "batch_ok (map admission_of xs)"
    and "\<forall>x \<in> set xs. \<forall>y \<in> set seen. sget x ''admission_id'' \<noteq> sget y ''admission_id''
           \<and> sget x ''run_id'' \<noteq> sget y ''run_id''
           \<and> sget x ''recipient_instance'' \<noteq> sget y ''recipient_instance''"
  using assms
proof (induction xs arbitrary: seen)
  case (Cons x xs)
  {
    case 1
    then have "valid_admission current seen x = Inr ()" and rest: "valid_admissions current (x # seen) xs = Inr u"
      by (auto simp: guard_simps)
    then show ?case
      using Cons.IH(1) [OF rest] Cons.IH(2) [OF rest] valid_admission_ok [of current seen x]
      by (auto simp: batch_ok_def admission_of_def)
  next
    case 2
    then have "valid_admission current seen x = Inr ()" and rest: "valid_admissions current (x # seen) xs = Inr u"
      by (auto simp: guard_simps)
    then show ?case
      using Cons.IH(2) [OF rest] valid_admission_ok(1,2,3) [of current seen x] by auto
  }
qed (simp_all add: batch_ok_def)

lemma decode_payload_admission:
  "decode_payload kind p = Admission e \<Longrightarrow> decode_admission kind p = Some e"
  by (auto simp: decode_payload_def split: option.splits)

lemma decode_reservedD:
  "decode_payload kind p = Admission (Delegations_reserved q) \<Longrightarrow> kind = ''delegations_reserved'' \<and> q = reserved_of p"
  by (drule decode_payload_admission) (auto simp: decode_admission_def split: if_splits)

lemma decode_policyD:
  "decode_payload kind p = Admission (Policy_frozen po) \<Longrightarrow>
     kind = ''mission_admission_policy_frozen'' \<and> po = policy_of p"
  by (drule decode_payload_admission) (auto simp: decode_admission_def split: if_splits)

lemma registry_reserved: "map_of (registry E) ''delegations_reserved'' = Some valid_reserved"
  by (simp add: registry_def lifecycle_registry_def run_registry_def admission_registry_def)

lemma registry_policy: "map_of (registry E) ''mission_admission_policy_frozen'' = Some (valid_policy E)"
  by (simp add: registry_def lifecycle_registry_def run_registry_def admission_registry_def)

lemma validated_reserved:
  "validate_payload E ''delegations_reserved'' p = Inr u \<Longrightarrow> batch_ok (rv_admissions (reserved_of p))"
  by (auto simp: validate_payload_def registry_reserved valid_reserved_def reserved_of_def
      dest: valid_admissions_ok(1) split: if_splits)

lemma validated_policy:
  "validate_payload E ''mission_admission_policy_frozen'' p = Inr u \<Longrightarrow> policy_ok (policy_of p)"
  by (auto simp: validate_payload_def registry_policy valid_policy_def policy_of_def policy_ok_def
      v_uint_def iget_def split: if_splits)

lemma validated_payload_ok:
  assumes "validate_payload E kind p = Inr u"
  shows "payload_ok (decode_payload kind p)"
proof (cases "decode_payload kind p")
  case (Admission e)
  then show ?thesis
    using assms decode_reservedD [of kind p] decode_policyD [of kind p] validated_reserved validated_policy
    by (cases e) auto
qed simp_all

section \<open>Moves\<close>

text \<open>The chain of parents inside a batch leaves the batch.\<close>

inductive chain_ends :: "admission_request list \<Rightarrow> string option \<Rightarrow> bool" for as where
  no_parent: "chain_ends as None"
| outside: "k \<notin> a_id ` set as \<Longrightarrow> chain_ends as (Some k)"
| inside: "a \<in> set as \<Longrightarrow> a_id a = k \<Longrightarrow> chain_ends as (a_parent a) \<Longrightarrow> chain_ends as (Some k)"

text \<open>When a batch may be reserved: fresh identities, free slots, credits, budgets, parents.\<close>

definition slots_free :: "admission_state \<Rightarrow> admission_request \<Rightarrow> bool" where
  "slots_free t a \<longleftrightarrow>
     \<not> dhas (s_admissions t) (a_id a) \<and> \<not> dhas (s_run_claims t) (a_run_id a)
     \<and> \<not> dhas (s_run_owners t) (a_run_id a) \<and> \<not> dhas (s_recipients t) (a_recipient a)
     \<and> (a_writer a \<longrightarrow> s_writer t = None)"

definition parent_live :: "admission_state \<Rightarrow> admission_request list \<Rightarrow> admission_request \<Rightarrow> bool" where
  "parent_live t as a \<longleftrightarrow>
     (\<forall>k. a_parent a = Some k \<longrightarrow>
        k \<in> a_id ` set as \<or> (\<exists>p. dget (s_admissions t) k = Some p \<and> a_active p))"

definition affordable ::
  "admission_state \<Rightarrow> admission_policy \<Rightarrow> admission_request list \<Rightarrow> int \<Rightarrow> int dict \<Rightarrow> bool" where
  "affordable t po as g ps \<longleftrightarrow>
     s_spent t + g \<le> po_credits po \<and> g = (\<Sum>a \<leftarrow> as. a_global_debit a)
     \<and> (\<forall>k. dget0 ps k = (\<Sum>a \<leftarrow> as. parent_share k a))
     \<and> (\<forall>a \<in> set as. dget0 ps (a_id a) \<le> a_budget a)
     \<and> (\<forall>k p. k \<notin> a_id ` set as \<longrightarrow> dget (s_admissions t) k = Some p \<longrightarrow> dhas ps k \<longrightarrow>
          a_child_spent p + dget0 ps k \<le> a_budget p)"

definition fits :: "admission_state \<Rightarrow> admission_policy \<Rightarrow> admission_request list \<Rightarrow> int \<Rightarrow> int dict \<Rightarrow> bool" where
  "fits t po as g ps \<longleftrightarrow>
     (\<exists>ev. s_policy t = Some (po, ev)) \<and> batch_ok as \<and> (\<forall>a \<in> set as. slots_free t a)
     \<and> length (filter a_writer as) \<le> 1 \<and> s_active t + specialists as \<le> po_max_active po
     \<and> affordable t po as g ps \<and> (\<forall>a \<in> set as. parent_live t as a \<and> priced a \<and> chain_ends as (a_parent a))"

text \<open>The same admission later in its life: identity, request, lane and occupancy are kept.\<close>

definition same_request_data :: "admission \<Rightarrow> admission \<Rightarrow> bool" where
  "same_request_data a b \<longleftrightarrow>
     admission_request.truncate a = admission_request.truncate b \<and> a_lane a = a_lane b
     \<and> a_child_spent a = a_child_spent b \<and> a_reservation_event a = a_reservation_event b"

text \<open>The edges of the life of an admission.\<close>

fun phase_edge :: "phase \<Rightarrow> phase \<Rightarrow> bool" where
  "phase_edge Reserved p = (p = Committed \<or> p = Aborted)"
| "phase_edge Committed p = (p = Authorized \<or> p = Started \<or> p = Finalized \<or> p = Aborted)"
| "phase_edge Authorized p = (p = Started \<or> p = Finalized)"
| "phase_edge Started p = (p = Finalized)"
| "phase_edge Finalized p = False"
| "phase_edge Aborted p = False"

inductive move :: "admission_state \<Rightarrow> admission_state \<Rightarrow> bool" where
  quiet: "move t (t\<lparr>s_cancelled := c, s_lead_run := l, s_lead_result := r, s_synthesis := y\<rparr>)"
| freeze: "s_policy t = None \<Longrightarrow> policy_ok po \<Longrightarrow>
    move t (t\<lparr>s_policy := Some (po, ev), s_remaining := Some (po_credits po)\<rparr>)"
| reserve: "fits t po (rv_admissions p) g ps \<Longrightarrow> move t (commit_batch lane ev po p g ps t)"
| commit: "dget (s_admissions t) k = Some a \<Longrightarrow> a_phase a = Reserved \<Longrightarrow>
    dget (s_run_claims t) (a_run_id a) = Some (a_id a) \<Longrightarrow> \<not> dhas (s_run_owners t) (a_run_id a) \<Longrightarrow>
    same_request_data a b \<Longrightarrow> a_active b = a_active a \<Longrightarrow> a_phase b = Committed \<Longrightarrow> a_commit b \<noteq> None \<Longrightarrow>
    move t (t\<lparr>s_run_claims := ddel (a_run_id a) (s_run_claims t),
              s_run_owners := dput (a_run_id a) (By_admission (a_id a)) (s_run_owners t),
              s_admissions := dput (a_id a) b (s_admissions t)\<rparr>)"
| advance: "dget (s_admissions t) k = Some a \<Longrightarrow> same_request_data a b \<Longrightarrow> a_active b = a_active a \<Longrightarrow>
    a_commit b = a_commit a \<Longrightarrow>
    a_phase b = a_phase a \<or> (phase_edge (a_phase a) (a_phase b) \<and> a_phase b \<in> {Authorized, Started}) \<Longrightarrow>
    move t (t\<lparr>s_admissions := dput k b (s_admissions t)\<rparr>)"
| finalize: "dget (s_admissions t) k = Some a \<Longrightarrow> a_phase a \<in> {Committed, Authorized, Started} \<Longrightarrow>
    \<not> has_active_child t (a_id a) \<Longrightarrow> same_request_data a b \<Longrightarrow> a_active b = a_active a \<Longrightarrow>
    a_commit b = a_commit a \<Longrightarrow> a_phase b = Finalized \<Longrightarrow> move t (release_admission b t)"
| abort_reserved: "dget (s_admissions t) k = Some a \<Longrightarrow> a_phase a \<in> {Reserved, Committed} \<Longrightarrow>
    \<not> has_active_child t (a_id a) \<Longrightarrow> same_request_data a b \<Longrightarrow> a_active b = a_active a \<Longrightarrow>
    a_phase b = Aborted \<Longrightarrow> a_commit a = None \<Longrightarrow>
    move t (release_admission b (t\<lparr>s_run_claims := ddel (a_run_id a) (s_run_claims t)\<rparr>))"
| abort_committed: "dget (s_admissions t) k = Some a \<Longrightarrow> a_phase a \<in> {Reserved, Committed} \<Longrightarrow>
    \<not> has_active_child t (a_id a) \<Longrightarrow> same_request_data a b \<Longrightarrow> a_active b = a_active a \<Longrightarrow>
    a_phase b = Aborted \<Longrightarrow> a_commit a \<noteq> None \<Longrightarrow>
    dget (s_run_owners t) (a_run_id a) = Some (By_admission (a_id a)) \<Longrightarrow>
    move t (release_admission b (t\<lparr>s_run_owners := ddel (a_run_id a) (s_run_owners t)\<rparr>))"
| abort_unowned: "dget (s_admissions t) k = Some a \<Longrightarrow> a_phase a \<in> {Reserved, Committed} \<Longrightarrow>
    \<not> has_active_child t (a_id a) \<Longrightarrow> same_request_data a b \<Longrightarrow> a_active b = a_active a \<Longrightarrow>
    a_phase b = Aborted \<Longrightarrow> a_commit a \<noteq> None \<Longrightarrow>
    dget (s_run_owners t) (a_run_id a) \<noteq> Some (By_admission (a_id a)) \<Longrightarrow>
    move t (release_admission b t)"
| legacy_lead: "s_policy t = None \<Longrightarrow> \<not> dhas (s_run_claims t) r \<Longrightarrow> \<not> dhas (s_run_owners t) r \<Longrightarrow>
    move t (t\<lparr>s_run_owners := dput r Legacy_lead (s_run_owners t), s_lead_run := Some r\<rparr>)"
| legacy_delegation: "s_policy t = None \<Longrightarrow> \<not> dhas (s_run_claims t) (rg_run_id g) \<Longrightarrow>
    \<not> dhas (s_run_owners t) (rg_run_id g) \<Longrightarrow> \<not> dhas (s_delegations t) (rg_delegation g) \<Longrightarrow>
    \<not> dhas (s_recipients t) (rg_recipient g) \<Longrightarrow>
    move t (t\<lparr>s_run_owners := dput (rg_run_id g) (Legacy_delegation (rg_delegation g)) (s_run_owners t),
              s_recipients := dput (rg_recipient g) (rg_delegation g) (s_recipients t),
              s_delegations := dput (rg_delegation g) g (s_delegations t)\<rparr>)"
| delegation: "\<not> dhas (s_delegations t) (rg_delegation g) \<Longrightarrow> dget (s_admissions t) k = Some a \<Longrightarrow>
    a_delegation_id a = Some (rg_delegation g) \<Longrightarrow>
    move t (t\<lparr>s_delegations := dput (rg_delegation g) g (s_delegations t)\<rparr>)"
| result: "\<not> dhas (s_results t) d \<Longrightarrow> move t (t\<lparr>s_results := dput d r (s_results t)\<rparr>)"
| legacy_result: "\<not> dhas (s_results t) d \<Longrightarrow> dget (s_delegations t) d = Some g \<Longrightarrow>
    dget (s_recipients t) (rg_recipient g) = Some d \<Longrightarrow>
    move t (t\<lparr>s_results := dput d r (s_results t),
              s_recipients := ddel (rg_recipient g) (s_recipients t)\<rparr>)"

inductive_cases moveE: "move t t'"

end
