(* ===== verification/Admission_Sim.thy ===== *)
theory Admission_Sim
  imports Admission_Spec
begin

text \<open>
  The simulation: every admission event and every run event that the reducer accepts is a
  sequence of moves of the abstract specification.
\<close>

definition keyed :: "admission_state \<Rightarrow> bool" where
  "keyed t \<longleftrightarrow> (\<forall>k a. dget (s_admissions t) k = Some a \<longrightarrow> a_id a = k)"

lemma keyedD: "keyed t \<Longrightarrow> dget (s_admissions t) k = Some a \<Longrightarrow> a_id a = k"
  by (simp add: keyed_def)

lemma request_truncate [simp]:
  "admission_request.truncate (a\<lparr>a_lane := l\<rparr>) = admission_request.truncate a"
  "admission_request.truncate (a\<lparr>a_phase := p\<rparr>) = admission_request.truncate a"
  "admission_request.truncate (a\<lparr>a_active := c\<rparr>) = admission_request.truncate a"
  "admission_request.truncate (a\<lparr>a_child_spent := n\<rparr>) = admission_request.truncate a"
  "admission_request.truncate (a\<lparr>a_reservation_event := e\<rparr>) = admission_request.truncate a"
  "admission_request.truncate (a\<lparr>a_commit := cm\<rparr>) = admission_request.truncate a"
  "admission_request.truncate (a\<lparr>a_launch := la\<rparr>) = admission_request.truncate a"
  "admission_request.truncate (a\<lparr>a_started_event := se\<rparr>) = admission_request.truncate a"
  "admission_request.truncate (a\<lparr>a_terminal := te\<rparr>) = admission_request.truncate a"
  "admission_request.truncate (a\<lparr>a_result := re\<rparr>) = admission_request.truncate a"
  by (simp_all add: admission_request.truncate_def)

lemma same_request_data_refl [simp]: "same_request_data a a"
  by (simp add: same_request_data_def)

section \<open>Reservation\<close>

lemma limits_ok:
  "check_limits t po as = Inr u \<Longrightarrow> length (filter a_writer as) \<le> 1 \<and> s_active t + specialists as \<le> po_max_active po"
  by (auto simp: check_limits_def Let_def split: if_splits)

lemma chain_ends_walk:
  "\<not> parent_cycle ps pid seen \<Longrightarrow> (\<And>k. dget ps k = batch_map a_id as k) \<Longrightarrow> chain_ends as pid"
proof (induction ps pid seen rule: parent_cycle.induct)
  case (1 ps pid seen)
  show ?case
  proof (cases pid)
    case None
    then show ?thesis by (simp add: chain_ends.no_parent)
  next
    case (Some k)
    show ?thesis
    proof (cases "dget ps k")
      case None
      then show ?thesis
        using Some "1.prems"(2) [of k] by (simp add: batch_map_None chain_ends.outside)
    next
      case [simp]: (Some a)
      have "a \<in> set as" "a_id a = k"
        using "1.prems"(2) [of k] batch_map_SomeD [of a_id as k a] by simp_all
      moreover have "k \<notin> set seen" "\<not> parent_cycle ps (a_parent a) (k # seen)"
        using "1.prems"(1) \<open>pid = Some k\<close> \<open>dget ps k = Some a\<close>
        by (subst (asm) parent_cycle.simps, simp split: if_splits)+
      then have "chain_ends as (a_parent a)"
        using "1.IH" [OF \<open>pid = Some k\<close> \<open>dget ps k = Some a\<close>] "1.prems"(2) by blast
      ultimately show ?thesis
        using \<open>pid = Some k\<close> by (simp add: chain_ends.inside)
    qed
  qed
qed

lemma within_budget_ok:
  assumes "list_all (within_budget t ps) (ditems ds)" and "dhas ds k"
  shows "\<exists>q. find_parent ps (s_admissions t) (Some k) = Some q \<and> parent_spent q + dget0 ds k \<le> parent_budget q"
proof -
  from assms(2) obtain c where c: "dget ds k = Some c" by (auto simp: dhas_def)
  then have "within_budget t ps (k, c)"
    using assms(1) by (auto simp: list_all_iff dict.items_get)
  with c show ?thesis
    by (auto simp: within_budget_def dget0_def split: option.splits)
qed

lemma affordable_ok:
  assumes ps: "\<And>k. dget ps k = batch_map a_id as k" and ok: "batch_ok as"
    and debits: "debits t lane ps as (0, dempty) = Inr (g, ds)"
    and credits: "s_spent t + g \<le> po_credits po" and budgets: "list_all (within_budget t ps) (ditems ds)"
  shows "affordable t po as g ds"
proof -
  have sums: "g = (\<Sum>a \<leftarrow> as. a_global_debit a)" "\<And>k. dget0 ds k = (\<Sum>a \<leftarrow> as. parent_share k a)"
    using debits_sums [OF debits] by auto
  have "dget0 ds (a_id a) \<le> a_budget a" if a: "a \<in> set as" for a
  proof (cases "dhas ds (a_id a)")
    case True
    then show ?thesis
      using within_budget_ok [OF budgets True] a ok ps [of "a_id a"]
      by (auto simp: find_parent_def batch_map_member batch_ok_def)
  next
    case False
    then show ?thesis
      using a ok by (auto simp: dget0_def dhas_def batch_ok_def list_all_iff)
  qed
  moreover have "a_child_spent p + dget0 ds k \<le> a_budget p"
    if "k \<notin> a_id ` set as" "dget (s_admissions t) k = Some p" "dhas ds k" for k p
    using within_budget_ok [OF budgets that(3)] that ps [of k] by (auto simp: find_parent_def)
  ultimately show ?thesis
    using sums credits by (auto simp: affordable_def)
qed

lemma parent_live_ok:
  assumes "\<And>k. dget ps k = batch_map a_id as k" and "parent_present ps (s_admissions t) a"
  shows "parent_live t as a"
  unfolding parent_live_def
proof (intro allI impI)
  fix k assume "a_parent a = Some k"
  then show "k \<in> a_id ` set as \<or> (\<exists>p. dget (s_admissions t) k = Some p \<and> a_active p)"
    using assms(2) by (auto simp: parent_present_def find_parent_def assms(1) batch_map_None split: option.splits)
qed

lemma reserve_move:
  assumes ok: "batch_ok (rv_admissions p)" and res: "reserve_admissions E s m p = Inr t'"
  shows "\<exists>lane ev po g ds. fits (x_admissions s) po (rv_admissions p) g ds
           \<and> t' = commit_batch lane ev po p g ds (x_admissions s)"
proof -
  let ?t = "x_admissions s" and ?as = "rv_admissions p"
  from res obtain lane po ps g ds where
    po: "require_deadline E s m = Inr po"
    and checks: "check_admissions E s dempty ?as = Inr ps"
    and limits: "check_limits ?t po ?as = Inr ()"
    and debits: "debits ?t lane ps ?as (0, dempty) = Inr (g, ds)"
    and credits: "s_spent ?t + g \<le> po_credits po"
    and budgets: "list_all (within_budget ?t ps) (ditems ds)"
    and cycles: "\<not> list_ex (\<lambda>a. parent_cycle ps (a_parent a) []) ?as"
    and t': "t' = commit_batch lane (m_sha m) po p g ds ?t"
    by (auto simp: reserve_admissions_def guard_simps Let_def split: prod.splits if_splits)
  have ps: "dget ps k = batch_map a_id ?as k" for k
    using check_admissions_lookup [OF checks, of k] by (simp add: dict.get_empty split: option.splits)
  have "\<forall>a \<in> set ?as. fresh_admission E s a"
    using check_admissions_iff [of E s dempty ?as] checks by auto
  then have "\<forall>a \<in> set ?as. slots_free ?t a"
    by (auto simp: fresh_admission_def slots_free_def Let_def)
  moreover have "\<exists>ev. s_policy ?t = Some (po, ev)"
    using po by (auto simp: require_deadline_def split: option.splits if_splits)
  moreover have "chain_ends ?as (a_parent a)" if "a \<in> set ?as" for a
    using chain_ends_walk [of ps "a_parent a" "[]" ?as] cycles that ps by (auto simp: list_ex_iff)
  moreover note debits_each [OF debits] parent_live_ok [OF ps] affordable_ok [OF ps ok debits credits budgets]
  ultimately have "fits ?t po ?as g ds"
    using ok limits_ok [OF limits] by (auto simp: fits_def)
  with t' show ?thesis by blast
qed

section \<open>The life of an admission\<close>

lemma committed_move:
  assumes "keyed (x_admissions s)" and "reduce_committed E s m p = Inr t'"
  shows "move (x_admissions s) t'"
proof -
  from assms(2) obtain a where a: "dget (s_admissions (x_admissions s)) (cm_admission p) = Some a"
    "a_phase a = Reserved" "dget (s_run_claims (x_admissions s)) (a_run_id a) = Some (a_id a)"
    "\<not> dhas (s_run_owners (x_admissions s)) (a_run_id a)"
    and t': "t' = (x_admissions s)\<lparr>s_run_claims := ddel (a_run_id a) (s_run_claims (x_admissions s)),
          s_run_owners := dput (a_run_id a) (By_admission (a_id a)) (s_run_owners (x_admissions s)),
          s_admissions := dput (a_id a) (a\<lparr>a_phase := Committed, a_commit := Some (p, m_sha m)\<rparr>)
            (s_admissions (x_admissions s))\<rparr>"
    by (auto simp: reduce_committed_def guard_simps Let_def)
  show ?thesis
    unfolding t' by (rule move.commit [OF a]) (simp_all add: same_request_data_def)
qed

lemma advance_move:
  assumes "keyed t" and "dget (s_admissions t) k = Some a" and "same_request_data a b" and "a_active b = a_active a"
    and "a_commit b = a_commit a"
    and "a_phase b = a_phase a \<or> (phase_edge (a_phase a) (a_phase b) \<and> a_phase b \<in> {Authorized, Started})"
  shows "move t (t\<lparr>s_admissions := dput (a_id a) b (s_admissions t)\<rparr>)"
  using move.advance [OF assms(2-6)] keyedD [OF assms(1,2)] by simp

lemma authorized_move:
  assumes "keyed (x_admissions s)" and "reduce_authorized E s m p = Inr t'"
  shows "move (x_admissions s) t'"
  using assms(2)
  by (auto simp: reduce_authorized_def guard_simps Let_def same_request_data_def
      intro!: advance_move [OF assms(1)])

lemma started_move:
  assumes "keyed (x_admissions s)" and "reduce_started E s m p = Inr t'"
  shows "move (x_admissions s) t'"
  using assms(2)
  by (cases "st_proof p")
    (auto simp: reduce_started_def reduce_current_start_def reduce_legacy_start_def start_admission_def
      guard_simps Let_def same_request_data_def split: prod.splits intro!: advance_move [OF assms(1)])

lemma finalized_move:
  assumes "reduce_finalized E s m p = Inr t'"
  shows "move (x_admissions s) t'"
  using assms
  by (auto simp: reduce_finalized_def guard_simps Let_def same_request_data_def intro!: move.finalize)

lemma aborted_move:
  assumes "reduce_aborted s m p = Inr t'"
  shows "move (x_admissions s) t'"
proof -
  let ?t = "x_admissions s"
  from assms obtain a where a: "dget (s_admissions ?t) (ab_admission p) = Some a"
    "a_phase a \<in> {Reserved, Committed}" "\<not> has_active_child ?t (a_id a)"
    and t': "t' = release_admission (a\<lparr>a_phase := Aborted, a_terminal := Some (Inr p, m_sha m)\<rparr>)
        (if a_commit a = None then ?t\<lparr>s_run_claims := ddel (a_run_id a) (s_run_claims ?t)\<rparr>
         else if dget (s_run_owners ?t) (a_run_id a) = Some (By_admission (a_id a))
         then ?t\<lparr>s_run_owners := ddel (a_run_id a) (s_run_owners ?t)\<rparr> else ?t)"
    by (auto simp: reduce_aborted_def guard_simps Let_def)
  show ?thesis
    unfolding t' using move.abort_reserved [OF a] move.abort_committed [OF a] move.abort_unowned [OF a]
    by (auto simp: same_request_data_def)
qed

theorem admission_simulation:
  assumes "keyed (x_admissions s)" and "payload_ok (Admission e)" and "reduce_admission E s m e = Inr t'"
  shows "move\<^sup>*\<^sup>* (x_admissions s) t'"
proof (cases e)
  case (Policy_frozen po)
  then show ?thesis
    using assms by (auto simp: reduce_policy_def Let_def simp del: not_None_eq
        intro!: r_into_rtranclp move.freeze split: if_splits)
next
  case Budget_allocated
  then show ?thesis
    using assms by (auto simp: guard_simps)
next
  case (Delegations_reserved p)
  then obtain lane ev po g ds where "fits (x_admissions s) po (rv_admissions p) g ds"
    and "t' = commit_batch lane ev po p g ds (x_admissions s)"
    using assms reserve_move [of p E s m t'] by auto
  then show ?thesis
    using move.reserve by blast
next
  case (Delegation_committed p)
  then show ?thesis
    using assms committed_move by auto
next
  case (Launch_authorized p)
  then show ?thesis
    using assms authorized_move by auto
next
  case (Delegation_started p)
  then show ?thesis
    using assms started_move by auto
next
  case (Delegation_finalized p)
  then show ?thesis
    using assms finalized_move by auto
next
  case (Reservation_aborted p)
  then show ?thesis
    using assms aborted_move by auto
qed

section \<open>Runs and results\<close>

text \<open>Updates of the fields that no move constrains.\<close>

lemma quiet_moves:
  "move t (t\<lparr>s_cancelled := c\<rparr>)" "move t (t\<lparr>s_lead_run := l\<rparr>)" "move t (t\<lparr>s_lead_result := r\<rparr>)"
  "move t (t\<lparr>s_synthesis := y\<rparr>)"
  using move.quiet [where t = t and c = c and l = "s_lead_run t" and r = "s_lead_result t" and y = "s_synthesis t"]
    move.quiet [where t = t and c = "s_cancelled t" and l = l and r = "s_lead_result t" and y = "s_synthesis t"]
    move.quiet [where t = t and c = "s_cancelled t" and l = "s_lead_run t" and r = r and y = "s_synthesis t"]
    move.quiet [where t = t and c = "s_cancelled t" and l = "s_lead_run t" and r = "s_lead_result t" and y = y]
  by simp_all

lemma record_move:
  "dget (s_admissions t) k = Some a \<Longrightarrow> move t (record_result k a r m t)"
  unfolding record_result_def by (rule move.advance) (auto simp: same_request_data_def)

lemma two_moves: "move a b \<Longrightarrow> move b c \<Longrightarrow> move\<^sup>*\<^sup>* a c"
  by (meson converse_rtranclp_into_rtranclp r_into_rtranclp)

lemma attach_moves:
  "move t t1 \<Longrightarrow> attach_result t1 m r k = Inr t' \<Longrightarrow> move\<^sup>*\<^sup>* t t'"
  by (auto simp: attach_result_def guard_simps intro!: two_moves [of t t1] record_move)

lemma lead_dispatched_moves:
  assumes "reduce_lead_dispatched s r = Inr t'"
  shows "move\<^sup>*\<^sup>* (x_admissions s) t'"
proof -
  let ?t = "x_admissions s"
  from assms obtain run where n: "normalize_uuid r = Inr run" and c: "\<not> dhas (s_run_claims ?t) run"
    by (auto simp: reduce_lead_dispatched_def guard_simps Let_def)
  have "move ?t t'"
  proof (cases "dget (s_run_owners ?t) run")
    case None
    then show ?thesis
      using assms n c by (auto simp: reduce_lead_dispatched_def Let_def dhas_def split: if_splits
          intro!: move.legacy_lead simp del: not_None_eq)
  next
    case (Some own)
    then show ?thesis
      using assms n c by (auto simp: reduce_lead_dispatched_def Let_def guard_simps split: if_splits
          intro!: quiet_moves)
  qed
  then show ?thesis ..
qed

lemma lead_result_moves:
  assumes "reduce_lead_result s m r = Inr t'"
  shows "move\<^sup>*\<^sup>* (x_admissions s) t'"
proof -
  let ?t = "x_admissions s" and ?t1 = "(x_admissions s)\<lparr>s_lead_result := Some r\<rparr>"
  from assms obtain run where n: "normalize_uuid (rr_run_id r) = Inr run"
    by (auto simp: reduce_lead_result_def guard_simps)
  have "(\<exists>k. attach_result ?t1 m r k = Inr t') \<or> t' = ?t1"
    using assms n by (cases "dget (s_run_owners ?t) run")
      (auto simp: reduce_lead_result_def Let_def split: if_splits owner.splits)
  then show ?thesis
    using attach_moves [OF quiet_moves(3)] quiet_moves(3) [of ?t] by (auto intro: r_into_rtranclp)
qed

lemma synthesis_moves:
  "reduce_synthesis s m k r = Inr t' \<Longrightarrow> move\<^sup>*\<^sup>* (x_admissions s) t'"
  by (auto simp: reduce_synthesis_def guard_simps Let_def split: option.splits if_splits
      intro!: two_moves [OF quiet_moves(4)] record_move)

lemma registered_moves:
  "reduce_registered s g = Inr t' \<Longrightarrow> move\<^sup>*\<^sup>* (x_admissions s) t'"
proof -
  let ?t = "x_admissions s"
  assume r: "reduce_registered s g = Inr t'"
  show ?thesis
  proof (cases "dget (s_run_owners ?t) (rg_run_id g)")
    case None
    then show ?thesis
      using r by (auto simp: reduce_registered_def Let_def dhas_def simp del: not_None_eq split: if_splits
          intro!: r_into_rtranclp move.legacy_delegation)
  next
    case (Some own)
    then obtain a k where "owning_admission ?t own = Some a" "dget (s_admissions ?t) k = Some a"
      "a_delegation_id a = Some (rg_delegation g)" "\<not> dhas (s_delegations ?t) (rg_delegation g)"
      and "t' = ?t\<lparr>s_delegations := dput (rg_delegation g) g (s_delegations ?t)\<rparr>"
      using r by (cases own) (auto simp: reduce_registered_def Let_def guard_simps split: if_splits)
    then show ?thesis
      by (auto intro!: r_into_rtranclp move.delegation)
  qed
qed

lemma result_moves:
  "reduce_result s m d r = Inr t' \<Longrightarrow> move\<^sup>*\<^sup>* (x_admissions s) t'"
proof -
  let ?t = "x_admissions s"
  assume r: "reduce_result s m d r = Inr t'"
  then obtain g where g: "dget (s_delegations ?t) d = Some g" and fresh: "\<not> dhas (s_results ?t) d"
    by (auto simp: reduce_result_def guard_simps Let_def)
  have results: "move ?t (?t\<lparr>s_results := dput d r (s_results ?t)\<rparr>)"
    using fresh by (rule move.result)
  have freed: "move ?t (?t\<lparr>s_results := dput d r (s_results ?t),
                          s_recipients := ddel (rg_recipient g) (s_recipients ?t)\<rparr>)"
    if "dget (s_recipients ?t) (rg_recipient g) = Some d"
    using fresh g that by (rule move.legacy_result)
  show ?thesis
    using r g fresh results freed attach_moves [OF results]
    by (auto simp: reduce_result_def Let_def split: option.splits if_splits owner.splits
        intro: r_into_rtranclp)
qed

theorem run_simulation:
  assumes "reduce_run s m e = Inr t'"
  shows "move\<^sup>*\<^sup>* (x_admissions s) t'"
  using assms
proof (cases e)
  case (Lead_dispatched r)
  then show ?thesis using assms lead_dispatched_moves by auto
next
  case (Lead_result_recorded r)
  then show ?thesis using assms lead_result_moves by auto
next
  case (Synthesis_recorded k r)
  then show ?thesis using assms synthesis_moves by auto
next
  case (Delegation_registered g)
  then show ?thesis using assms registered_moves by auto
next
  case (Result_recorded d r)
  then show ?thesis using assms result_moves by auto
next
  case Lead_completion_requested
  then show ?thesis using assms by (auto simp: reduce_completion_request_def split: if_splits)
next
  case (Run_cancel_requested r reason)
  then show ?thesis
    using assms by (auto simp: reduce_cancel_def Let_def split: if_splits intro!: r_into_rtranclp quiet_moves)
qed

end
