(* ===== verification/Admission_Inv.thy ===== *)
theory Admission_Inv
  imports Admission_Sim
begin

text \<open>
  The first invariants of admission control, kept by every move of the specification: identities,
  the activity of an admission and its phase, and the slot of the one writer.
\<close>

section \<open>Reading a move\<close>

lemma same_request_dataD:
  assumes "same_request_data a b"
  shows "a_id b = a_id a" "a_run_id b = a_run_id a" "a_recipient b = a_recipient a" "a_writer b = a_writer a"
    "a_run_kind b = a_run_kind a" "a_parent b = a_parent a" "a_delegation_id b = a_delegation_id a"
    "a_budget b = a_budget a" "a_global_debit b = a_global_debit a" "a_parent_debit b = a_parent_debit a"
    "a_child_spent b = a_child_spent a" "a_lane b = a_lane a"
  using assms by (simp_all add: same_request_data_def admission_request.truncate_def)

lemma deactivate: "\<not> a_active b \<Longrightarrow> b\<lparr>a_active := False\<rparr> = b"
  by simp

lemma release_fields:
  "dget (s_admissions (release_admission b t)) k =
     (if a_id b = k then Some (b\<lparr>a_active := False\<rparr>) else dget (s_admissions t) k)"
  "s_writer (release_admission b t) = (if a_active b \<and> s_writer t = Some (a_id b) then None else s_writer t)"
  "dget (s_recipients (release_admission b t)) r =
     (if a_active b \<and> r = a_recipient b \<and> dget (s_recipients t) r = Some (a_id b) then None
      else dget (s_recipients t) r)"
  "s_active (release_admission b t) =
     (if a_active b \<and> a_run_kind b = Specialist then s_active t - 1 else s_active t)"
  "s_policy (release_admission b t) = s_policy t"
  "s_run_claims (release_admission b t) = s_run_claims t"
  "s_run_owners (release_admission b t) = s_run_owners t"
  "s_spent (release_admission b t) = s_spent t"
  "s_remaining (release_admission b t) = s_remaining t"
  "s_delegations (release_admission b t) = s_delegations t"
  "s_results (release_admission b t) = s_results t"
  "dict.total f (s_admissions (release_admission b t)) =
     dict.total f (dput (a_id b) (b\<lparr>a_active := False\<rparr>) (s_admissions t))"
  by (auto simp: release_admission_def dict.get_del deactivate)

lemma batch_fields:
  assumes "batch_ok (rv_admissions p)"
  shows "dget (s_admissions (commit_batch lane ev po p g ds t)) k =
      (case batch_map a_id (rv_admissions p) k of
         Some a \<Rightarrow> Some (stored_admission lane ev ds a)
       | None \<Rightarrow> map_option (charge (dget0 ds k)) (dget (s_admissions t) k))"
    and "dget (s_run_claims (commit_batch lane ev po p g ds t)) r =
      (case batch_map a_run_id (rv_admissions p) r of Some a \<Rightarrow> Some (a_id a) | None \<Rightarrow> dget (s_run_claims t) r)"
    and "dget (s_recipients (commit_batch lane ev po p g ds t)) i =
      (case batch_map a_recipient (rv_admissions p) i of Some a \<Rightarrow> Some (a_id a) | None \<Rightarrow> dget (s_recipients t) i)"
    and "s_writer (commit_batch lane ev po p g ds t) = (case filter a_writer (rv_admissions p) of [] \<Rightarrow> s_writer t | ws \<Rightarrow> Some (a_id (last ws)))"
    and "s_active (commit_batch lane ev po p g ds t) = s_active t + specialists (rv_admissions p)"
    and "s_policy (commit_batch lane ev po p g ds t) = s_policy t" and "s_run_owners (commit_batch lane ev po p g ds t) = s_run_owners t" and "s_spent (commit_batch lane ev po p g ds t) = s_spent t + g"
    and "s_remaining (commit_batch lane ev po p g ds t) = Some (po_credits po - (s_spent t + g))" and "s_delegations (commit_batch lane ev po p g ds t) = s_delegations t"
    and "s_results (commit_batch lane ev po p g ds t) = s_results t"
  using assms
  by (auto simp: commit_batch_def Let_def batch_ok_def store_admissions_admissions store_admissions_claims
      store_admissions_recipients store_admissions_writer store_admissions_active charge_parents_dict
      split: option.splits list.splits)

lemma fits_batch_ok: "fits t po as g ds \<Longrightarrow> batch_ok as"
  by (simp add: fits_def)

lemmas batch_simps = batch_fields [OF fits_batch_ok]

lemma charge_fields [simp]:
  "a_id (charge c a) = a_id a" "a_run_id (charge c a) = a_run_id a" "a_recipient (charge c a) = a_recipient a"
  "a_writer (charge c a) = a_writer a" "a_run_kind (charge c a) = a_run_kind a"
  "a_parent (charge c a) = a_parent a" "a_delegation_id (charge c a) = a_delegation_id a"
  "a_budget (charge c a) = a_budget a" "a_global_debit (charge c a) = a_global_debit a"
  "a_parent_debit (charge c a) = a_parent_debit a" "a_child_spent (charge c a) = a_child_spent a + c"
  "a_phase (charge c a) = a_phase a" "a_active (charge c a) = a_active a" "a_commit (charge c a) = a_commit a"
  by (simp_all add: charge_def)

section \<open>Identity and activity\<close>

lemma move_keyed: "move t t' \<Longrightarrow> keyed t \<Longrightarrow> keyed t'"
  by (erule moveE)
    (auto simp: keyed_def release_fields batch_simps dest: same_request_dataD(1) batch_map_SomeD
      split: if_splits option.splits)

text \<open>
  An admission is active exactly in the four phases that hold its slots, and it carries its
  commit exactly from the commit on.
\<close>

definition shaped :: "admission \<Rightarrow> bool" where
  "shaped a \<longleftrightarrow>
     (a_active a \<longleftrightarrow> active_phase (a_phase a))
     \<and> (a_phase a = Reserved \<longrightarrow> a_commit a = None)
     \<and> (a_phase a \<in> {Committed, Authorized, Started, Finalized} \<longrightarrow> a_commit a \<noteq> None)"

definition activity :: "admission_state \<Rightarrow> bool" where
  "activity t \<longleftrightarrow> (\<forall>k a. dget (s_admissions t) k = Some a \<longrightarrow> shaped a)"

lemma shaped_advance:
  assumes "shaped a" and "a_active b = a_active a" and "a_commit b = a_commit a"
    and "a_phase b = a_phase a \<or> (phase_edge (a_phase a) (a_phase b) \<and> a_phase b \<in> {Authorized, Started})"
  shows "shaped b"
  using assms by (cases "a_phase a") (auto simp: shaped_def active_phase_def)

lemma shaped_commit:
  "shaped a \<Longrightarrow> a_phase a = Reserved \<Longrightarrow> a_active b = a_active a \<Longrightarrow> a_phase b = Committed \<Longrightarrow>
     a_commit b \<noteq> None \<Longrightarrow> shaped b"
  by (auto simp: shaped_def active_phase_def)

lemma shaped_released:
  "a_phase b = Aborted \<Longrightarrow> shaped (b\<lparr>a_active := False\<rparr>)"
  "a_phase b = Finalized \<Longrightarrow> a_commit b \<noteq> None \<Longrightarrow> shaped (b\<lparr>a_active := False\<rparr>)"
  by (auto simp: shaped_def active_phase_def)

lemma shaped_committed: "shaped a \<Longrightarrow> a_phase a \<in> {Committed, Authorized, Started} \<Longrightarrow> a_commit a \<noteq> None"
  by (auto simp: shaped_def)

lemma shaped_new [simp]: "shaped (stored_admission lane ev ds a)" "shaped (charge c b) = shaped b"
  by (auto simp: shaped_def active_phase_def)

lemma activityD: "activity t \<Longrightarrow> dget (s_admissions t) k = Some a \<Longrightarrow> shaped a"
  by (simp add: activity_def)

lemma activity_update:
  "activity t \<Longrightarrow> shaped b \<Longrightarrow> (\<And>k'. k' \<noteq> k \<Longrightarrow> dget (s_admissions t') k' = dget (s_admissions t) k') \<Longrightarrow>
     dget (s_admissions t') k = Some b \<Longrightarrow> activity t'"
  by (metis activity_def option.inject)

lemma move_activity: "move t t' \<Longrightarrow> activity t \<Longrightarrow> activity t'"
proof (induction rule: move.induct)
  case (reserve t po p g ps lane ev)
  then show ?case
    by (auto simp: activity_def batch_simps split: option.splits)
next
  case (commit t k a b)
  then show ?case
    by (auto simp: activity_def dest: shaped_commit)
next
  case (advance t k a b)
  then show ?case
    using shaped_advance [of a b] by (auto simp: activity_def)
next
  case (finalize t k a b)
  then have "a_commit b \<noteq> None"
    using shaped_committed [OF activityD] by metis
  with finalize show ?case
    by (auto simp: activity_def release_fields shaped_released)
qed (auto simp: activity_def release_fields shaped_released)

section \<open>The writer slot\<close>

definition writer_slot :: "admission_state \<Rightarrow> bool" where
  "writer_slot t \<longleftrightarrow>
     (\<forall>k. s_writer t = Some k \<longleftrightarrow> (\<exists>a. dget (s_admissions t) k = Some a \<and> a_active a \<and> a_writer a))"

lemma writer_slotD:
  "writer_slot t \<Longrightarrow> dget (s_admissions t) k = Some a \<Longrightarrow> a_active a \<Longrightarrow> a_writer a \<Longrightarrow> s_writer t = Some k"
  by (auto simp: writer_slot_def)

text \<open>An update of one admission that keeps what the invariants read, and its release.\<close>

lemma writer_slot_update:
  "writer_slot t \<Longrightarrow> dget (s_admissions t) k = Some a \<Longrightarrow> a_active b = a_active a \<Longrightarrow> a_writer b = a_writer a \<Longrightarrow>
     writer_slot (t\<lparr>s_admissions := dput k b (s_admissions t)\<rparr>)"
  by (auto simp: writer_slot_def)

lemma writer_slot_release:
  assumes "writer_slot t" and "dget (s_admissions t) (a_id b) = Some a" and "a_active b = a_active a"
    and "a_writer b = a_writer a"
  shows "writer_slot (release_admission b t)"
proof -
  have other: "\<not> (a_active c \<and> a_writer c)"
    if "dget (s_admissions t) k = Some c" "k \<noteq> a_id b" "a_active b" "s_writer t = Some (a_id b)" for k c
    using writer_slotD [OF assms(1) that(1)] that by auto
  then show ?thesis
    unfolding writer_slot_def release_fields
    using assms other by (auto simp: writer_slot_def split: if_splits)
qed

lemma one_writer:
  assumes "length (filter a_writer as) \<le> 1" and "a \<in> set as" and "a_writer a"
  shows "filter a_writer as = [a]"
proof -
  have "a \<in> set (filter a_writer as)" using assms(2,3) by simp
  with assms(1) show ?thesis by (cases "filter a_writer as") auto
qed

lemma no_writer: "filter a_writer as = [] \<longleftrightarrow> (\<forall>a \<in> set as. \<not> a_writer a)"
  by (auto simp: filter_empty_conv)

lemma writer_slot_reserve:
  assumes slot: "writer_slot t" and fits: "fits t po (rv_admissions p) g ds"
  shows "writer_slot (commit_batch lane ev po p g ds t)"
proof (cases "\<exists>a \<in> set (rv_admissions p). a_writer a")
  case True
  then obtain a where a: "a \<in> set (rv_admissions p)" "a_writer a" by blast
  then have one: "filter a_writer (rv_admissions p) = [a]"
    using fits by (intro one_writer) (auto simp: fits_def)
  then have only: "b = a" if "b \<in> set (rv_admissions p)" "a_writer b" for b
  proof -
    have "b \<in> set (filter a_writer (rv_admissions p))" using that by simp
    then show ?thesis by (simp add: one)
  qed
  have none: "s_writer t = None"
    using fits a by (auto simp: fits_def slots_free_def)
  have "batch_map a_id (rv_admissions p) (a_id a) = Some a"
    using fits a by (auto simp: fits_def batch_ok_def batch_map_member)
  then show ?thesis
    using slot none only a(2) unfolding writer_slot_def batch_simps [OF fits] one
    by (auto split: option.splits dest: batch_map_SomeD)
next
  case False
  have fresh: "dget (s_admissions t) (a_id a) = None" if "a \<in> set (rv_admissions p)" for a
    using fits that by (auto simp: fits_def slots_free_def dhas_def)
  then show ?thesis
    using slot False unfolding writer_slot_def batch_simps [OF fits] no_writer [THEN iffD2, OF False [simplified]]
    by (auto simp: split: option.splits dest: batch_map_SomeD)
qed

lemma move_writer_slot: "move t t' \<Longrightarrow> keyed t \<Longrightarrow> writer_slot t \<Longrightarrow> writer_slot t'"
proof (induction rule: move.induct)
  case (reserve t po p g ps lane ev)
  then show ?case by (simp add: writer_slot_reserve)
next
  case (commit t k a b)
  then show ?case
    using writer_slot_update [of t k a b] by (simp add: same_request_dataD keyedD writer_slot_def)
next
  case (advance t k a b)
  then show ?case
    using writer_slot_update [of t k a b] by (simp add: same_request_dataD)
next
  case (finalize t k a b)
  then show ?case
    by (intro writer_slot_release [of t b a]) (simp_all add: same_request_dataD keyedD)
next
  case (abort_reserved t k a b)
  then show ?case
    by (intro writer_slot_release [of _ b a]) (simp_all add: same_request_dataD keyedD writer_slot_def)
next
  case (abort_committed t k a b)
  then show ?case
    by (intro writer_slot_release [of _ b a]) (simp_all add: same_request_dataD keyedD writer_slot_def)
next
  case (abort_unowned t k a b)
  then show ?case
    by (intro writer_slot_release [of _ b a]) (simp_all add: same_request_dataD keyedD)
qed (simp_all add: writer_slot_def)

end
