(* ===== verification/Recipient_Inv.thy ===== *)
theory Recipient_Inv
  imports Admission_Inv
begin

text \<open>
  The recipient slots: every active admission holds its recipient, and so does every delegation
  of the old ledger format that has no result yet.  The two kinds of holder write the same
  dictionary under identities of different origin (a hash of the admission, a delegation id of the
  payload), so the invariant is stated up to an explicit collision of the two.
\<close>

definition id_collision :: "admission_state \<Rightarrow> bool" where
  "id_collision t \<longleftrightarrow>
     list_ex (\<lambda>a. list_ex (\<lambda>b. a_delegation_id a = Some (a_id b)) (dvals (s_admissions t)))
       (dvals (s_admissions t))"

lemma id_collision_iff:
  "id_collision t \<longleftrightarrow> (\<exists>k a k' b. dget (s_admissions t) k = Some a \<and> dget (s_admissions t) k' = Some b
     \<and> a_delegation_id a = Some (a_id b))"
  unfolding id_collision_def list_ex_iff dict_val_simps by blast

section \<open>Owners of delegations\<close>

definition delegation_owners :: "admission_state \<Rightarrow> bool" where
  "delegation_owners t \<longleftrightarrow>
     (\<forall>d g. dget (s_delegations t) d = Some g \<longrightarrow>
        dget (s_run_owners t) (rg_run_id g) = Some (Legacy_delegation d)
        \<or> (\<exists>k a. dget (s_admissions t) k = Some a \<and> a_delegation_id a = Some d))
     \<and> (\<forall>r d. dget (s_run_owners t) r = Some (Legacy_delegation d) \<longrightarrow>
          (\<exists>g. dget (s_delegations t) d = Some g \<and> rg_run_id g = r))"

lemma delegation_ownersD:
  "delegation_owners t \<Longrightarrow> dget (s_delegations t) d = Some g \<Longrightarrow>
     dget (s_run_owners t) (rg_run_id g) = Some (Legacy_delegation d)
     \<or> (\<exists>k a. dget (s_admissions t) k = Some a \<and> a_delegation_id a = Some d)"
  "delegation_owners t \<Longrightarrow> dget (s_run_owners t) r = Some (Legacy_delegation d) \<Longrightarrow>
     \<exists>g. dget (s_delegations t) d = Some g \<and> rg_run_id g = r"
  unfolding delegation_owners_def by blast+

definition grows :: "admission_state \<Rightarrow> admission_state \<Rightarrow> bool" where
  "grows t t' \<longleftrightarrow>
     (\<forall>k a. dget (s_admissions t) k = Some a \<longrightarrow>
        (\<exists>b. dget (s_admissions t') k = Some b \<and> a_id b = a_id a \<and> a_delegation_id b = a_delegation_id a))"

lemma grows_collision: "grows t t' \<Longrightarrow> id_collision t \<Longrightarrow> id_collision t'"
  unfolding id_collision_iff grows_def by metis

lemma move_grows: "move t t' \<Longrightarrow> keyed t \<Longrightarrow> grows t t'"
proof (induction rule: move.induct)
  case (reserve t po p g ps lane ev)
  have "k \<notin> a_id ` set (rv_admissions p)" if "dget (s_admissions t) k = Some a" for k a
    using reserve.hyps that by (auto simp: fits_def slots_free_def dhas_def)
  then show ?case
    using reserve.hyps by (simp add: grows_def batch_simps)
next
  case (commit t k a b)
  then show ?case by (auto simp: grows_def keyedD same_request_dataD)
next
  case (advance t k a b)
  then show ?case by (auto simp: grows_def keyedD same_request_dataD)
next
  case (finalize t k a b)
  then show ?case by (auto simp: grows_def release_fields keyedD same_request_dataD)
next
  case (abort_reserved t k a b)
  then show ?case by (auto simp: grows_def release_fields keyedD same_request_dataD)
next
  case (abort_committed t k a b)
  then show ?case by (auto simp: grows_def release_fields keyedD same_request_dataD)
next
  case (abort_unowned t k a b)
  then show ?case by (auto simp: grows_def release_fields keyedD same_request_dataD)
qed (auto simp: grows_def)

lemma delegation_owners_move:
  assumes "delegation_owners t" and "grows t t'" and "s_delegations t' = s_delegations t"
    and "\<And>r d. dget (s_run_owners t') r = Some (Legacy_delegation d) \<longleftrightarrow>
           dget (s_run_owners t) r = Some (Legacy_delegation d)"
  shows "delegation_owners t'"
  unfolding delegation_owners_def assms(3,4)
proof (intro conjI allI impI)
  fix d g assume "dget (s_delegations t) d = Some g"
  from delegation_ownersD(1) [OF assms(1) this] assms(2)
  show "dget (s_run_owners t) (rg_run_id g) = Some (Legacy_delegation d)
        \<or> (\<exists>k a. dget (s_admissions t') k = Some a \<and> a_delegation_id a = Some d)"
    unfolding grows_def by metis
next
  fix r d assume "dget (s_run_owners t) r = Some (Legacy_delegation d)"
  then show "\<exists>g. dget (s_delegations t) d = Some g \<and> rg_run_id g = r"
    by (rule delegation_ownersD(2) [OF assms(1)])
qed

lemma move_delegation_owners:
  assumes "move t t'" and "keyed t" and "delegation_owners t"
  shows "delegation_owners t'"
proof -
  have grows: "grows t t'" using move_grows assms(1,2) by blast
  from assms(1) show ?thesis
  proof cases
    case (legacy_lead r)
    then show ?thesis
      by (intro delegation_owners_move [OF assms(3) grows]) (auto simp: dhas_def)
  next
    case (legacy_delegation g)
    then show ?thesis
      using assms(3) unfolding delegation_owners_def dhas_def
      by (auto split: if_splits) (metis option.distinct(1))+
  next
    case (delegation g k a)
    then have "dget (s_run_owners t) r \<noteq> Some (Legacy_delegation (rg_delegation g))" for r
      using delegation_ownersD(2) [OF assms(3), of r "rg_delegation g"] by (auto simp: dhas_def)
    with delegation show ?thesis
      using assms(3) by (auto simp: delegation_owners_def split: if_splits)
  qed (rule delegation_owners_move [OF assms(3) grows];
        auto simp: batch_simps release_fields dhas_def dict.get_del split: if_splits)+
qed

section \<open>Recipients\<close>

text \<open>A delegation of the old format that still occupies its recipient.\<close>

definition open_legacy :: "admission_state \<Rightarrow> string \<Rightarrow> registration \<Rightarrow> bool" where
  "open_legacy t d g \<longleftrightarrow>
     dget (s_delegations t) d = Some g \<and> dget (s_results t) d = None
     \<and> dget (s_run_owners t) (rg_run_id g) = Some (Legacy_delegation d)"

definition recipient_slots :: "admission_state \<Rightarrow> bool" where
  "recipient_slots t \<longleftrightarrow>
     (\<forall>k a. dget (s_admissions t) k = Some a \<longrightarrow> a_active a \<longrightarrow> dget (s_recipients t) (a_recipient a) = Some k)
     \<and> (\<forall>d g. open_legacy t d g \<longrightarrow> dget (s_recipients t) (rg_recipient g) = Some d
          \<and> (\<forall>k a. dget (s_admissions t) k = Some a \<longrightarrow> a_active a \<longrightarrow> a_recipient a \<noteq> rg_recipient g))"

lemma recipient_slotsD:
  "recipient_slots t \<Longrightarrow> dget (s_admissions t) k = Some a \<Longrightarrow> a_active a \<Longrightarrow>
     dget (s_recipients t) (a_recipient a) = Some k"
  "recipient_slots t \<Longrightarrow> open_legacy t d g \<Longrightarrow> dget (s_recipients t) (rg_recipient g) = Some d"
  "recipient_slots t \<Longrightarrow> open_legacy t d g \<Longrightarrow> dget (s_admissions t) k = Some a \<Longrightarrow> a_active a \<Longrightarrow>
     a_recipient a \<noteq> rg_recipient g"
  unfolding recipient_slots_def by blast+

lemma recipient_slots_update:
  assumes "recipient_slots t" and "dget (s_admissions t) k = Some a" and "same_request_data a b"
    and "a_active b = a_active a" and "\<And>k'. dget (s_admissions t') k' = (if k = k' then Some b else dget (s_admissions t) k')"
    and "s_recipients t' = s_recipients t" and "\<And>d g. open_legacy t' d g \<Longrightarrow> open_legacy t d g"
  shows "recipient_slots t'"
proof -
  have old: "\<exists>c. dget (s_admissions t) k' = Some c \<and> a_active c \<and> a_recipient c = a_recipient x"
    if "dget (s_admissions t') k' = Some x" "a_active x" for k' x
    using that assms(2-5) by (cases "k = k'") (auto dest: same_request_dataD(3))
  show ?thesis
    unfolding recipient_slots_def assms(6)
  proof (intro conjI allI impI)
    fix k' x assume "dget (s_admissions t') k' = Some x" "a_active x"
    from old [OF this] show "dget (s_recipients t) (a_recipient x) = Some k'"
      using recipient_slotsD(1) [OF assms(1)] by metis
  next
    fix d g assume "open_legacy t' d g"
    then show "dget (s_recipients t) (rg_recipient g) = Some d"
      using recipient_slotsD(2) [OF assms(1)] assms(7) by blast
  next
    fix d g k' x assume "open_legacy t' d g" and "dget (s_admissions t') k' = Some x" "a_active x"
    then show "a_recipient x \<noteq> rg_recipient g"
      using old recipient_slotsD(3) [OF assms(1)] assms(7) by metis
  qed
qed

lemma recipient_slots_release:
  assumes slots: "recipient_slots t" and a: "dget (s_admissions t) (a_id b) = Some a"
    and same: "same_request_data a b" "a_active b = a_active a"
    and legacy: "\<And>d g. open_legacy (release_admission b t) d g \<Longrightarrow> open_legacy t d g"
  shows "recipient_slots (release_admission b t)"
proof -
  let ?t = "release_admission b t"
  have old: "dget (s_admissions t) k = Some x \<and> k \<noteq> a_id b"
    if "dget (s_admissions ?t) k = Some x" "a_active x" for k x
    using that by (auto simp: release_fields split: if_splits)
  have b: "a_recipient b = a_recipient a" using same(1) by (rule same_request_dataD)
  have "dget (s_recipients ?t) (a_recipient x) = Some k"
    if "dget (s_admissions ?t) k = Some x" "a_active x" for k x
    using old [OF that] recipient_slotsD(1) [OF slots, of k x] that(2) by (auto simp: release_fields)
  moreover have "dget (s_recipients ?t) (rg_recipient g) = Some d" if "open_legacy ?t d g" for d g
    using recipient_slotsD(2) [OF slots legacy [OF that]] recipient_slotsD(3) [OF slots legacy [OF that] a]
      b same(2) by (auto simp: release_fields)
  moreover have "a_recipient x \<noteq> rg_recipient g"
    if "open_legacy ?t d g" "dget (s_admissions ?t) k = Some x" "a_active x" for d g k x
    using recipient_slotsD(3) [OF slots legacy [OF that(1)]] old [OF that(2,3)] that(3) by blast
  ultimately show ?thesis
    unfolding recipient_slots_def by blast
qed

lemma open_legacy_cong:
  "s_delegations t' = s_delegations t \<Longrightarrow> s_results t' = s_results t \<Longrightarrow>
     (\<And>r d. dget (s_run_owners t') r = Some (Legacy_delegation d) \<Longrightarrow>
        dget (s_run_owners t) r = Some (Legacy_delegation d)) \<Longrightarrow>
     open_legacy t' d g \<Longrightarrow> open_legacy t d g"
  by (simp add: open_legacy_def)

lemma recipient_slots_reserve:
  assumes slots: "recipient_slots t" and fits: "fits t po (rv_admissions p) g ds"
  shows "recipient_slots (commit_batch lane ev po p g ds t)"
proof -
  let ?t = "commit_batch lane ev po p g ds t" and ?as = "rv_admissions p"
  have free: "dget (s_recipients t) (a_recipient a) = None" if "a \<in> set ?as" for a
    using fits that by (auto simp: fits_def slots_free_def dhas_def)
  have legacy: "open_legacy ?t d h \<Longrightarrow> open_legacy t d h" for d h
    by (simp add: open_legacy_def batch_simps [OF fits])
  have member: "batch_map a_recipient ?as (a_recipient a) = Some a" if "a \<in> set ?as" for a
    using fits that by (auto simp: fits_def batch_ok_def batch_map_member)
  let ?old = "\<lambda>k x. \<exists>y. dget (s_admissions t) k = Some y \<and> a_active y \<and> a_recipient y = a_recipient x"
  have new: "(\<exists>a \<in> set ?as. a_id a = k \<and> a_recipient a = a_recipient x) \<or> ?old k x"
    if "dget (s_admissions ?t) k = Some x" "a_active x" for k x
    using that by (auto simp: batch_simps [OF fits] split: option.splits dest: batch_map_SomeD)
  have kept: "dget (s_recipients ?t) r = Some k" "r \<notin> a_recipient ` set ?as"
    if "dget (s_recipients t) r = Some k" for r k
  proof -
    show "r \<notin> a_recipient ` set ?as" using that free by auto
    then show "dget (s_recipients ?t) r = Some k" using that by (simp add: batch_simps [OF fits])
  qed
  have "dget (s_recipients ?t) (a_recipient x) = Some k"
    if x: "dget (s_admissions ?t) k = Some x" "a_active x" for k x
    using new [OF x]
  proof
    assume "?old k x"
    then show ?thesis
      using recipient_slotsD(1) [OF slots] kept(1) by metis
  next
    assume "\<exists>a \<in> set ?as. a_id a = k \<and> a_recipient a = a_recipient x"
    then obtain a where "a \<in> set ?as" "a_id a = k" "a_recipient a = a_recipient x" by blast
    then show ?thesis
      using member [of a] by (simp add: batch_simps [OF fits])
  qed
  moreover have "dget (s_recipients ?t) (rg_recipient h) = Some d" "rg_recipient h \<notin> a_recipient ` set ?as"
    if "open_legacy ?t d h" for d h
    using kept [OF recipient_slotsD(2) [OF slots legacy [OF that]]] by auto
  moreover have "a_recipient x \<noteq> rg_recipient h"
    if h: "open_legacy ?t d h" and x: "dget (s_admissions ?t) k = Some x" "a_active x" for d h k x
    using new [OF x]
  proof
    assume "?old k x"
    then show ?thesis
      using recipient_slotsD(3) [OF slots legacy [OF h]] by metis
  next
    assume "\<exists>a \<in> set ?as. a_id a = k \<and> a_recipient a = a_recipient x"
    then show ?thesis
      using kept(2) [OF recipient_slotsD(2) [OF slots legacy [OF h]]] by (metis imageI)
  qed
  ultimately show ?thesis
    unfolding recipient_slots_def by blast
qed

lemma recipient_slots_register:
  assumes slots: "recipient_slots t" and fresh: "\<not> dhas (s_delegations t) (rg_delegation g)"
    "\<not> dhas (s_recipients t) (rg_recipient g)" "\<not> dhas (s_run_owners t) (rg_run_id g)"
  shows "recipient_slots
    (t\<lparr>s_run_owners := dput (rg_run_id g) (Legacy_delegation (rg_delegation g)) (s_run_owners t),
       s_recipients := dput (rg_recipient g) (rg_delegation g) (s_recipients t),
       s_delegations := dput (rg_delegation g) g (s_delegations t)\<rparr>)" (is "recipient_slots ?t")
proof -
  have legacy: "(d = rg_delegation g \<and> h = g) \<or> (open_legacy t d h \<and> rg_recipient h \<noteq> rg_recipient g)"
    if "open_legacy ?t d h" for d h
    using that recipient_slotsD(2) [OF slots, of d h] fresh
    by (auto simp: open_legacy_def dhas_def split: if_splits)
  have "a_recipient a \<noteq> rg_recipient g" if "dget (s_admissions t) k = Some a" "a_active a" for k a
    using recipient_slotsD(1) [OF slots that] fresh(2) by (auto simp: dhas_def)
  then show ?thesis
    using recipient_slotsD [OF slots] legacy unfolding recipient_slots_def by fastforce
qed

lemma recipient_slots_legacy_result:
  assumes slots: "recipient_slots t" and owners: "delegation_owners t" and keyed: "keyed t"
    and fresh: "\<not> dhas (s_results t) d" and g: "dget (s_delegations t) d = Some g"
    and held: "dget (s_recipients t) (rg_recipient g) = Some d" and distinct: "\<not> id_collision t"
  shows "recipient_slots
    (t\<lparr>s_results := dput d r (s_results t), s_recipients := ddel (rg_recipient g) (s_recipients t)\<rparr>)"
    (is "recipient_slots ?t")
proof -
  have no_admission: "a_recipient a \<noteq> rg_recipient g" if a: "dget (s_admissions t) k = Some a" "a_active a" for k a
  proof
    assume same: "a_recipient a = rg_recipient g"
    then have "a_id a = d"
      using recipient_slotsD(1) [OF slots a] held keyedD [OF keyed a(1)] by simp
    moreover have "\<not> open_legacy t d g"
      using recipient_slotsD(3) [OF slots _ a] same by blast
    ultimately have "id_collision t"
      using delegation_ownersD(1) [OF owners g] a(1) g fresh
      unfolding id_collision_iff open_legacy_def dhas_def by blast
    with distinct show False ..
  qed
  have legacy: "open_legacy t d' h \<and> d' \<noteq> d" if "open_legacy ?t d' h" for d' h
    using that by (auto simp: open_legacy_def split: if_splits)
  then have "rg_recipient h \<noteq> rg_recipient g" if "open_legacy ?t d' h" for d' h
    using recipient_slotsD(2) [OF slots, of d' h] that held by fastforce
  moreover have "dget (s_recipients ?t) (rg_recipient h) = Some d'"
    if "open_legacy ?t d' h" for d' h
    using recipient_slotsD(2) [OF slots, of d' h] legacy [OF that] calculation [OF that]
    by (simp add: dict.get_del)
  moreover have "dget (s_recipients ?t) (a_recipient a) = Some k"
    if "dget (s_admissions t) k = Some a" "a_active a" for k a
    using recipient_slotsD(1) [OF slots that] no_admission [OF that] by (simp add: dict.get_del)
  moreover have "a_recipient a \<noteq> rg_recipient h"
    if "open_legacy ?t d' h" "dget (s_admissions t) k = Some a" "a_active a" for d' h k a
    using recipient_slotsD(3) [OF slots _ that(2,3)] legacy [OF that(1)] by blast
  ultimately show ?thesis
    unfolding recipient_slots_def by simp
qed

lemma release_open_legacy: "open_legacy (release_admission b t) d g = open_legacy t d g"
  by (simp add: open_legacy_def release_fields)

lemma recipient_slots_shrink:
  assumes "recipient_slots t" and "s_admissions t' = s_admissions t" and "s_recipients t' = s_recipients t"
    and "\<And>d g. open_legacy t' d g \<Longrightarrow> open_legacy t d g"
  shows "recipient_slots t'"
  using assms(1,4) unfolding recipient_slots_def assms(2,3) by blast

lemma move_recipient_slots:
  assumes "move t t'" and "keyed t" and "delegation_owners t" and "recipient_slots t" and "\<not> id_collision t'"
  shows "recipient_slots t'"
  using assms
proof (induction rule: move.induct)
  case (reserve t po p g ps lane ev)
  then show ?case by (intro recipient_slots_reserve)
next
  case (commit t k a b)
  have id: "a_id a = k"
    using keyedD [OF commit.prems(1) commit.hyps(1)] .
  show ?case
    by (rule recipient_slots_update [OF commit.prems(3) commit.hyps(1) commit.hyps(5,6)])
      (auto simp: id open_legacy_def split: if_splits)
next
  case (advance t k a b)
  show ?case
    by (rule recipient_slots_update [OF advance.prems(3) advance.hyps(1-3)]) (simp_all add: open_legacy_def)
next
  case (finalize t k a b)
  then have "a_id b = k" by (auto dest: same_request_dataD(1) keyedD)
  with finalize show ?case
    by (intro recipient_slots_release [of t b a]) (simp_all add: release_open_legacy)
next
  case (abort_reserved t k a b)
  then have "a_id b = k" by (auto dest: same_request_dataD(1) keyedD)
  moreover have "recipient_slots (t\<lparr>s_run_claims := ddel (a_run_id a) (s_run_claims t)\<rparr>)"
    by (rule recipient_slots_shrink [OF abort_reserved.prems(3)]) (simp_all add: open_legacy_def)
  ultimately show ?case
    using abort_reserved.hyps by (intro recipient_slots_release [of _ b a]) (simp_all add: release_open_legacy)
next
  case (abort_committed t k a b)
  then have "a_id b = k" by (auto dest: same_request_dataD(1) keyedD)
  moreover have "recipient_slots (t\<lparr>s_run_owners := ddel (a_run_id a) (s_run_owners t)\<rparr>)"
    by (rule recipient_slots_shrink [OF abort_committed.prems(3)])
      (simp_all add: open_legacy_def dict.get_del split: if_splits)
  ultimately show ?case
    using abort_committed.hyps by (intro recipient_slots_release [of _ b a]) (simp_all add: release_open_legacy)
next
  case (abort_unowned t k a b)
  then have "a_id b = k" by (auto dest: same_request_dataD(1) keyedD)
  with abort_unowned show ?case
    by (intro recipient_slots_release [of t b a]) (simp_all add: release_open_legacy)
next
  case (legacy_delegation t g)
  then show ?case by (intro recipient_slots_register)
next
  case (delegation t g k a)
  have "dget (s_run_owners t) r \<noteq> Some (Legacy_delegation (rg_delegation g))" for r
    using delegation delegation_ownersD(2) [of t r "rg_delegation g"] by (auto simp: dhas_def)
  then show ?case
    by (intro recipient_slots_shrink [OF delegation.prems(3)]) (simp_all add: open_legacy_def split: if_splits)
next
  case (legacy_result t d g r)
  then have "\<not> id_collision t" by (simp add: id_collision_def)
  with legacy_result show ?case by (intro recipient_slots_legacy_result)
next
  case (quiet t c l r y)
  show ?case by (rule recipient_slots_shrink [OF quiet.prems(3)]) (simp_all add: open_legacy_def)
next
  case (freeze t po ev)
  show ?case by (rule recipient_slots_shrink [OF freeze.prems(3)]) (simp_all add: open_legacy_def)
next
  case (legacy_lead t r)
  show ?case
    by (rule recipient_slots_shrink [OF legacy_lead.prems(3)]) (simp_all add: open_legacy_def split: if_splits)
next
  case (result t d r)
  show ?case
    by (rule recipient_slots_shrink [OF result.prems(3)]) (simp_all add: open_legacy_def split: if_splits)
qed

end
