(* ===== verification/Credit_Inv.thy ===== *)
theory Credit_Inv
  imports Recipient_Inv
begin

text \<open>
  The accounts of admission control: the number of active specialists and the credits of the
  mission, as totals over the stored admissions.
\<close>

section \<open>Totals over the stored admissions\<close>

lemma total_charge_parents:
  "(\<And>c a. f (charge c a) = f a) \<Longrightarrow> dict.total f (charge_parents kcs d) = dict.total f d"
proof (induction kcs arbitrary: d)
  case (Cons kc kcs)
  obtain k c where "kc = (k, c)" by (cases kc)
  with Cons show ?case
    by (cases "dget d k") (simp_all add: dict.total_put charge_def [symmetric])
qed simp

lemma total_batch:
  assumes fits: "fits t po (rv_admissions p) g ds" and f: "\<And>c a. f (charge c a) = f a"
  shows "dict.total f (s_admissions (commit_batch lane ev po p g ds t)) =
    dict.total f (s_admissions t) + (\<Sum>a \<leftarrow> rv_admissions p. f (stored_admission lane ev ds a))"
proof -
  have "distinct (map a_id (rv_admissions p))"
    using fits by (simp add: fits_def batch_ok_def)
  moreover have "dget (charge_parents (ditems ds) (s_admissions t)) (a_id a) = None"
    if "a \<in> set (rv_admissions p)" for a
    using fits that by (simp add: charge_parents_dict fits_def slots_free_def dhas_def)
  ultimately show ?thesis
    by (simp add: commit_batch_def Let_def store_admissions_total total_charge_parents f)
qed

lemma total_update:
  "dget d k = Some a \<Longrightarrow> f b = f a \<Longrightarrow> dict.total f (dput k b d) = dict.total f d"
  by (simp add: dict.total_put)

lemma total_none:
  assumes "\<forall>k. dget d k = None"
  shows "dict.total f d = 0"
proof -
  have "(k, v) \<notin> set (ditems d)" for k v
    using assms by (simp add: dict.items_get)
  then have "ditems d = []" by (cases "ditems d") auto
  then show ?thesis by (simp add: dict.total_def)
qed

lemma keyed_other [simp]:
  "keyed (t\<lparr>s_run_claims := c\<rparr>) = keyed t" "keyed (t\<lparr>s_run_owners := ow\<rparr>) = keyed t"
  by (simp_all add: keyed_def)

section \<open>Active specialists\<close>

definition active_specialist :: "admission \<Rightarrow> int" where
  "active_specialist a = (if a_active a \<and> a_run_kind a = Specialist then 1 else 0)"

definition activity_count :: "admission_state \<Rightarrow> bool" where
  "activity_count t \<longleftrightarrow>
     s_active t = dict.total active_specialist (s_admissions t)
     \<and> (\<forall>po ev. s_policy t = Some (po, ev) \<longrightarrow> s_active t \<le> po_max_active po)
     \<and> (s_policy t = None \<longrightarrow> (\<forall>k. dget (s_admissions t) k = None))"

lemma activity_count_other [simp]:
  "activity_count (t\<lparr>s_run_claims := c\<rparr>) = activity_count t"
  "activity_count (t\<lparr>s_run_owners := ow\<rparr>) = activity_count t"
  "activity_count (t\<lparr>s_lead_run := x0\<rparr>) = activity_count t"
  "activity_count (t\<lparr>s_lead_result := x1\<rparr>) = activity_count t"
  "activity_count (t\<lparr>s_cancelled := x2\<rparr>) = activity_count t"
  "activity_count (t\<lparr>s_synthesis := x3\<rparr>) = activity_count t"
  "activity_count (t\<lparr>s_recipients := x4\<rparr>) = activity_count t"
  "activity_count (t\<lparr>s_delegations := x5\<rparr>) = activity_count t"
  "activity_count (t\<lparr>s_results := x6\<rparr>) = activity_count t"
  by (auto simp: activity_count_def)

lemma specialists_sum:
  "specialists as = (\<Sum>a \<leftarrow> as. active_specialist (stored_admission lane ev ds a))"
  by (induction as) (auto simp: specialists_def active_specialist_def)

lemma active_specialist_charge [simp]: "active_specialist (charge c a) = active_specialist a"
  by (simp add: active_specialist_def)

lemma activity_count_release:
  assumes "activity_count t" and "dget (s_admissions t) (a_id b) = Some a" and "a_active b = a_active a"
    and "a_run_kind b = a_run_kind a"
  shows "activity_count (release_admission b t)"
  using assms by (auto simp: activity_count_def release_fields dict.total_put active_specialist_def)

text \<open>An update of one admission, and what the moves below need to know of it.\<close>

lemma released_id: "keyed t \<Longrightarrow> dget (s_admissions t) k = Some a \<Longrightarrow> same_request_data a b \<Longrightarrow> a_id b = k"
  by (auto dest: same_request_dataD(1) keyedD)

lemma move_activity_count: "move t t' \<Longrightarrow> keyed t \<Longrightarrow> activity_count t \<Longrightarrow> activity_count t'"
proof (induction rule: move.induct)
  case (freeze t po ev)
  then show ?case by (simp add: activity_count_def policy_ok_def total_none)
next
  case (reserve t po p g ds lane ev)
  then obtain pe where "s_policy t = Some (po, pe)" and "s_active t + specialists (rv_admissions p) \<le> po_max_active po"
    by (auto simp: fits_def)
  with reserve show ?case
    by (simp add: activity_count_def batch_simps total_batch specialists_sum [symmetric])
next
  case (commit t k a b)
  then have "a_id a = k" by (auto dest: keyedD)
  with commit show ?case
    by (auto simp: activity_count_def total_update active_specialist_def same_request_dataD)
next
  case (advance t k a b)
  then show ?case
    by (auto simp: activity_count_def total_update active_specialist_def same_request_dataD)
next
  case (finalize t k a b)
  with released_id [of t k a b] show ?case
    by (intro activity_count_release [of t b a]) (simp_all add: same_request_dataD)
next
  case (abort_reserved t k a b)
  with released_id [of t k a b] show ?case
    by (intro activity_count_release [of _ b a]) (simp_all add: same_request_dataD)
next
  case (abort_committed t k a b)
  with released_id [of t k a b] show ?case
    by (intro activity_count_release [of _ b a]) (simp_all add: same_request_dataD)
next
  case (abort_unowned t k a b)
  with released_id [of t k a b] show ?case
    by (intro activity_count_release [of _ b a]) (simp_all add: same_request_dataD)
qed (auto simp: activity_count_def)

section \<open>Credits\<close>

definition nonneg_debits :: "admission \<Rightarrow> bool" where
  "nonneg_debits a \<longleftrightarrow> 0 \<le> a_budget a \<and> 0 \<le> a_global_debit a \<and> 0 \<le> a_parent_debit a \<and> priced a"

definition credit_account :: "admission_state \<Rightarrow> bool" where
  "credit_account t \<longleftrightarrow>
     s_spent t = dict.total a_global_debit (s_admissions t)
     \<and> (\<forall>k a. dget (s_admissions t) k = Some a \<longrightarrow> nonneg_debits a)
     \<and> (\<forall>po ev. s_policy t = Some (po, ev) \<longrightarrow> policy_ok po \<and> s_spent t \<le> po_credits po
          \<and> s_remaining t = Some (po_credits po - s_spent t))
     \<and> (s_policy t = None \<longrightarrow> s_remaining t = None \<and> (\<forall>k. dget (s_admissions t) k = None))"

lemma credit_account_update:
  assumes "credit_account t" and "dget (s_admissions t) k = Some a" and "same_request_data a b"
    and "\<And>k'. dget (s_admissions t') k' = (if k = k' then Some b else dget (s_admissions t) k')"
    and "dict.total a_global_debit (s_admissions t') = dict.total a_global_debit (s_admissions t)"
    and "s_policy t' = s_policy t" "s_spent t' = s_spent t" "s_remaining t' = s_remaining t"
  shows "credit_account t'"
proof -
  have "nonneg_debits b"
    using assms(1,2) same_request_dataD [OF assms(3)] assms(3)
    by (auto simp: credit_account_def nonneg_debits_def priced_def same_request_data_def
        admission_request.truncate_def)
  moreover have "s_policy t \<noteq> None"
    using assms(1,2) by (auto simp: credit_account_def)
  ultimately show ?thesis
    using assms(1,2,4-) by (auto simp: credit_account_def)
qed

lemma credit_account_release:
  assumes "credit_account t" and "keyed t" and "dget (s_admissions t) k = Some a" and "same_request_data a b"
  shows "credit_account (release_admission b t)"
proof -
  have id: "a_id b = k" using assms(2-4) by (rule released_id)
  have "same_request_data a (b\<lparr>a_active := False\<rparr>)"
    using assms(4) by (simp add: same_request_data_def)
  then show ?thesis
    by (rule credit_account_update [OF assms(1,3)])
      (simp_all add: release_fields id total_update [OF assms(3)] same_request_dataD [OF assms(4)])
qed

lemma credit_account_cong:
  "credit_account t \<Longrightarrow> s_admissions t' = s_admissions t \<Longrightarrow> s_policy t' = s_policy t \<Longrightarrow>
     s_spent t' = s_spent t \<Longrightarrow> s_remaining t' = s_remaining t \<Longrightarrow> credit_account t'"
  by (auto simp: credit_account_def)

lemma credit_account_other [simp]:
  "credit_account (t\<lparr>s_run_claims := c\<rparr>) = credit_account t"
  "credit_account (t\<lparr>s_run_owners := ow\<rparr>) = credit_account t"
  "credit_account (t\<lparr>s_lead_run := x0\<rparr>) = credit_account t"
  "credit_account (t\<lparr>s_lead_result := x1\<rparr>) = credit_account t"
  "credit_account (t\<lparr>s_cancelled := x2\<rparr>) = credit_account t"
  "credit_account (t\<lparr>s_synthesis := x3\<rparr>) = credit_account t"
  "credit_account (t\<lparr>s_recipients := x4\<rparr>) = credit_account t"
  "credit_account (t\<lparr>s_delegations := x5\<rparr>) = credit_account t"
  "credit_account (t\<lparr>s_results := x6\<rparr>) = credit_account t"
  by (auto simp: credit_account_def)

lemma nonneg_stored:
  "fits t po as g ds \<Longrightarrow> a \<in> set as \<Longrightarrow> nonneg_debits (stored_admission lane ev ds a)"
  by (auto simp: fits_def batch_ok_def list_all_iff nonneg_debits_def priced_def)

lemma credit_account_reserve:
  assumes acc: "credit_account t" and fits: "fits t po (rv_admissions p) g ds"
  shows "credit_account (commit_batch lane ev po p g ds t)"
proof -
  obtain pe where po: "s_policy t = Some (po, pe)" and g: "g = (\<Sum>a \<leftarrow> rv_admissions p. a_global_debit a)"
    and le: "s_spent t + g \<le> po_credits po"
    using fits by (auto simp: fits_def affordable_def)
  have "nonneg_debits x" if "dget (s_admissions (commit_batch lane ev po p g ds t)) k = Some x" for k x
    using that acc nonneg_stored [OF fits] unfolding batch_simps [OF fits] credit_account_def
    by (auto simp: nonneg_debits_def priced_def charge_def split: option.splits dest!: batch_map_SomeD)
  then show ?thesis
    using acc po g le unfolding credit_account_def batch_simps [OF fits] total_batch [OF fits, of a_global_debit, simplified]
    by (simp add: batch_simps [OF fits])
qed

lemma move_credit_account: "move t t' \<Longrightarrow> keyed t \<Longrightarrow> credit_account t \<Longrightarrow> credit_account t'"
proof (induction rule: move.induct)
  case (freeze t po ev)
  then show ?case by (simp add: credit_account_def total_none policy_ok_def)
next
  case (reserve t po p g ds lane ev)
  then show ?case by (intro credit_account_reserve)
next
  case (commit t k a b)
  have id: "a_id a = k" using keyedD [OF commit.prems(1) commit.hyps(1)] .
  show ?case
    by (rule credit_account_update [OF commit.prems(2) commit.hyps(1) commit.hyps(5)])
      (simp_all add: id total_update [OF commit.hyps(1)] same_request_dataD [OF commit.hyps(5)])
next
  case (advance t k a b)
  show ?case
    by (rule credit_account_update [OF advance.prems(2) advance.hyps(1,2)])
      (simp_all add: total_update [OF advance.hyps(1)] same_request_dataD [OF advance.hyps(2)])
next
  case (finalize t k a b)
  show ?case
    by (rule credit_account_release [OF finalize.prems(2,1) finalize.hyps(1,4)])
next
  case (abort_reserved t k a b)
  then show ?case
    by (intro credit_account_release [of _ k a b]) (simp_all)
next
  case (abort_committed t k a b)
  then show ?case
    by (intro credit_account_release [of _ k a b]) (simp_all)
next
  case (abort_unowned t k a b)
  show ?case
    by (rule credit_account_release [OF abort_unowned.prems(2,1) abort_unowned.hyps(1,4)])
qed (auto simp: credit_account_def)

end
