(* ===== verification/Family_Inv.thy ===== *)
theory Family_Inv
  imports Credit_Inv
begin

text \<open>
  Parents and children: every parent is stored and stays active while a child is, chains of
  parents end, and what the children of an admission cost stays within its delegated budget.
\<close>

section \<open>Active children\<close>

lemma has_active_child_iff:
  "has_active_child t k \<longleftrightarrow> (\<exists>k' c. dget (s_admissions t) k' = Some c \<and> a_active c \<and> a_parent c = Some k)"
  unfolding has_active_child_def list_ex_iff dict_val_simps by blast

definition tied :: "admission_state \<Rightarrow> bool" where
  "tied t \<longleftrightarrow>
     (\<forall>k a p. dget (s_admissions t) k = Some a \<longrightarrow> a_parent a = Some p \<longrightarrow>
        (\<exists>b. dget (s_admissions t) p = Some b \<and> (a_active a \<longrightarrow> a_active b)))"

lemma tiedD:
  "tied t \<Longrightarrow> dget (s_admissions t) k = Some a \<Longrightarrow> a_parent a = Some p \<Longrightarrow>
     \<exists>b. dget (s_admissions t) p = Some b \<and> (a_active a \<longrightarrow> a_active b)"
  by (simp add: tied_def)

lemma tied_cong: "tied t \<Longrightarrow> s_admissions t' = s_admissions t \<Longrightarrow> tied t'"
  by (simp add: tied_def)

text \<open>One admission changes; it may stop being active when it has no active child.\<close>

lemma tied_update:
  assumes "tied t" and a: "dget (s_admissions t) k = Some a" and "a_parent b = a_parent a"
    and "a_active b \<longrightarrow> a_active a" and idle: "a_active b = a_active a \<or> \<not> has_active_child t k"
    and upd: "\<And>k'. dget (s_admissions t') k' = (if k = k' then Some b else dget (s_admissions t) k')"
  shows "tied t'"
  unfolding tied_def
proof (intro allI impI)
  fix k' c p
  assume c: "dget (s_admissions t') k' = Some c" and p: "a_parent c = Some p"
  obtain c0 where c0: "dget (s_admissions t) k' = Some c0" "a_parent c0 = Some p" "a_active c \<longrightarrow> a_active c0"
    using c p assms by (auto split: if_splits)
  obtain q where q: "dget (s_admissions t) p = Some q" "a_active c0 \<longrightarrow> a_active q"
    using tiedD [OF assms(1) c0(1,2)] by blast
  show "\<exists>q. dget (s_admissions t') p = Some q \<and> (a_active c \<longrightarrow> a_active q)"
  proof (cases "p = k")
    case True
    then have "a_active c \<longrightarrow> a_active b"
      using idle q a c0 by (auto simp: has_active_child_iff)
    with True show ?thesis by (simp add: upd)
  next
    case False
    then show ?thesis using q c0(3) by (auto simp: upd)
  qed
qed

lemma parent_live_stored:
  assumes fits: "fits t po (rv_admissions p) g ds" and "a \<in> set (rv_admissions p)" and "a_parent a = Some k"
  shows "\<exists>b. dget (s_admissions (commit_batch lane ev po p g ds t)) k = Some b \<and> a_active b"
proof -
  from assms have "parent_live t (rv_admissions p) a" by (simp add: fits_def)
  then have "k \<in> a_id ` set (rv_admissions p) \<or> (\<exists>b. dget (s_admissions t) k = Some b \<and> a_active b)"
    using assms(3) by (simp add: parent_live_def)
  then show ?thesis
    unfolding batch_simps [OF fits]
    by (cases "batch_map a_id (rv_admissions p) k") (auto simp: batch_map_None)
qed

lemma tied_reserve:
  assumes "tied t" and fits: "fits t po (rv_admissions p) g ds"
  shows "tied (commit_batch lane ev po p g ds t)"
  unfolding tied_def
proof (intro allI impI)
  fix k a q
  assume a: "dget (s_admissions (commit_batch lane ev po p g ds t)) k = Some a" and q: "a_parent a = Some q"
  show "\<exists>b. dget (s_admissions (commit_batch lane ev po p g ds t)) q = Some b \<and> (a_active a \<longrightarrow> a_active b)"
  proof (cases "batch_map a_id (rv_admissions p) k")
    case (Some r)
    then have "r \<in> set (rv_admissions p)" "a_parent r = Some q"
      using a q batch_map_SomeD [OF Some] by (auto simp: batch_simps [OF fits])
    then show ?thesis using parent_live_stored [OF fits] by blast
  next
    case None
    then obtain a0 where "dget (s_admissions t) k = Some a0" "a_parent a0 = Some q" "a_active a0 = a_active a"
      using a q by (auto simp: batch_simps [OF fits])
    with tiedD [OF assms(1), of k a0 q] obtain b where "dget (s_admissions t) q = Some b" "a_active a \<longrightarrow> a_active b"
      by auto
    then show ?thesis
      unfolding batch_simps [OF fits] by (cases "batch_map a_id (rv_admissions p) q") auto
  qed
qed

text \<open>What every move but a reservation does to the stored admissions.\<close>

lemma move_one:
  assumes "move t t'" and "keyed t"
  obtains (same) "s_admissions t' = s_admissions t"
  | (batch) po p g ds lane ev where "fits t po (rv_admissions p) g ds" "t' = commit_batch lane ev po p g ds t"
  | (one) k a b where "dget (s_admissions t) k = Some a" "same_request_data a b"
      "a_active b \<longrightarrow> a_active a" "a_active b = a_active a \<or> \<not> has_active_child t k"
      "\<And>k'. dget (s_admissions t') k' = (if k = k' then Some b else dget (s_admissions t) k')"
      "a_phase b = a_phase a \<or> phase_edge (a_phase a) (a_phase b)"
  using assms(1)
proof cases
  case (commit k a b)
  have "a_id a = k" using keyedD [OF assms(2) commit(2)] .
  then show thesis using commit by (intro one [of k a b]) auto
next
  case (advance k a b)
  then show thesis by (intro one [of k a b]) auto
next
  case (finalize k a b)
  have id: "a_id a = k" "a_id b = k"
    using keyedD [OF assms(2) finalize(2)] same_request_dataD(1) [OF finalize(5)] by auto
  have "same_request_data a (b\<lparr>a_active := False\<rparr>)"
    using finalize(5) by (simp add: same_request_data_def)
  then show thesis using finalize id
    by (intro one [of k a "b\<lparr>a_active := False\<rparr>"]) (auto simp: release_fields)
next
  case (abort_reserved k a b)
  have id: "a_id a = k" "a_id b = k"
    using keyedD [OF assms(2) abort_reserved(2)] same_request_dataD(1) [OF abort_reserved(5)] by auto
  have "same_request_data a (b\<lparr>a_active := False\<rparr>)"
    using abort_reserved(5) by (simp add: same_request_data_def)
  then show thesis using abort_reserved id
    by (intro one [of k a "b\<lparr>a_active := False\<rparr>"]) (auto simp: release_fields)
next
  case (abort_committed k a b)
  have id: "a_id a = k" "a_id b = k"
    using keyedD [OF assms(2) abort_committed(2)] same_request_dataD(1) [OF abort_committed(5)] by auto
  have "same_request_data a (b\<lparr>a_active := False\<rparr>)"
    using abort_committed(5) by (simp add: same_request_data_def)
  then show thesis using abort_committed id
    by (intro one [of k a "b\<lparr>a_active := False\<rparr>"]) (auto simp: release_fields)
next
  case (abort_unowned k a b)
  have id: "a_id a = k" "a_id b = k"
    using keyedD [OF assms(2) abort_unowned(2)] same_request_dataD(1) [OF abort_unowned(5)] by auto
  have "same_request_data a (b\<lparr>a_active := False\<rparr>)"
    using abort_unowned(5) by (simp add: same_request_data_def)
  then show thesis using abort_unowned id
    by (intro one [of k a "b\<lparr>a_active := False\<rparr>"]) (auto simp: release_fields)
next
  case (reserve po p g ds lane ev)
  then show thesis by (intro batch) auto
qed (use same in auto)

lemma move_tied: "move t t' \<Longrightarrow> keyed t \<Longrightarrow> tied t \<Longrightarrow> tied t'"
proof (erule (1) move_one)
  assume "s_admissions t' = s_admissions t" "tied t"
  then show "tied t'" by (rule tied_cong [rotated])
next
  fix po p g ds lane ev
  assume "fits t po (rv_admissions p) g ds" "t' = commit_batch lane ev po p g ds t" "tied t"
  then show "tied t'" by (simp add: tied_reserve)
next
  fix k a b
  assume a: "dget (s_admissions t) k = Some a" "same_request_data a b" "a_active b \<longrightarrow> a_active a"
    "a_active b = a_active a \<or> \<not> has_active_child t k" "tied t"
    "\<And>k'. dget (s_admissions t') k' = (if k = k' then Some b else dget (s_admissions t) k')"
  show "tied t'"
    by (rule tied_update [OF a(5,1) same_request_dataD(6) [OF a(2)] a(3,4,6)])
qed

section \<open>Chains of parents\<close>

inductive rooted :: "admission dict \<Rightarrow> string \<Rightarrow> bool" for d where
  root: "dget d k = Some a \<Longrightarrow> a_parent a = None \<Longrightarrow> rooted d k"
| child: "dget d k = Some a \<Longrightarrow> a_parent a = Some p \<Longrightarrow> rooted d p \<Longrightarrow> rooted d k"

inductive_cases rootedE: "rooted d k"

definition all_rooted :: "admission_state \<Rightarrow> bool" where
  "all_rooted t \<longleftrightarrow> (\<forall>k a. dget (s_admissions t) k = Some a \<longrightarrow> rooted (s_admissions t) k)"

lemma rooted_transfer:
  assumes "rooted d k" and "\<And>k a. dget d k = Some a \<Longrightarrow> \<exists>b. dget d' k = Some b \<and> a_parent b = a_parent a"
  shows "rooted d' k"
  using assms(1)
proof induction
  case (root k a)
  then show ?case using assms(2) by (metis rooted.root)
next
  case (child k a p)
  then show ?case using assms(2) by (metis rooted.child)
qed

lemma all_rooted_update:
  assumes "all_rooted t" and a: "dget (s_admissions t) k = Some a" and same: "a_parent b = a_parent a"
    and upd: "\<And>k'. dget (s_admissions t') k' = (if k = k' then Some b else dget (s_admissions t) k')"
  shows "all_rooted t'"
  unfolding all_rooted_def
proof (intro allI impI)
  fix k' c
  assume "dget (s_admissions t') k' = Some c"
  then have "\<exists>c'. dget (s_admissions t) k' = Some c'"
    using a by (auto simp: upd split: if_splits)
  then have "rooted (s_admissions t) k'" using assms(1) by (auto simp: all_rooted_def)
  then show "rooted (s_admissions t') k'"
    by (rule rooted_transfer) (use a same upd in auto)
qed

lemma all_rooted_reserve:
  assumes "all_rooted t" and fits: "fits t po (rv_admissions p) g ds"
  shows "all_rooted (commit_batch lane ev po p g ds t)"
proof -
  let ?d = "s_admissions (commit_batch lane ev po p g ds t)"
  have fresh: "batch_map a_id (rv_admissions p) k = None" if "dget (s_admissions t) k = Some a" for k a
    using fits that by (auto simp: fits_def slots_free_def dhas_def batch_map_None)
  have old: "rooted ?d k" if "dget (s_admissions t) k = Some a" for k a
  proof (rule rooted_transfer)
    show "rooted (s_admissions t) k" using assms(1) that by (auto simp: all_rooted_def)
    show "\<exists>b. dget ?d k' = Some b \<and> a_parent b = a_parent c" if "dget (s_admissions t) k' = Some c" for k' c
      using that fresh [OF that] by (simp add: batch_simps [OF fits])
  qed
  have stored: "dget ?d (a_id a) = Some (stored_admission lane ev ds a)" if "a \<in> set (rv_admissions p)" for a
    using fits that batch_map_member [of a_id "rv_admissions p" a]
    by (simp add: batch_simps [OF fits] fits_def batch_ok_def)
  have chain: "rooted ?d (a_id a)" if "chain_ends (rv_admissions p) q" "a \<in> set (rv_admissions p)" "a_parent a = q" for q a
    using that
  proof (induction arbitrary: a)
    case no_parent
    then show ?case using stored by (intro rooted.root) auto
  next
    case (outside k)
    then have "parent_live t (rv_admissions p) a" using fits by (simp add: fits_def)
    with outside obtain b where "dget (s_admissions t) k = Some b" by (auto simp: parent_live_def)
    then show ?case using outside old stored by (intro rooted.child [of ?d "a_id a" _ k]) auto
  next
    case (inside b k)
    then have "rooted ?d k" by blast
    then show ?case using inside.prems stored by (intro rooted.child [of ?d "a_id a" _ k]) auto
  qed
  show ?thesis
    unfolding all_rooted_def
  proof (intro allI impI)
    fix k x
    assume x: "dget ?d k = Some x"
    show "rooted ?d k"
    proof (cases "batch_map a_id (rv_admissions p) k")
      case (Some a)
      then have "a \<in> set (rv_admissions p)" "a_id a = k" by (auto dest: batch_map_SomeD)
      moreover have "chain_ends (rv_admissions p) (a_parent a)"
        using fits calculation by (simp add: fits_def)
      ultimately show ?thesis using chain by blast
    next
      case None
      then show ?thesis using x old by (auto simp: batch_simps [OF fits])
    qed
  qed
qed

lemma move_all_rooted: "move t t' \<Longrightarrow> keyed t \<Longrightarrow> all_rooted t \<Longrightarrow> all_rooted t'"
proof (erule (1) move_one)
  assume "s_admissions t' = s_admissions t" "all_rooted t"
  then show "all_rooted t'" by (simp add: all_rooted_def)
next
  fix po p g ds lane ev
  assume "fits t po (rv_admissions p) g ds" "t' = commit_batch lane ev po p g ds t" "all_rooted t"
  then show "all_rooted t'" by (simp add: all_rooted_reserve)
next
  fix k a b
  assume a: "all_rooted t" "dget (s_admissions t) k = Some a" "same_request_data a b"
    "\<And>k'. dget (s_admissions t') k' = (if k = k' then Some b else dget (s_admissions t) k')"
  show "all_rooted t'"
    by (rule all_rooted_update [OF a(1,2) same_request_dataD(6) [OF a(3)] a(4)])
qed

section \<open>Delegated budgets\<close>

definition child_account :: "admission_state \<Rightarrow> bool" where
  "child_account t \<longleftrightarrow>
     (\<forall>k a. dget (s_admissions t) k = Some a \<longrightarrow>
        a_child_spent a = dict.total (parent_share k) (s_admissions t) \<and> a_child_spent a \<le> a_budget a)"

lemma child_accountD:
  "child_account t \<Longrightarrow> dget (s_admissions t) k = Some a \<Longrightarrow>
     a_child_spent a = dict.total (parent_share k) (s_admissions t)"
  "child_account t \<Longrightarrow> dget (s_admissions t) k = Some a \<Longrightarrow> a_child_spent a \<le> a_budget a"
  unfolding child_account_def by blast+

lemma parent_share_charge [simp]: "parent_share k (charge c a) = parent_share k a"
  by (simp add: parent_share_def)

lemma parent_share_same: "same_request_data a b \<Longrightarrow> parent_share k b = parent_share k a"
  by (simp add: parent_share_def same_request_dataD)

lemma parent_share_stored [simp]: "parent_share k (stored_admission lane ev ds a) = parent_share k a"
  by (simp add: parent_share_def)

lemma child_account_reserve:
  assumes acc: "child_account t" and tied: "tied t" and fits: "fits t po (rv_admissions p) g ds"
  shows "child_account (commit_batch lane ev po p g ds t)"
proof -
  let ?t' = "commit_batch lane ev po p g ds t"
  have aff: "affordable t po (rv_admissions p) g ds" using fits by (simp add: fits_def)
  have total: "dict.total (parent_share k) (s_admissions ?t') = dict.total (parent_share k) (s_admissions t) + dget0 ds k"
    for k
  proof -
    have "dget0 ds k = (\<Sum>a \<leftarrow> rv_admissions p. parent_share k a)" using aff by (simp add: affordable_def)
    then show ?thesis by (simp add: total_batch [OF fits])
  qed
  show ?thesis
    unfolding child_account_def
  proof (intro allI impI)
    fix k x
    assume x: "dget (s_admissions ?t') k = Some x"
    show "a_child_spent x = dict.total (parent_share k) (s_admissions ?t') \<and> a_child_spent x \<le> a_budget x"
    proof (cases "batch_map a_id (rv_admissions p) k")
      case (Some a)
      then have a: "a \<in> set (rv_admissions p)" "a_id a = k" by (auto dest: batch_map_SomeD)
      have none: "dget (s_admissions t) k = None"
        using a fits by (auto simp: fits_def slots_free_def dhas_def)
      have zero: "dict.total (parent_share k) (s_admissions t) = 0"
      proof (rule dict.total_zero)
        fix k' v assume "dget (s_admissions t) k' = Some v"
        then show "parent_share k v = 0"
          using tiedD [OF tied, of k' v k] none by (auto simp: parent_share_def)
      qed
      have "dget0 ds k \<le> a_budget a" using aff a by (auto simp: affordable_def)
      moreover have "x = stored_admission lane ev ds a" using Some x by (simp add: batch_simps [OF fits])
      ultimately show ?thesis
        using a(2) by (simp add: total zero)
    next
      case None
      then obtain b where b: "dget (s_admissions t) k = Some b" "x = charge (dget0 ds k) b"
        using x by (auto simp: batch_simps [OF fits])
      have "k \<notin> a_id ` set (rv_admissions p)" using None by (simp add: batch_map_None)
      then have "dhas ds k \<Longrightarrow> a_child_spent b + dget0 ds k \<le> a_budget b"
        using aff b(1) unfolding affordable_def by blast
      moreover have "\<not> dhas ds k \<Longrightarrow> dget0 ds k = 0" by (simp add: dhas_def dget0_def)
      ultimately show ?thesis
        using child_accountD [OF acc b(1)] b(2) by (cases "dhas ds k") (auto simp: total)
    qed
  qed
qed

lemma child_account_update:
  assumes acc: "child_account t" and a: "dget (s_admissions t) k = Some a" "same_request_data a b"
    and upd: "\<And>k'. dget (s_admissions t') k' = (if k = k' then Some b else dget (s_admissions t) k')"
  shows "child_account t'"
proof -
  have "dict.total (parent_share k') (s_admissions t') = dict.total (parent_share k') (dput k b (s_admissions t))" for k'
    by (rule dict.total_same) (simp add: upd)
  then have total: "dict.total (parent_share k') (s_admissions t') = dict.total (parent_share k') (s_admissions t)" for k'
    using total_update [of "s_admissions t" k a "parent_share k'" b] a parent_share_same [OF a(2)] by simp
  show ?thesis
    unfolding child_account_def upd total using child_accountD [OF acc] a same_request_dataD [OF a(2)]
    by (metis option.inject)
qed

definition families :: "admission_state \<Rightarrow> bool" where
  "families t \<longleftrightarrow> tied t \<and> child_account t"

lemma move_families: "move t t' \<Longrightarrow> keyed t \<Longrightarrow> families t \<Longrightarrow> families t'"
proof (frule (1) move_tied)
  show "tied t" if "families t" using that by (simp add: families_def)
  show "families t'" if "move t t'" "keyed t" "families t" "tied t'"
    using that(1,2)
  proof (rule move_one)
    assume "s_admissions t' = s_admissions t"
    then show "families t'" using that unfolding families_def child_account_def by metis
  next
    fix po p g ds lane ev
    assume "fits t po (rv_admissions p) g ds" "t' = commit_batch lane ev po p g ds t"
    then show "families t'" using that by (simp add: families_def child_account_reserve)
  next
    fix k a b
    assume a: "dget (s_admissions t) k = Some a" "same_request_data a b"
      "\<And>k'. dget (s_admissions t') k' = (if k = k' then Some b else dget (s_admissions t) k')"
    show "families t'"
      using child_account_update [OF _ a] that by (simp add: families_def)
  qed
qed

end
