(* ===== verification/Owner_Inv.thy ===== *)
theory Owner_Inv
  imports Family_Inv
begin

text \<open>
  Who holds a run: a claim stands for a reserved admission, an owner for an admission from its
  commit on, and no run is both claimed and owned.
\<close>

definition owning_phase :: "phase \<Rightarrow> bool" where
  "owning_phase p \<longleftrightarrow> p \<in> {Committed, Authorized, Started, Finalized}"

lemma owning_phase_simps [simp]:
  "\<not> owning_phase Reserved" "owning_phase Committed" "owning_phase Authorized" "owning_phase Started"
  "owning_phase Finalized" "\<not> owning_phase Aborted"
  by (simp_all add: owning_phase_def)

definition holding :: "(phase \<Rightarrow> bool) \<Rightarrow> admission_state \<Rightarrow> string \<Rightarrow> string \<Rightarrow> bool" where
  "holding P t r k \<longleftrightarrow> (\<exists>a. dget (s_admissions t) k = Some a \<and> a_run_id a = r \<and> P (a_phase a))"

definition claimed :: "admission_state \<Rightarrow> bool" where
  "claimed t \<longleftrightarrow> (\<forall>r k. dget (s_run_claims t) r = Some k \<longleftrightarrow> holding (\<lambda>p. p = Reserved) t r k)"

definition owned :: "admission_state \<Rightarrow> bool" where
  "owned t \<longleftrightarrow> (\<forall>r k. dget (s_run_owners t) r = Some (By_admission k) \<longleftrightarrow> holding owning_phase t r k)"

definition disjoint_runs :: "admission_state \<Rightarrow> bool" where
  "disjoint_runs t \<longleftrightarrow> (\<forall>r. \<not> (dhas (s_run_claims t) r \<and> dhas (s_run_owners t) r))"

definition run_holders :: "admission_state \<Rightarrow> bool" where
  "run_holders t \<longleftrightarrow> activity t \<and> claimed t \<and> owned t \<and> disjoint_runs t"

lemma holdingI: "dget (s_admissions t) k = Some a \<Longrightarrow> P (a_phase a) \<Longrightarrow> holding P t (a_run_id a) k"
  by (auto simp: holding_def)

lemma holding_stored: "dget (s_admissions t) k = Some a \<Longrightarrow> holding P t r k \<longleftrightarrow> a_run_id a = r \<and> P (a_phase a)"
  by (simp add: holding_def)

lemma claimedD:
  "claimed t \<Longrightarrow> dget (s_admissions t) k = Some a \<Longrightarrow> a_phase a = Reserved \<Longrightarrow>
     dget (s_run_claims t) (a_run_id a) = Some k"
  by (simp add: claimed_def holding_stored)

lemma ownedD:
  "owned t \<Longrightarrow> dget (s_admissions t) k = Some a \<Longrightarrow> owning_phase (a_phase a) \<Longrightarrow>
     dget (s_run_owners t) (a_run_id a) = Some (By_admission k)"
  by (simp add: owned_def holding_stored)

text \<open>One admission changes its phase: what that means for the table of the holders of \<open>P\<close>.\<close>

definition changed_to :: "admission_state \<Rightarrow> string \<Rightarrow> admission \<Rightarrow> admission_state \<Rightarrow> bool" where
  "changed_to t k b t' \<longleftrightarrow>
     (\<forall>k'. dget (s_admissions t') k' = (if k = k' then Some b else dget (s_admissions t) k'))"

lemma holding_changed:
  "changed_to t k b t' \<Longrightarrow>
     holding P t' r k' \<longleftrightarrow> (if k = k' then a_run_id b = r \<and> P (a_phase b) else holding P t r k')"
  by (simp add: changed_to_def holding_def)

lemma table_keep:
  assumes "\<forall>r k. dget d r = Some (f k) \<longleftrightarrow> holding P t r k" and "dget (s_admissions t) k = Some a"
    and "changed_to t k b t'" and "a_run_id b = a_run_id a" and "P (a_phase b) \<longleftrightarrow> P (a_phase a)"
  shows "\<forall>r k. dget d r = Some (f k) \<longleftrightarrow> holding P t' r k"
proof (intro allI)
  fix r k'
  show "dget d r = Some (f k') \<longleftrightarrow> holding P t' r k'"
    using assms(1,2,4,5) by (cases "k = k'") (simp_all add: holding_changed [OF assms(3)] holding_stored)
qed

lemma table_drop:
  assumes tab: "\<forall>r k. dget d r = Some (f k) \<longleftrightarrow> holding P t r k" and f: "inj f"
    and a: "dget (s_admissions t) k = Some a" "P (a_phase a)"
    and "changed_to t k b t'" and "\<not> P (a_phase b)"
  shows "\<forall>r k. dget (ddel (a_run_id a) d) r = Some (f k) \<longleftrightarrow> holding P t' r k"
proof (intro allI)
  fix r k'
  have mine: "dget d r = Some (f k) \<longleftrightarrow> a_run_id a = r" for r
    using tab a by (simp add: holding_stored)
  have other: "holding P t r k' \<longleftrightarrow> dget d r = Some (f k')" using tab by simp
  have fk: "f k = f k' \<longleftrightarrow> k = k'" using f by (simp add: inj_eq)
  show "dget (ddel (a_run_id a) d) r = Some (f k') \<longleftrightarrow> holding P t' r k'"
    using assms(6) mine [of r] mine [of "a_run_id a"] fk
    by (cases "k = k'"; cases "a_run_id a = r") (simp_all add: holding_changed [OF assms(5)] other dict.get_del)
qed

lemma table_add:
  assumes tab: "\<forall>r k. dget d r = Some (f k) \<longleftrightarrow> holding P t r k" and f: "inj f"
    and a: "dget (s_admissions t) k = Some a" "\<not> P (a_phase a)" and none: "dget d (a_run_id a) = None"
    and "changed_to t k b t'" and "P (a_phase b)" "a_run_id b = a_run_id a"
  shows "\<forall>r k'. dget (dput (a_run_id a) (f k) d) r = Some (f k') \<longleftrightarrow> holding P t' r k'"
proof (intro allI)
  fix r k'
  have mine: "dget d r \<noteq> Some (f k)" for r
    using tab a by (simp add: holding_stored)
  have other: "holding P t r k' \<longleftrightarrow> dget d r = Some (f k')" using tab by simp
  have fk: "f k = f k' \<longleftrightarrow> k = k'" using f by (simp add: inj_eq)
  show "dget (dput (a_run_id a) (f k) d) r = Some (f k') \<longleftrightarrow> holding P t' r k'"
    using assms(7,8) mine [of r] fk none
    by (cases "k = k'"; cases "a_run_id a = r") (simp_all add: holding_changed [OF assms(6)] other dict.get_put)
qed

lemma inj_By_admission: "inj By_admission"
  by (simp add: inj_def)

lemma holders_keep:
  assumes "claimed t \<and> owned t \<and> disjoint_runs t" and "dget (s_admissions t) k = Some a"
    and "a_run_id b = a_run_id a" and "a_phase b = Reserved \<longleftrightarrow> a_phase a = Reserved"
    and "owning_phase (a_phase b) \<longleftrightarrow> owning_phase (a_phase a)" and "changed_to t k b t'"
    and "s_run_claims t' = s_run_claims t" "s_run_owners t' = s_run_owners t"
  shows "claimed t' \<and> owned t' \<and> disjoint_runs t'"
proof -
  have "claimed t'"
    using assms table_keep [of "s_run_claims t" "\<lambda>k. k" "\<lambda>p. p = Reserved" t k a b t'] by (simp add: claimed_def)
  moreover have "owned t'"
    using assms table_keep [of "s_run_owners t" By_admission owning_phase t k a b t'] by (simp add: owned_def)
  ultimately show ?thesis using assms by (simp add: disjoint_runs_def)
qed

text \<open>A reserved admission leaves with its claim, a committed one with its ownership.\<close>

lemma holders_drop_claim:
  assumes inv: "claimed t \<and> owned t \<and> disjoint_runs t" and a: "dget (s_admissions t) k = Some a" "a_phase a = Reserved"
    and b: "a_phase b = Aborted" "a_run_id b = a_run_id a" and "changed_to t k b t'"
    and claims: "s_run_claims t' = ddel (a_run_id a) (s_run_claims t)" and owners: "s_run_owners t' = s_run_owners t"
  shows "claimed t' \<and> owned t' \<and> disjoint_runs t'"
proof -
  have "claimed t'"
    using inv table_drop [of "s_run_claims t" "\<lambda>k. k" "\<lambda>p. p = Reserved" t k a b t'] a b assms(6)
    by (simp add: claimed_def claims)
  moreover have "owned t'"
    using inv table_keep [of "s_run_owners t" By_admission owning_phase t k a b t'] a b assms(6)
    by (simp add: owned_def owners)
  moreover have "disjoint_runs t'"
    using inv by (simp add: disjoint_runs_def claims owners dhas_def dict.get_del)
  ultimately show ?thesis by blast
qed

lemma holders_drop_owner:
  assumes inv: "claimed t \<and> owned t \<and> disjoint_runs t"
    and a: "dget (s_admissions t) k = Some a" "owning_phase (a_phase a)"
    and b: "a_phase b = Aborted" "a_run_id b = a_run_id a" and "changed_to t k b t'"
    and claims: "s_run_claims t' = s_run_claims t" and owners: "s_run_owners t' = ddel (a_run_id a) (s_run_owners t)"
  shows "claimed t' \<and> owned t' \<and> disjoint_runs t'"
proof -
  have "a_phase a \<noteq> Reserved" using a(2) by auto
  then have "claimed t'"
    using inv table_keep [of "s_run_claims t" "\<lambda>k. k" "\<lambda>p. p = Reserved" t k a b t'] a b assms(6)
    by (simp add: claimed_def claims)
  moreover have "owned t'"
    using inv table_drop [of "s_run_owners t" By_admission owning_phase t k a b t'] a b assms(6) inj_By_admission
    by (simp add: owned_def owners)
  moreover have "disjoint_runs t'"
    using inv by (simp add: disjoint_runs_def claims owners dhas_def dict.get_del)
  ultimately show ?thesis by blast
qed

lemma holders_commit:
  assumes inv: "claimed t \<and> owned t \<and> disjoint_runs t" and a: "dget (s_admissions t) k = Some a" "a_phase a = Reserved"
    and b: "a_phase b = Committed" "a_run_id b = a_run_id a" and "changed_to t k b t'"
    and claims: "s_run_claims t' = ddel (a_run_id a) (s_run_claims t)"
    and owners: "s_run_owners t' = dput (a_run_id a) (By_admission k) (s_run_owners t)"
  shows "claimed t' \<and> owned t' \<and> disjoint_runs t'"
proof -
  have mine: "dget (s_run_claims t) (a_run_id a) = Some k" using inv a claimedD by blast
  then have none: "dget (s_run_owners t) (a_run_id a) = None"
    using inv unfolding disjoint_runs_def dhas_def by (metis option.distinct(1))
  have "claimed t'"
    using inv table_drop [of "s_run_claims t" "\<lambda>k. k" "\<lambda>p. p = Reserved" t k a b t'] a b assms(6)
    by (simp add: claimed_def claims)
  moreover have "owned t'"
    using inv table_add [of "s_run_owners t" By_admission owning_phase t k a b t'] a b assms(6) none inj_By_admission
    by (simp add: owned_def owners)
  moreover have "disjoint_runs t'"
    using inv none by (auto simp: disjoint_runs_def claims owners dhas_def dict.get_del dict.get_put)
  ultimately show ?thesis by blast
qed

lemma holders_reserve:
  assumes inv: "claimed t \<and> owned t \<and> disjoint_runs t" and fits: "fits t po (rv_admissions p) g ds"
  shows "claimed (commit_batch lane ev po p g ds t) \<and> owned (commit_batch lane ev po p g ds t)
    \<and> disjoint_runs (commit_batch lane ev po p g ds t)"
proof -
  let ?as = "rv_admissions p" and ?t' = "commit_batch lane ev po p g ds t"
  have ids: "distinct (map a_id ?as)" "distinct (map a_run_id ?as)"
    using fits by (auto simp: fits_def batch_ok_def)
  have free: "dget (s_admissions t) (a_id a) = None" "dget (s_run_claims t) (a_run_id a) = None"
    "dget (s_run_owners t) (a_run_id a) = None" if "a \<in> set ?as" for a
    using fits that by (auto simp: fits_def slots_free_def dhas_def)
  have "claimed ?t'"
    unfolding claimed_def
  proof (intro allI)
    fix r k
    show "dget (s_run_claims ?t') r = Some k \<longleftrightarrow> holding (\<lambda>p. p = Reserved) ?t' r k"
    proof (cases "batch_map a_run_id ?as r")
      case (Some a)
      then have a: "a \<in> set ?as" "a_run_id a = r" by (auto dest: batch_map_SomeD)
      have "\<not> (\<exists>b. dget (s_admissions t) k = Some b \<and> a_run_id b = r \<and> a_phase b = Reserved)"
        using inv free(2) [OF a(1)] a(2) claimedD by fastforce
      moreover have "b = a" if "batch_map a_id ?as k = Some b" "a_run_id b = r" for b
        using batch_map_SomeD [OF that(1)] batch_map_member [OF ids(2)] Some that(2) by force
      ultimately show ?thesis
        using Some a batch_map_member [OF ids(1) a(1)]
        by (auto simp: holding_def batch_simps [OF fits] dest: batch_map_SomeD split: option.splits)
    next
      case None
      have "a_run_id b \<noteq> r" if "batch_map a_id ?as k = Some b" for b
        using None batch_map_SomeD [OF that] by (auto simp: batch_map_None)
      moreover have "batch_map a_id ?as k = None" if "dget (s_admissions t) k = Some b" for b
        using free(1) that by (auto simp: batch_map_None)
      ultimately show ?thesis
        using inv None by (auto simp: holding_def batch_simps [OF fits] claimed_def split: option.splits)
    qed
  qed
  moreover have "owned ?t'"
    unfolding owned_def
  proof (intro allI)
    fix r k
    have "batch_map a_id ?as k = None" if "dget (s_admissions t) k = Some b" for b
      using free(1) that by (auto simp: batch_map_None)
    then show "dget (s_run_owners ?t') r = Some (By_admission k) \<longleftrightarrow> holding owning_phase ?t' r k"
      using inv by (auto simp: holding_def batch_simps [OF fits] owned_def split: option.splits)
  qed
  moreover have "disjoint_runs ?t'"
    using inv free(3) by (auto simp: disjoint_runs_def batch_simps [OF fits] dhas_def
        dest: batch_map_SomeD split: option.splits)
  ultimately show ?thesis by blast
qed

lemma run_holders_cong:
  "run_holders t \<Longrightarrow> s_admissions t' = s_admissions t \<Longrightarrow> s_run_claims t' = s_run_claims t \<Longrightarrow>
     s_run_owners t' = s_run_owners t \<Longrightarrow> run_holders t'"
  by (simp add: run_holders_def activity_def claimed_def owned_def disjoint_runs_def holding_def)

text \<open>A run without a claim and without an owner is handed to an owner that is no admission.\<close>

lemma holders_legacy:
  assumes "run_holders t" and "\<not> dhas (s_run_claims t) r" and "\<not> dhas (s_run_owners t) r"
    and "\<And>k. own \<noteq> By_admission k"
    and "s_run_owners t' = dput r own (s_run_owners t)" "s_run_claims t' = s_run_claims t"
      "s_admissions t' = s_admissions t"
  shows "run_holders t'"
proof -
  have "holding owning_phase t' = holding owning_phase t"
    by (simp add: fun_eq_iff holding_def assms(7))
  moreover have "\<not> holding owning_phase t r k" for k
    using assms(1,3) unfolding run_holders_def owned_def dhas_def by (metis option.distinct(1))
  ultimately have "owned t'"
    using assms(1,4) by (simp add: run_holders_def owned_def dict.get_put assms(5))
  moreover have "disjoint_runs t'"
    using assms(1,2) by (simp add: run_holders_def disjoint_runs_def dhas_def dict.get_put assms(5,6))
  ultimately show ?thesis
    using assms(1) by (simp add: run_holders_def activity_def claimed_def holding_def assms(6,7))
qed

lemma no_commit_reserved: "shaped a \<Longrightarrow> a_phase a \<in> {Reserved, Committed} \<Longrightarrow> a_commit a = None \<Longrightarrow> a_phase a = Reserved"
  by (auto simp: shaped_def)

lemma commit_owned: "shaped a \<Longrightarrow> a_phase a \<in> {Reserved, Committed} \<Longrightarrow> a_commit a \<noteq> None \<Longrightarrow> a_phase a = Committed"
  by (auto simp: shaped_def)

lemma move_run_holders:
  assumes mv: "move t t'" and keyed: "keyed t" and inv: "run_holders t"
  shows "run_holders t'"
proof -
  have act: "activity t'" using move_activity [OF mv] inv by (simp add: run_holders_def)
  have three: "claimed t \<and> owned t \<and> disjoint_runs t" using inv by (simp add: run_holders_def)
  have shaped: "shaped a" if "dget (s_admissions t) k = Some a" for k a
    using activityD that inv by (auto simp: run_holders_def)
  show ?thesis
    using mv
  proof cases
    case (reserve po p g ds lane ev)
    then show ?thesis using holders_reserve [OF three] act by (simp add: run_holders_def)
  next
    case (commit k a b)
    have id: "a_id a = k" using keyedD [OF keyed commit(2)] .
    have "claimed t' \<and> owned t' \<and> disjoint_runs t'"
      by (rule holders_commit [OF three commit(2,3) commit(8) same_request_dataD(2) [OF commit(6)]])
        (simp_all add: commit(1) id dict.get_put changed_to_def)
    with act show ?thesis by (simp add: run_holders_def)
  next
    case (advance k a b)
    have "claimed t' \<and> owned t' \<and> disjoint_runs t'"
      by (rule holders_keep [OF three advance(2) same_request_dataD(2) [OF advance(3)]])
        (use advance(6) in \<open>cases "a_phase a"; auto simp: advance(1) dict.get_put changed_to_def\<close>)+
    with act show ?thesis by (simp add: run_holders_def)
  next
    case (finalize k a b)
    have id: "a_id b = k" using released_id [OF keyed finalize(2,5)] .
    have "claimed t' \<and> owned t' \<and> disjoint_runs t'"
      by (rule holders_keep [OF three finalize(2), of "b\<lparr>a_active := False\<rparr>"])
        (use finalize in \<open>auto simp: release_fields changed_to_def id same_request_dataD\<close>)
    with act show ?thesis by (simp add: run_holders_def)
  next
    case (abort_reserved k a b)
    have id: "a_id b = k" using released_id [OF keyed abort_reserved(2,5)] .
    have "claimed t' \<and> owned t' \<and> disjoint_runs t'"
      by (rule holders_drop_claim [OF three abort_reserved(2) no_commit_reserved [OF shaped [OF abort_reserved(2)]
              abort_reserved(3,8)], of "b\<lparr>a_active := False\<rparr>"])
        (use abort_reserved in \<open>auto simp: release_fields changed_to_def id same_request_dataD\<close>)
    with act show ?thesis by (simp add: run_holders_def)
  next
    case (abort_committed k a b)
    have id: "a_id b = k" using released_id [OF keyed abort_committed(2,5)] .
    have "owning_phase (a_phase a)"
      using commit_owned [OF shaped [OF abort_committed(2)] abort_committed(3,8)] by simp
    then have "claimed t' \<and> owned t' \<and> disjoint_runs t'"
      by (rule holders_drop_owner [OF three abort_committed(2), of "b\<lparr>a_active := False\<rparr>"])
        (use abort_committed in \<open>auto simp: release_fields changed_to_def id same_request_dataD\<close>)
    with act show ?thesis by (simp add: run_holders_def)
  next
    case (abort_unowned k a b)
    have "owning_phase (a_phase a)"
      using commit_owned [OF shaped [OF abort_unowned(2)] abort_unowned(3,8)] by simp
    then have "dget (s_run_owners t) (a_run_id a) = Some (By_admission k)"
      using ownedD three abort_unowned(2) by blast
    then show ?thesis using abort_unowned keyedD [OF keyed abort_unowned(2)] by simp
  next
    case (legacy_lead r)
    show ?thesis by (rule holders_legacy [OF inv legacy_lead(3,4), of Legacy_lead]) (simp_all add: legacy_lead(1))
  next
    case (legacy_delegation g)
    show ?thesis
      by (rule holders_legacy [OF inv legacy_delegation(3,4), of "Legacy_delegation (rg_delegation g)"])
        (simp_all add: legacy_delegation(1))
  qed (use run_holders_cong [OF inv] in auto)
qed

end
