(* ===== verification/Safety.thy ===== *)
theory Safety
  imports Owner_Inv Transaction
begin

text \<open>
  From moves to ledgers: every state that \<open>derive_state\<close> computes is reached from the empty
  admission state by moves, so an invariant of the moves holds of every ledger.
\<close>

section \<open>The reducer only moves the admissions\<close>

lemma keyed_empty [simp]: "keyed empty_admission_state"
  by (simp add: keyed_def empty_admission_state_def)

lemma moves_keyed: "move\<^sup>*\<^sup>* t t' \<Longrightarrow> keyed t \<Longrightarrow> keyed t'"
  by (induction rule: rtranclp_induct) (auto intro: move_keyed)

lemma lifecycle_admissions: "reduce_lifecycle E s m lr e = Inr s' \<Longrightarrow> x_admissions s' = x_admissions s"
  by (cases e)
    (auto simp: guard_simps enter_def Let_def reduce_compiled_def reduce_boot_def reduce_running_def
      reduce_assurance_requested_def reduce_assurance_approved_def reduce_assurance_boot_def
      reduce_assurance_started_def reduce_renewed_def reduce_completing_def reduce_archive_def
      reduce_escalated_def reduce_terminal_def split: option.splits if_splits sum.splits)

lemma reduce_moves:
  assumes "keyed (x_admissions s)" and "payload_ok p" and "reduce E s m lr p = Inr s'"
  shows "move\<^sup>*\<^sup>* (x_admissions s) (x_admissions s')"
proof (cases p)
  case (Lifecycle e)
  then show ?thesis using assms by (simp add: lifecycle_admissions)
next
  case (Admission e)
  then show ?thesis using assms by (auto intro: admission_simulation split: sum.splits)
next
  case (Run e)
  then show ?thesis using assms by (auto intro: run_simulation split: sum.splits)
qed (use assms in \<open>auto split: sum.splits\<close>)

lemma derive_stepD:
  assumes "derive_step E events v e = Inr v'"
  shows "validate_payload E (e_kind e) (e_payload e) = Inr ()"
    and "\<exists>s. reduce E (v_state v) (meta_of e) (last_request events (e_sequence e))
               (decode_payload (e_kind e) (e_payload e)) = Inr s \<and> v_state v' = counted (meta_of e) s"
    and "\<not> v_terminal v" and "e_key e \<notin> set (v_keys v)"
    and "v_terminal v' \<longleftrightarrow> e_kind e = ''mission_terminal''" and "v_keys v' = e_key e # v_keys v"
  using assms by (auto simp: derive_step_def split: if_splits sum.splits)

lemma counted_fields [simp]:
  "x_admissions (counted m s) = x_admissions s" "x_status (counted m s) = x_status s"
  "x_risk (counted m s) = x_risk s" "x_terminal (counted m s) = x_terminal s"
  "x_decisions (counted m s) = x_decisions s" "x_herdr (counted m s) = x_herdr s"
  "x_id (counted m s) = x_id s" "x_created (counted m s) = x_created s"
  "x_categories (counted m s) = x_categories s" "x_approval (counted m s) = x_approval s"
  "x_compiled (counted m s) = x_compiled s"
  "x_sequence (counted m s) = m_sequence m" "x_head (counted m s) = m_sha m"
  by (simp_all add: counted_def)

lemma start_fields [simp]:
  "x_admissions (v_state (start_derivation e)) = empty_admission_state"
  "v_terminal (start_derivation e) = False" "v_keys (start_derivation e) = []"
  by (simp_all add: start_derivation_def initial_state_def)

text \<open>What one step of the derivation keeps of the admission state.\<close>

definition moved :: "derivation \<Rightarrow> derivation \<Rightarrow> bool" where
  "moved v v' \<longleftrightarrow>
     (keyed (x_admissions (v_state v)) \<longrightarrow>
        move\<^sup>*\<^sup>* (x_admissions (v_state v)) (x_admissions (v_state v')))"

interpretation moving: monotone_step "derive_step E events" moved for E events
proof (unfold_locales, goal_cases)
  case (1 s)
  show ?case by (simp add: moved_def)
next
  case (2 a b c)
  then show ?case by (auto simp: moved_def intro: rtranclp_trans dest: moves_keyed)
next
  case (3 s e s')
  obtain u where "reduce E (v_state s) (meta_of e) (last_request events (e_sequence e))
      (decode_payload (e_kind e) (e_payload e)) = Inr u" and "v_state s' = counted (meta_of e) u"
    using derive_stepD(2) [OF 3] by auto
  then show ?case
    using reduce_moves [of "v_state s"] validated_payload_ok [OF derive_stepD(1) [OF 3]]
    by (auto simp: moved_def)
qed

lemma derived:
  assumes "derive_state E events = Inr s"
  obtains v e es where "events = e # es" and "e_kind e = ''mission_created''"
    and "validate_payload E ''mission_created'' (e_payload e) = Inr ()"
    and "fold_result (derive_step E events) (start_derivation e) events = Inr v" and "s = v_state v"
  using assms by (auto simp: derive_state_def derive_def split: list.splits if_splits sum.splits)

lemma derived_moves: "derive_state E events = Inr s \<Longrightarrow> move\<^sup>*\<^sup>* empty_admission_state (x_admissions s)"
  by (erule derived) (auto dest!: moving.fold_rel simp: moved_def simp del: fold_result.simps)

lemma derived_keyed: "derive_state E events = Inr s \<Longrightarrow> keyed (x_admissions s)"
  by (rule moves_keyed [OF derived_moves keyed_empty])

section \<open>Invariants of the moves\<close>

locale admission_invariant =
  fixes inv :: "admission_state \<Rightarrow> bool"
  assumes start: "inv empty_admission_state"
    and kept: "move t t' \<Longrightarrow> keyed t \<Longrightarrow> inv t \<Longrightarrow> inv t'"
begin

lemma moves: "move\<^sup>*\<^sup>* t t' \<Longrightarrow> keyed t \<Longrightarrow> inv t \<Longrightarrow> inv t'"
  by (induction rule: rtranclp_induct) (auto intro: kept moves_keyed)

lemma on_ledgers: "derive_state E events = Inr s \<Longrightarrow> inv (x_admissions s)"
  using derived_moves keyed_empty start by (rule moves)

end

lemma empty_invariants [simp]:
  "activity empty_admission_state" "writer_slot empty_admission_state"
  "activity_count empty_admission_state" "credit_account empty_admission_state"
  by (auto simp: activity_def writer_slot_def activity_count_def credit_account_def
      empty_admission_state_def total_none)

interpretation act: admission_invariant activity
  by unfold_locales (auto intro: move_activity)

interpretation writer: admission_invariant writer_slot
  by unfold_locales (auto intro: move_writer_slot)

interpretation count: admission_invariant activity_count
  by unfold_locales (auto intro: move_activity_count)

interpretation credits: admission_invariant credit_account
  by unfold_locales (auto intro: move_credit_account)

lemma empty_families [simp]:
  "families empty_admission_state" "all_rooted empty_admission_state" "run_holders empty_admission_state"
  by (auto simp: families_def tied_def child_account_def all_rooted_def run_holders_def claimed_def owned_def
      disjoint_runs_def holding_def dhas_def empty_admission_state_def activity_def)

interpretation family: admission_invariant families
  by unfold_locales (auto intro: move_families)

interpretation chain: admission_invariant all_rooted
  by unfold_locales (auto intro: move_all_rooted)

interpretation runs: admission_invariant run_holders
  by unfold_locales (auto intro: move_run_holders)

text \<open>Recipient slots are exclusive as long as no delegation is named like an admission.\<close>

definition recipients_kept :: "admission_state \<Rightarrow> bool" where
  "recipients_kept t \<longleftrightarrow> delegation_owners t \<and> (id_collision t \<or> recipient_slots t)"

lemma empty_recipients [simp]: "delegation_owners empty_admission_state" "recipient_slots empty_admission_state"
  by (simp_all add: delegation_owners_def recipient_slots_def open_legacy_def empty_admission_state_def)

interpretation recipient: admission_invariant recipients_kept
proof
  show "recipients_kept empty_admission_state" by (simp add: recipients_kept_def)
  show "recipients_kept t'" if "move t t'" "keyed t" "recipients_kept t" for t t'
    using that move_delegation_owners [OF that(1,2)] grows_collision [OF move_grows [OF that(1,2)]]
      move_recipient_slots [OF that(1,2)]
    by (auto simp: recipients_kept_def)
qed

section \<open>How an admission evolves\<close>

definition same_admission :: "admission \<Rightarrow> admission \<Rightarrow> bool" where
  "same_admission a b \<longleftrightarrow>
     admission_request.truncate a = admission_request.truncate b \<and> a_lane a = a_lane b
     \<and> a_reservation_event a = a_reservation_event b \<and> phase_edge\<^sup>*\<^sup>* (a_phase a) (a_phase b)
     \<and> (a_active b \<longrightarrow> a_active a)"

definition evolves :: "admission_state \<Rightarrow> admission_state \<Rightarrow> bool" where
  "evolves t t' \<longleftrightarrow>
     (\<forall>k a. dget (s_admissions t) k = Some a \<longrightarrow>
        (\<exists>b. dget (s_admissions t') k = Some b \<and> same_admission a b))"

lemma same_admission_refl [simp]: "same_admission a a"
  by (simp add: same_admission_def)

lemma same_admission_trans: "same_admission a b \<Longrightarrow> same_admission b c \<Longrightarrow> same_admission a c"
  by (auto simp: same_admission_def)

lemma evolves_trans: "evolves a b \<Longrightarrow> evolves b c \<Longrightarrow> evolves a c"
  unfolding evolves_def by (blast intro: same_admission_trans)

lemma same_admission_charge [simp]: "same_admission a (charge c a)"
  by (simp add: same_admission_def charge_def)

lemma move_evolves:
  assumes "move t t'" and "keyed t"
  shows "evolves t t'"
  using assms
proof (rule move_one)
  show "evolves t t'" if "s_admissions t' = s_admissions t" using that by (simp add: evolves_def)
next
  fix po p g ds lane ev
  assume fits: "fits t po (rv_admissions p) g ds" and t': "t' = commit_batch lane ev po p g ds t"
  have "batch_map a_id (rv_admissions p) k = None" if "dget (s_admissions t) k = Some a" for k a
    using fits that by (auto simp: fits_def slots_free_def dhas_def batch_map_None)
  then show "evolves t t'"
    by (simp add: evolves_def t' batch_simps [OF fits])
next
  fix k a b
  assume "dget (s_admissions t) k = Some a" "same_request_data a b" "a_active b \<longrightarrow> a_active a"
    "a_phase b = a_phase a \<or> phase_edge (a_phase a) (a_phase b)"
    "\<And>k'. dget (s_admissions t') k' = (if k = k' then Some b else dget (s_admissions t) k')"
  then show "evolves t t'"
    by (auto simp: evolves_def same_admission_def same_request_data_def)
qed

lemma moves_evolves: "move\<^sup>*\<^sup>* t t' \<Longrightarrow> keyed t \<Longrightarrow> evolves t t'"
proof (induction rule: rtranclp_induct)
  case base
  show ?case by (simp add: evolves_def)
next
  case (step t1 t2)
  then show ?case using move_evolves evolves_trans moves_keyed by blast
qed

section \<open>Prefixes\<close>

text \<open>A ledger numbers its events from 1; what was derived from a prefix stays derived.\<close>

definition sequenced :: "event list \<Rightarrow> bool" where
  "sequenced es \<longleftrightarrow> map e_sequence es = map (\<lambda>n. int n + 1) [0..<length es]"

lemma sequenced_append: "sequenced (es @ fs) \<Longrightarrow> sequenced es"
  by (auto simp: sequenced_def upt_add_eq_append [of 0])

lemma sequenced_bound: "sequenced es \<Longrightarrow> e \<in> set es \<Longrightarrow> 1 \<le> e_sequence e \<and> e_sequence e \<le> int (length es)"
proof -
  assume s: "sequenced es" and "e \<in> set es"
  then have "e_sequence e \<in> set (map (\<lambda>n. int n + 1) [0..<length es])"
    unfolding sequenced_def by (metis image_eqI set_map)
  then show ?thesis by auto
qed

lemma last_request_prefix:
  "1 \<le> n \<Longrightarrow> n \<le> int (length es) \<Longrightarrow> last_request (es @ fs) n = last_request es n"
  by (simp add: last_request_def py_prefix_def)

lemma derive_step_prefix:
  assumes "sequenced es" and "x \<in> set es"
  shows "derive_step E es v x = derive_step E (es @ fs) v x"
proof -
  have same: "last_request (es @ fs) (e_sequence x) = last_request es (e_sequence x)"
    using sequenced_bound [OF assms] by (simp add: last_request_prefix)
  show ?thesis unfolding derive_step_def same ..
qed

lemma derive_prefix:
  assumes "derive_state E (es @ fs) = Inr s'" and "sequenced es" and "es \<noteq> []"
  obtains v v' where "derive E es = Inr v" and "fold_result (derive_step E (es @ fs)) v fs = Inr v'" "s' = v_state v'"
proof -
  from assms(1) obtain u e rest where e: "es @ fs = e # rest" "e_kind e = ''mission_created''"
      "validate_payload E ''mission_created'' (e_payload e) = Inr ()"
    and u: "fold_result (derive_step E (es @ fs)) (start_derivation e) (es @ fs) = Inr u" "s' = v_state u"
    by (rule derived) (metis append.assoc)
  from u(1) obtain v where v: "fold_result (derive_step E (es @ fs)) (start_derivation e) es = Inr v"
      "fold_result (derive_step E (es @ fs)) v fs = Inr u"
    by auto
  obtain es' where es: "es = e # es'" using e(1) assms(3) by (cases es) auto
  have "fold_result (derive_step E es) (start_derivation e) es = fold_result (derive_step E (es @ fs)) (start_derivation e) es"
    by (rule fold_result_cong) (rule derive_step_prefix [OF assms(2)])
  then have "derive E es = Inr v"
    using v(1) e(2,3) es by (simp add: derive_def del: fold_result.simps)
  with v(2) u(2) that show thesis by blast
qed

lemma derive_state_prefix:
  "derive_state E (es @ fs) = Inr s' \<Longrightarrow> sequenced es \<Longrightarrow> es \<noteq> [] \<Longrightarrow> \<exists>s. derive_state E es = Inr s"
  by (erule (2) derive_prefix) (simp add: derive_state_def)

text \<open>The state after a prefix and after the whole ledger, from one pass over the events.\<close>

definition staged :: "prims \<Rightarrow> event list \<Rightarrow> event list \<Rightarrow> (mission \<Rightarrow> bool) \<Rightarrow> (mission \<Rightarrow> bool) \<Rightarrow> bool" where
  "staged E es fs P Q \<longleftrightarrow>
     (case derive E es of
        Inl x \<Rightarrow> False
      | Inr v \<Rightarrow> P (v_state v)
          \<and> (case fold_result (derive_step E (es @ fs)) v fs of Inl x \<Rightarrow> False | Inr v' \<Rightarrow> Q (v_state v')))"

lemma derive_extend:
  assumes "derive E es = Inr v" and "sequenced es" and "fold_result (derive_step E (es @ fs)) v fs = Inr v'"
  shows "derive E (es @ fs) = Inr v'"
proof -
  obtain e es' where es: "es = e # es'" "e_kind e = ''mission_created''"
      "validate_payload E ''mission_created'' (e_payload e) = Inr ()"
    and v: "fold_result (derive_step E es) (start_derivation e) es = Inr v"
    using assms(1) by (auto simp: derive_def split: list.splits if_splits sum.splits)
  have "fold_result (derive_step E es) (start_derivation e) es = fold_result (derive_step E (es @ fs)) (start_derivation e) es"
    by (rule fold_result_cong) (rule derive_step_prefix [OF assms(2)])
  then have "fold_result (derive_step E (es @ fs)) (start_derivation e) es = Inr v" using v by (simp only:)
  then have "fold_result (derive_step E (es @ fs)) (start_derivation e) (es @ fs) = Inr v'"
    using assms(3) by (simp del: fold_result.simps)
  then show ?thesis using es by (simp add: derive_def del: fold_result.simps)
qed

lemma staged_states:
  assumes "staged E es fs P Q" and "sequenced es"
  obtains s s' where "derive_state E es = Inr s" "P s" and "derive_state E (es @ fs) = Inr s'" "Q s'"
proof -
  obtain v v' where "derive E es = Inr v" "P (v_state v)" "fold_result (derive_step E (es @ fs)) v fs = Inr v'" "Q (v_state v')"
    using assms(1) by (auto simp: staged_def split: sum.splits)
  with derive_extend [OF _ assms(2)] that show thesis by (fastforce simp: derive_state_def)
qed

lemma derived_between:
  assumes "derive_state E es = Inr s" and "derive_state E (es @ fs) = Inr s'" and "sequenced es"
  obtains v v' where "s = v_state v" and "fold_result (derive_step E (es @ fs)) v fs = Inr v'" and "s' = v_state v'"
proof -
  have "es \<noteq> []" using assms(1) by (auto simp: derive_state_def derive_def)
  then obtain v v' where v: "derive E es = Inr v" "fold_result (derive_step E (es @ fs)) v fs = Inr v'" "s' = v_state v'"
    using derive_prefix [OF assms(2,3)] by blast
  moreover have "s = v_state v" using v(1) assms(1) by (simp add: derive_state_def)
  ultimately show thesis using that by blast
qed

lemma derived_moves_between:
  assumes "derive_state E es = Inr s" and "derive_state E (es @ fs) = Inr s'" and "sequenced es"
  shows "move\<^sup>*\<^sup>* (x_admissions s) (x_admissions s')"
  using derived_between [OF assms] moving.fold_rel derived_keyed [OF assms(1)] by (metis moved_def)

lemma derived_evolves:
  assumes "derive_state E es = Inr s" and "derive_state E (es @ fs) = Inr s'" and "sequenced es"
  shows "evolves (x_admissions s) (x_admissions s')"
  by (rule moves_evolves [OF derived_moves_between [OF assms] derived_keyed [OF assms(1)]])

end
