(* ===== verification/Sample.thy ===== *)
theory Sample
  imports Safety
begin

text \<open>
  A concrete mission: simple library functions that satisfy what the model asks of them, and the
  ledger of a mission that reserves two specialists, runs one of them and ends.  The ledger is
  evaluated once here; examples elsewhere reuse the facts.
\<close>

section \<open>Library functions\<close>

fun read_decimal :: "string \<Rightarrow> int \<Rightarrow> int option" where
  "read_decimal [] n = Some n"
| "read_decimal (c # cs) n = (if is_digit c then read_decimal cs (10 * n + (of_char c - 48)) else None)"

definition sample_uuid :: "string \<Rightarrow> string" where
  "sample_uuid name =
     ''00000000-0000-0000-0000-0000000000''
       @ [if is_hex (hd name) then hd name else CHR ''f'', if is_hex (last name) then last name else CHR ''0'']"

definition sample :: prims where
  "sample =
     \<lparr>hexdigest = (\<lambda>_. genesis_sha256), uuid5 = (\<lambda>ns name. sample_uuid name),
      parse_iso = (\<lambda>s. if s = [] then None else read_decimal s 0), format_iso = int_text,
      parse_float = (\<lambda>_. None)\<rparr>"

section \<open>Events\<close>

abbreviation digest_json :: json where
  "digest_json \<equiv> JStr genesis_sha256"

definition sample_event :: "int \<Rightarrow> string \<Rightarrow> string \<Rightarrow> (string \<times> json) list \<Rightarrow> event" where
  "sample_event n kind actor p =
     \<lparr>e_id = sample_uuid ''event'', e_mission = sample_uuid ''mission'', e_sequence = n,
      e_time = int_text n, e_kind = kind, e_actor = actor, e_key = ''key-'' @ int_text n, e_payload = JObj p,
      e_previous = genesis_sha256, e_sha = genesis_sha256\<rparr>"

definition created_event :: event where
  "created_event = sample_event 1 ''mission_created'' ''CONTROL''
     [(''feature'', JStr ''feature''), (''objective_sha256'', digest_json), (''target_repo'', JStr ''/repo''),
      (''base_sha'', digest_json), (''workflow_digest'', digest_json), (''initial_risk'', JStr ''low'')]"

definition compiled_event :: event where
  "compiled_event = sample_event 2 ''workflow_compiled'' ''CONTROL'' [(''compiled_digest'', digest_json)]"

definition policy_event :: event where
  "policy_event = sample_event 3 ''mission_admission_policy_frozen'' ''CONTROL''
     [(''workflow_digest'', digest_json), (''compiled_digest'', digest_json), (''deadline_at'', JStr ''999''),
      (''delegation_credits'', JInt 5), (''max_active_delegations'', JInt 2)]"

definition boot_event :: event where
  "boot_event = sample_event 4 ''fleet_boot_started'' ''CONTROL'' [(''feature'', JStr ''feature'')]"

definition running_event :: event where
  "running_event = sample_event 5 ''mission_running'' ''CONTROL'' [(''manifest'', JStr ''manifest'')]"

definition specialist_json :: "char \<Rightarrow> bool \<Rightarrow> json \<Rightarrow> json \<Rightarrow> int \<Rightarrow> int \<Rightarrow> int \<Rightarrow> json" where
  "specialist_json c writer parent_a parent_r budget global_debit parent_debit = JObj
     [(''admission_id'', JStr (sample_uuid [CHR ''a'', c])), (''delegation_id'', JStr (sample_uuid [CHR ''d'', c])),
      (''run_id'', JStr (sample_uuid [CHR ''r'', c])), (''run_kind'', JStr ''specialist''),
      (''request_key'', JStr [CHR ''k'', c]), (''request_digest'', digest_json),
      (''recipient_instance'', JStr [CHR ''w'', c]), (''capability'', JStr ''build''),
      (''parent_admission_id'', parent_a), (''parent_run_id'', parent_r), (''delegated_budget'', JInt budget),
      (''credit_cost'', JInt (1 + budget)), (''global_credit_debit'', JInt global_debit),
      (''parent_credit_debit'', JInt parent_debit), (''writer'', JBool writer),
      (''effect_sha256'', digest_json), (''task_sha256'', digest_json)]"

definition reserved_event :: event where
  "reserved_event = sample_event 6 ''delegations_reserved'' ''CONTROL''
     [(''batch_id'', JStr (sample_uuid ''batch'')), (''batch_sha256'', digest_json),
      (''request_sha256'', digest_json),
      (''admissions'', JArr
         [specialist_json (CHR ''1'') True JNull JNull 2 3 0,
          specialist_json (CHR ''2'') False (JStr (sample_uuid ''a1'')) (JStr (sample_uuid ''r1'')) 0 0 1])]"

definition committed_event :: event where
  "committed_event = sample_event 7 ''delegation_committed'' ''CONTROL''
     [(''admission_id'', JStr (sample_uuid ''a1'')), (''commit_id'', JStr (sample_uuid ''c1'')),
      (''reservation_event_sha256'', digest_json), (''request_digest'', digest_json),
      (''recipient_instance'', JStr ''w1''), (''writer'', JBool True), (''run_id'', JStr (sample_uuid ''r1'')),
      (''effect_sha256'', digest_json)]"

definition authorized_event :: event where
  "authorized_event = sample_event 8 ''delegation_launch_authorized'' ''CONTROL''
     [(''admission_id'', JStr (sample_uuid ''a1'')), (''commit_event_sha256'', digest_json),
      (''request_digest'', digest_json), (''effect_sha256'', digest_json), (''approval_event_sha256'', JNull),
      (''recipient_instance'', JStr ''w1''), (''writer'', JBool True), (''run_id'', JStr (sample_uuid ''r1''))]"

definition started_event :: event where
  "started_event = sample_event 9 ''delegation_started'' ''CONTROL''
     [(''admission_id'', JStr (sample_uuid ''a1'')), (''authorization_event_sha256'', digest_json),
      (''request_digest'', digest_json), (''effect_sha256'', digest_json), (''recipient_instance'', JStr ''w1''),
      (''writer'', JBool True), (''run_id'', JStr (sample_uuid ''r1''))]"

definition aborted_event :: event where
  "aborted_event = sample_event 10 ''delegation_reservation_aborted'' ''CONTROL''
     [(''admission_id'', JStr (sample_uuid ''a2'')), (''reason'', JStr ''not needed''),
      (''run_id'', JStr (sample_uuid ''r2'')), (''request_digest'', digest_json), (''effect_sha256'', digest_json),
      (''task_sha256'', digest_json), (''recipient_instance'', JStr ''w2''), (''writer'', JBool False)]"

definition finalized_event :: event where
  "finalized_event = sample_event 11 ''delegation_finalized'' ''CONTROL''
     [(''admission_id'', JStr (sample_uuid ''a1'')), (''status'', JStr ''succeeded''), (''reason'', JStr ''done''),
      (''run_id'', JStr (sample_uuid ''r1'')), (''recipient_instance'', JStr ''w1''), (''writer'', JBool True),
      (''terminal_evidence_sha256'', digest_json),
      (''terminal_evidence'', JObj
         [(''schema_version'', JInt 1), (''source_event_sha256'', digest_json),
          (''run_id'', JStr (sample_uuid ''r1'')), (''task_sha256'', digest_json), (''status'', JStr ''succeeded'')])]"

definition completing_event :: event where
  "completing_event = sample_event 12 ''mission_completing'' ''CONTROL'' [(''lead_artifact_id'', digest_json)]"

definition archive_event :: event where
  "archive_event = sample_event 13 ''archive_created'' ''CONTROL''
     [(''path'', JStr ''archive''), (''sha256'', digest_json), (''mode'', JStr ''full'')]"

definition terminal_event :: event where
  "terminal_event = sample_event 14 ''mission_terminal'' ''CONTROL''
     [(''status'', JStr ''succeeded''), (''reason'', JStr ''done'')]"

section \<open>Ledgers\<close>

definition open_ledger :: "event list" where
  "open_ledger = [created_event, compiled_event, policy_event, boot_event, running_event, reserved_event]"

definition busy_ledger :: "event list" where
  "busy_ledger = open_ledger @ [committed_event, authorized_event, started_event]"

definition full_ledger :: "event list" where
  "full_ledger =
     busy_ledger @ [aborted_event, finalized_event, completing_event, archive_event, terminal_event]"

text \<open>The first specialist runs and writes, the second waits below it.\<close>

definition busy_facts :: "mission \<Rightarrow> bool" where
  "busy_facts s =
     (let t = x_admissions s in
      (case dget (s_admissions t) (sample_uuid ''a1'') of
         None \<Rightarrow> False
       | Some a \<Rightarrow> a_active a \<and> a_writer a \<and> a_phase a = Started \<and> a_child_spent a = 1)
      \<and> (case dget (s_admissions t) (sample_uuid ''a2'') of
           None \<Rightarrow> False
         | Some b \<Rightarrow> a_active b \<and> a_phase b = Reserved \<and> a_parent b = Some (sample_uuid ''a1''))
      \<and> (case s_policy t of None \<Rightarrow> False | Some (po, ev) \<Rightarrow> po_credits po = 5 \<and> ev = genesis_sha256)
      \<and> s_spent t = 3 \<and> \<not> id_collision t \<and> x_status s = Running)"

definition full_facts :: "mission \<Rightarrow> bool" where
  "full_facts s \<longleftrightarrow>
     x_status s = Ended T_succeeded
     \<and> (case dget (s_admissions (x_admissions s)) (sample_uuid ''a1'') of
          None \<Rightarrow> False | Some a \<Rightarrow> \<not> a_active a \<and> a_phase a = Finalized)
     \<and> (case dget (s_admissions (x_admissions s)) (sample_uuid ''a2'') of
          None \<Rightarrow> False | Some a \<Rightarrow> \<not> a_active a \<and> a_phase a = Aborted)"

fun satisfies :: "('a \<Rightarrow> bool) \<Rightarrow> 'a result \<Rightarrow> bool" where
  "satisfies P (Inl e) = False"
| "satisfies P (Inr x) = P x"

lemma satisfiesD: "satisfies P r \<Longrightarrow> r = Inr (projr r) \<and> P (projr r)"
  by (cases r) auto

definition busy_state :: mission where
  "busy_state = projr (derive_state sample busy_ledger)"

definition full_state :: mission where
  "full_state = projr (derive_state sample full_ledger)"

lemma ledgers_split:
  "full_ledger = busy_ledger @ [aborted_event, finalized_event, completing_event, archive_event, terminal_event]"
  "busy_ledger = open_ledger @ [committed_event, authorized_event, started_event]"
  by (simp_all add: full_ledger_def busy_ledger_def)

lemma sequenced_full: "sequenced full_ledger"
  by code_simp

lemma sequenced_busy: "sequenced busy_ledger"
  using sequenced_full sequenced_append ledgers_split(1) by metis

lemma ledgers_derive:
  "staged sample busy_ledger [aborted_event, finalized_event, completing_event, archive_event, terminal_event]
     busy_facts full_facts"
  by code_simp

lemma busy_state: "derive_state sample busy_ledger = Inr busy_state" "busy_facts busy_state"
  and full_state: "derive_state sample full_ledger = Inr full_state" "full_facts full_state"
proof -
  from ledgers_derive sequenced_busy obtain s s' where s: "derive_state sample busy_ledger = Inr s" "busy_facts s"
    and s': "derive_state sample full_ledger = Inr s'" "full_facts s'"
    unfolding ledgers_split(1) by (rule staged_states)
  then show "derive_state sample busy_ledger = Inr busy_state" "busy_facts busy_state"
    "derive_state sample full_ledger = Inr full_state" "full_facts full_state"
    by (simp_all add: busy_state_def full_state_def)
qed

definition first_admission :: admission where
  "first_admission = the (dget (s_admissions (x_admissions busy_state)) (sample_uuid ''a1''))"

definition second_admission :: admission where
  "second_admission = the (dget (s_admissions (x_admissions busy_state)) (sample_uuid ''a2''))"

lemma first_admission:
  "dget (s_admissions (x_admissions busy_state)) (sample_uuid ''a1'') = Some first_admission"
  "a_active first_admission" "a_writer first_admission" "a_phase first_admission = Started"
  "a_child_spent first_admission = 1"
  using busy_state(2) by (auto simp: busy_facts_def Let_def first_admission_def split: option.splits)

lemma second_admission:
  "dget (s_admissions (x_admissions busy_state)) (sample_uuid ''a2'') = Some second_admission"
  "a_active second_admission" "a_phase second_admission = Reserved"
  "a_parent second_admission = Some (sample_uuid ''a1'')"
  using busy_state(2) by (auto simp: busy_facts_def Let_def second_admission_def split: option.splits)

definition busy_policy :: admission_policy where
  "busy_policy = fst (the (s_policy (x_admissions busy_state)))"

lemma busy_policy:
  "s_policy (x_admissions busy_state) = Some (busy_policy, genesis_sha256)" "po_credits busy_policy = 5"
  "\<not> id_collision (x_admissions busy_state)" "s_spent (x_admissions busy_state) = 3"
  using busy_state(2) by (auto simp: busy_facts_def Let_def busy_policy_def split: option.splits)

end
