(* ===== verification/Admission_Theorems.thy ===== *)
theory Admission_Theorems
  imports Sample
begin

text \<open>
  What the ledger promises of admissions: every theorem speaks of the state that
  \<open>derive_state\<close> computes, whatever the events of the ledger are.  Examples use the sample
  mission.
\<close>

section \<open>Refinement\<close>

text \<open>C1: the reducer refines the abstract specification of admission control: whatever events a
  ledger holds, the derived admission state is reached from the empty one by allowed moves.\<close>

theorem ledger_refines_moves:
  assumes "derive_state E events = Inr s"
  shows "move\<^sup>*\<^sup>* empty_admission_state (x_admissions s)"
  using assms by (rule derived_moves)

theorem ledger_refines_moves_witness: "move\<^sup>*\<^sup>* empty_admission_state (x_admissions busy_state)"
  by (rule ledger_refines_moves [OF busy_state(1)])

section \<open>Exclusive slots\<close>

text \<open>C2: there is one writer: the writer slot names an admission exactly when it is active and
  writes, so two active writers are the same admission.\<close>

theorem single_writer:
  assumes "derive_state E events = Inr s"
  shows "s_writer (x_admissions s) = Some k \<longleftrightarrow>
    (\<exists>a. dget (s_admissions (x_admissions s)) k = Some a \<and> a_active a \<and> a_writer a)"
  using writer.on_ledgers [OF assms] by (simp add: writer_slot_def)

theorem single_writer_witness:
  "s_writer (x_admissions busy_state) = Some (sample_uuid ''a1'') \<longleftrightarrow>
    (\<exists>a. dget (s_admissions (x_admissions busy_state)) (sample_uuid ''a1'') = Some a \<and> a_active a \<and> a_writer a)"
  by (rule single_writer [OF busy_state(1)])

text \<open>C3: a recipient serves one active admission at a time, as long as no delegation carries the
  identity of an admission.\<close>

theorem recipients_exclusive:
  assumes "derive_state E events = Inr s" and "\<not> id_collision (x_admissions s)"
    and "dget (s_admissions (x_admissions s)) k = Some a" and "a_active a"
    and "dget (s_admissions (x_admissions s)) k' = Some b" and "a_active b"
    and "a_recipient a = a_recipient b"
  shows "k = k'"
proof -
  have "recipient_slots (x_admissions s)"
    using recipient.on_ledgers [OF assms(1)] assms(2) by (simp add: recipients_kept_def)
  then show ?thesis
    using recipient_slotsD assms(3-7) by (metis option.inject)
qed

theorem recipients_exclusive_witness:
  "a_active first_admission
    \<and> {k. \<exists>b. dget (s_admissions (x_admissions busy_state)) k = Some b \<and> a_active b
         \<and> a_recipient first_admission = a_recipient b} = {sample_uuid ''a1''}"
proof -
  have "sample_uuid ''a1'' = k" if "dget (s_admissions (x_admissions busy_state)) k = Some b" "a_active b"
    "a_recipient first_admission = a_recipient b" for k b
    using recipients_exclusive [OF busy_state(1) busy_policy(3) first_admission(1,2) that] .
  then show ?thesis using first_admission(1,2) by blast
qed

section \<open>Accounts\<close>

text \<open>C4: no credit is lost or spent twice: the credits spent are the sum of what the admissions
  debited, they never exceed the credits of the frozen policy, and what remains is the rest.\<close>

theorem credits_conserved:
  assumes "derive_state E events = Inr s" and "s_policy (x_admissions s) = Some (po, ev)"
  shows "s_spent (x_admissions s) = dict.total a_global_debit (s_admissions (x_admissions s))
    \<and> 0 \<le> s_spent (x_admissions s) \<and> s_spent (x_admissions s) \<le> po_credits po
    \<and> s_remaining (x_admissions s) = Some (po_credits po - s_spent (x_admissions s))"
proof -
  have acc: "credit_account (x_admissions s)" by (rule credits.on_ledgers [OF assms(1)])
  then have "0 \<le> dict.total a_global_debit (s_admissions (x_admissions s))"
    by (intro dict.total_nonneg) (auto simp: credit_account_def nonneg_debits_def)
  with acc assms(2) show ?thesis by (auto simp: credit_account_def)
qed

theorem credits_conserved_witness:
  "s_spent (x_admissions busy_state) = 3
    \<and> s_spent (x_admissions busy_state) = dict.total a_global_debit (s_admissions (x_admissions busy_state))
    \<and> s_remaining (x_admissions busy_state) = Some 2"
  using credits_conserved [OF busy_state(1) busy_policy(1)] busy_policy by simp

text \<open>C5: the counter of active delegations counts the active specialists, and never exceeds the
  limit of the policy.\<close>

theorem active_bounded:
  assumes "derive_state E events = Inr s" and "s_policy (x_admissions s) = Some (po, ev)"
  shows "s_active (x_admissions s) = dict.total active_specialist (s_admissions (x_admissions s))
    \<and> s_active (x_admissions s) \<le> po_max_active po"
  using count.on_ledgers [OF assms(1)] assms(2) by (auto simp: activity_count_def)

theorem active_bounded_witness: "s_active (x_admissions busy_state) \<le> po_max_active busy_policy"
  using active_bounded [OF busy_state(1) busy_policy(1)] by simp

text \<open>C6: what the children of an admission cost is exactly what they debited from it, and stays
  within the budget that was delegated to it.\<close>

theorem child_budget_kept:
  assumes "derive_state E events = Inr s" and "dget (s_admissions (x_admissions s)) k = Some a"
  shows "a_child_spent a = dict.total (parent_share k) (s_admissions (x_admissions s))
    \<and> a_child_spent a \<le> a_budget a"
  using family.on_ledgers [OF assms(1)] child_accountD [OF _ assms(2)] unfolding families_def by blast

theorem child_budget_kept_witness: "a_child_spent first_admission = 1 \<and> 1 \<le> a_budget first_admission"
  using child_budget_kept [OF busy_state(1) first_admission(1)] first_admission(5) by simp

section \<open>Parents\<close>

text \<open>C7: every chain of parents ends in a root, every parent is stored, and no parent is released
  while a child is active.\<close>

theorem parents_outlive_children:
  assumes "derive_state E events = Inr s" and "dget (s_admissions (x_admissions s)) k = Some a"
  shows "rooted (s_admissions (x_admissions s)) k
    \<and> (case a_parent a of
         None \<Rightarrow> True
       | Some p \<Rightarrow>
           (case dget (s_admissions (x_admissions s)) p of
              None \<Rightarrow> False
            | Some b \<Rightarrow> \<not> a_active a \<or> a_active b))"
proof -
  have "tied (x_admissions s)" using family.on_ledgers [OF assms(1)] by (simp add: families_def)
  moreover have "rooted (s_admissions (x_admissions s)) k"
    using chain.on_ledgers [OF assms(1)] assms(2) by (simp add: all_rooted_def)
  ultimately show ?thesis
    using tiedD [OF _ assms(2)] by (fastforce split: option.splits)
qed

theorem parents_outlive_children_witness:
  "rooted (s_admissions (x_admissions busy_state)) (sample_uuid ''a2'')
    \<and> a_parent second_admission = Some (sample_uuid ''a1'') \<and> a_active first_admission"
  using parents_outlive_children [OF busy_state(1) second_admission(1)] second_admission first_admission by simp

section \<open>Runs\<close>

text \<open>C8: a run is claimed by the reserved admission it was minted for and owned by it from its
  commit on; no run is both claimed and owned, so no two live admissions share a run.\<close>

theorem run_holders_exact:
  assumes "derive_state E events = Inr s"
  shows "(dget (s_run_claims (x_admissions s)) r = Some k \<longleftrightarrow>
      (\<exists>a. dget (s_admissions (x_admissions s)) k = Some a \<and> a_run_id a = r \<and> a_phase a = Reserved))
    \<and> (dget (s_run_owners (x_admissions s)) r = Some (By_admission k) \<longleftrightarrow>
      (\<exists>a. dget (s_admissions (x_admissions s)) k = Some a \<and> a_run_id a = r \<and> owning_phase (a_phase a)))
    \<and> \<not> (dhas (s_run_claims (x_admissions s)) r \<and> dhas (s_run_owners (x_admissions s)) r)"
  using runs.on_ledgers [OF assms]
  by (simp add: run_holders_def claimed_def owned_def disjoint_runs_def holding_def)

theorem run_holders_exact_witness:
  "(dget (s_run_claims (x_admissions busy_state)) (sample_uuid ''r2'') = Some (sample_uuid ''a2'') \<longleftrightarrow>
      (\<exists>a. dget (s_admissions (x_admissions busy_state)) (sample_uuid ''a2'') = Some a
        \<and> a_run_id a = sample_uuid ''r2'' \<and> a_phase a = Reserved))
    \<and> (dget (s_run_owners (x_admissions busy_state)) (sample_uuid ''r2'') = Some (By_admission (sample_uuid ''a2'')) \<longleftrightarrow>
      (\<exists>a. dget (s_admissions (x_admissions busy_state)) (sample_uuid ''a2'') = Some a
        \<and> a_run_id a = sample_uuid ''r2'' \<and> owning_phase (a_phase a)))
    \<and> \<not> (dhas (s_run_claims (x_admissions busy_state)) (sample_uuid ''r2'')
        \<and> dhas (s_run_owners (x_admissions busy_state)) (sample_uuid ''r2''))"
  by (rule run_holders_exact [OF busy_state(1)])

section \<open>Life of an admission\<close>

text \<open>C9: admissions are never removed or rewritten: appending events keeps the request, the lane
  and the reservation of an admission, and moves its phase only along the edges of its life; an
  admission that was released stays released.\<close>

theorem admissions_evolve:
  assumes "derive_state E es = Inr s" and "derive_state E (es @ fs) = Inr s'" and "sequenced es"
    and "dget (s_admissions (x_admissions s)) k = Some a"
  shows "\<exists>b. dget (s_admissions (x_admissions s')) k = Some b
    \<and> admission_request.truncate b = admission_request.truncate a \<and> a_lane b = a_lane a
    \<and> phase_edge\<^sup>*\<^sup>* (a_phase a) (a_phase b) \<and> (a_active b \<longrightarrow> a_active a)"
proof -
  obtain b where "dget (s_admissions (x_admissions s')) k = Some b" "same_admission a b"
    using derived_evolves [OF assms(1-3)] assms(4) by (auto simp: evolves_def)
  then show ?thesis by (auto simp: same_admission_def)
qed

theorem admissions_evolve_witness:
  "\<exists>b. dget (s_admissions (x_admissions full_state)) (sample_uuid ''a1'') = Some b
    \<and> phase_edge\<^sup>*\<^sup>* Started (a_phase b)"
  using admissions_evolve [OF busy_state(1) full_state(1) [unfolded ledgers_split(1)] sequenced_busy first_admission(1)]
    first_admission(4) by auto

text \<open>C10: an admission is active exactly while it is reserved, committed, authorized or started, and
  it carries a commit from its commit on.\<close>

theorem active_iff_phase:
  assumes "derive_state E events = Inr s" and "dget (s_admissions (x_admissions s)) k = Some a"
  shows "(a_active a \<longleftrightarrow> active_phase (a_phase a)) \<and> (a_phase a = Reserved \<longrightarrow> a_commit a = None)
    \<and> (owning_phase (a_phase a) \<longrightarrow> a_commit a \<noteq> None)"
  using activityD [OF act.on_ledgers [OF assms(1)] assms(2)]
  unfolding shaped_def owning_phase_def by blast

theorem active_iff_phase_witness:
  "a_active first_admission \<and> a_phase first_admission = Started \<and> a_commit first_admission \<noteq> None"
  using active_iff_phase [OF busy_state(1) first_admission(1)] first_admission by simp

end
