(* ===== verification/Lifecycle_Theorems.thy ===== *)
theory Lifecycle_Theorems
  imports Sample
begin

text \<open>
  What the ledger promises of the lifecycle: the edges between statuses, quiet completion and
  terminal, risk that never falls, approvals that stay bound to the mission, and the authority
  that admissions need.
\<close>

section \<open>One more event\<close>

lemma derive_snoc:
  assumes "derive_state E (es @ [e]) = Inr s'" and "derive_state E es = Inr s" and "sequenced es"
  obtains u where "validate_payload E (e_kind e) (e_payload e) = Inr ()"
    and "reduce E s (meta_of e) (last_request (es @ [e]) (e_sequence e))
           (decode_payload (e_kind e) (e_payload e)) = Inr u"
    and "s' = counted (meta_of e) u"
proof -
  have "es \<noteq> []" using assms(2) by (auto simp: derive_state_def derive_def)
  then obtain v v' where v: "derive E es = Inr v" "fold_result (derive_step E (es @ [e])) v [e] = Inr v'" "s' = v_state v'"
    using derive_prefix [OF assms(1,3)] by blast
  have s: "s = v_state v" using v(1) assms(2) by (simp add: derive_state_def)
  have "derive_step E (es @ [e]) v e = Inr v'" using v(2) by (simp split: sum.splits)
  from derive_stepD(1,2) [OF this] that s v(3) show thesis by auto
qed

definition before_end :: "event list" where
  "before_end = busy_ledger @ [aborted_event, finalized_event, completing_event, archive_event]"

definition archived_state :: mission where
  "archived_state = projr (derive_state sample before_end)"

lemma full_split: "full_ledger = before_end @ [terminal_event]"
  by (simp add: full_ledger_def before_end_def)

lemma before_end: "derive_state sample before_end = Inr archived_state" "sequenced before_end"
proof -
  show seq: "sequenced before_end" using sequenced_full full_split sequenced_append by metis
  have "before_end \<noteq> []" by (simp add: before_end_def)
  then obtain s where "derive_state sample before_end = Inr s"
    using derive_state_prefix [OF _ seq] full_state(1) full_split by metis
  then show "derive_state sample before_end = Inr archived_state" by (simp add: archived_state_def)
qed

section \<open>Edges of the lifecycle\<close>

fun lifecycle_edge :: "status \<Rightarrow> status \<Rightarrow> bool" where
  "lifecycle_edge a Created = True"
| "lifecycle_edge a Compiled = (a = Created)"
| "lifecycle_edge a Booting = (a = Compiled)"
| "lifecycle_edge a Running = (a = Booting)"
| "lifecycle_edge a Awaiting_assurance = (a = Compiled \<or> a = Running \<or> a = Assured_running)"
| "lifecycle_edge a Assurance_ok = (a = Awaiting_assurance)"
| "lifecycle_edge a Assured_booting = (a = Assurance_ok)"
| "lifecycle_edge a Assured_running = (a = Assured_booting)"
| "lifecycle_edge a Completing = (a = Running \<or> a = Assured_running)"
| "lifecycle_edge a Archived = (a = Completing)"
| "lifecycle_edge a (Ended st) = (st = T_succeeded \<longrightarrow> a = Archived)"

lemmas lifecycle_defs =
  reduce_compiled_def reduce_boot_def reduce_running_def reduce_assurance_requested_def
  reduce_assurance_approved_def reduce_assurance_boot_def reduce_assurance_started_def
  reduce_renewed_def reduce_completing_def reduce_archive_def reduce_escalated_def reduce_terminal_def

lemma approval_use_status: "check_approval_use E s m st ref = Inr u \<Longrightarrow> x_status s = st"
  by (auto simp: check_approval_use_def split: if_splits)

lemma reduce_lifecycle_edge:
  assumes "reduce_lifecycle E s m lr e = Inr s'"
  shows "x_status s' = x_status s \<or> lifecycle_edge (x_status s) (x_status s')"
  using assms
  by (cases e)
    (auto simp: lifecycle_defs guard_simps enter_def Let_def split: option.splits if_splits sum.splits
      dest!: approval_use_status)

lemma reduce_status:
  "reduce E s m lr p = Inr s' \<Longrightarrow> (\<And>e. p \<noteq> Lifecycle e) \<Longrightarrow>
     x_status s' = x_status s \<and> x_risk s' = x_risk s \<and> x_created s' = x_created s \<and> x_id s' = x_id s
     \<and> x_approval s' = x_approval s \<and> x_compiled s' = x_compiled s \<and> x_terminal s' = x_terminal s
     \<and> x_categories s' = x_categories s"
  by (cases p) (auto split: sum.splits)

lemma reduce_edge:
  assumes "reduce E s m lr p = Inr s'"
  shows "x_status s' = x_status s \<or> lifecycle_edge (x_status s) (x_status s')"
proof (cases p)
  case (Lifecycle e)
  then show ?thesis using assms reduce_lifecycle_edge [of E s m lr e s'] by simp
qed (use assms reduce_status [of E s m lr p s'] in simp_all)

text \<open>C11: every event moves the status of a mission along an edge of its lifecycle.\<close>

theorem status_follows_edges:
  assumes "derive_state E (es @ [e]) = Inr s'" and "derive_state E es = Inr s" and "sequenced es"
  shows "x_status s' = x_status s \<or> lifecycle_edge (x_status s) (x_status s')"
  using derive_snoc [OF assms] reduce_edge by (metis counted_fields(2))

theorem status_follows_edges_witness:
  "\<exists>s. derive_state sample before_end = Inr s
    \<and> (x_status s = Ended T_succeeded \<or> lifecycle_edge (x_status s) (Ended T_succeeded))"
  using status_follows_edges [OF full_state(1) [unfolded full_split] before_end(1,2)] before_end(1) full_state(2)
  by (auto simp: full_facts_def)

section \<open>Quiet missions\<close>

definition idle :: "admission_state \<Rightarrow> bool" where
  "idle t \<longleftrightarrow>
     (\<forall>r. dget (s_run_claims t) r = None) \<and> s_writer t = None
     \<and> (\<forall>k a. dget (s_admissions t) k = Some a \<longrightarrow> \<not> a_active a)"

lemma no_items: "ditems d = [] \<longleftrightarrow> (\<forall>r. dget d r = None)"
proof
  show "\<forall>r. dget d r = None" if "ditems d = []" using that dict.items_get [of _ _ d] by (metis empty_iff empty_set option.exhaust)
  show "ditems d = []" if "\<forall>r. dget d r = None"
  proof (rule ccontr)
    assume "ditems d \<noteq> []"
    then obtain k v where "(k, v) \<in> set (ditems d)" by (cases "ditems d") auto
    with that show False by (simp add: dict.items_get)
  qed
qed

lemma idle_iff: "no_active_admissions t \<longleftrightarrow> idle t"
  unfolding no_active_admissions_def idle_def no_items list_all_iff dict.all_val ..

lemma require_idle: "require_no_active_admissions s = Inr u \<longleftrightarrow> inference_settled s \<and> idle (x_admissions s)"
  by (auto simp: require_no_active_admissions_def idle_iff)

text \<open>Outside the phases that admit work, no event makes an admission active.\<close>

lemma idle_update:
  "idle t \<Longrightarrow> \<not> a_active b \<Longrightarrow> idle (t\<lparr>s_admissions := dput k b (s_admissions t)\<rparr>)"
  by (auto simp: idle_def dict.get_put)

lemma idle_other [simp]:
  "idle (t\<lparr>s_policy := x1\<rparr>) = idle t" "idle (t\<lparr>s_remaining := x2\<rparr>) = idle t"
  "idle (t\<lparr>s_run_owners := x3\<rparr>) = idle t" "idle (t\<lparr>s_lead_run := x4\<rparr>) = idle t"
  "idle (t\<lparr>s_lead_result := x5\<rparr>) = idle t" "idle (t\<lparr>s_synthesis := x6\<rparr>) = idle t"
  "idle (t\<lparr>s_delegations := x7\<rparr>) = idle t" "idle (t\<lparr>s_results := x8\<rparr>) = idle t"
  "idle (t\<lparr>s_recipients := x9\<rparr>) = idle t" "idle (t\<lparr>s_cancelled := x10\<rparr>) = idle t"
  by (simp_all add: idle_def)

lemma idle_unclaim: "idle t \<Longrightarrow> idle (t\<lparr>s_run_claims := ddel r (s_run_claims t)\<rparr>)"
  by (simp add: idle_def dict.get_del)

lemma idle_release: "idle t \<Longrightarrow> \<not> a_active a \<Longrightarrow> idle (release_admission a t)"
  by (simp add: release_admission_def idle_update)

lemma idle_inactive: "idle t \<Longrightarrow> dget (s_admissions t) k = Some a \<Longrightarrow> \<not> a_active a"
  by (simp add: idle_def)

lemma lane_closed:
  "admission_lane st = None \<Longrightarrow> launch_lane st = None"
  by (cases st) simp_all

lemma reduce_admission_idle:
  assumes "reduce_admission E s m e = Inr t'" and "idle (x_admissions s)" and "admission_lane (x_status s) = None"
  shows "idle t'"
proof (cases e)
  case (Delegation_started p)
  then show ?thesis
    using assms by (auto simp: reduce_started_def reduce_current_start_def reduce_legacy_start_def Let_def
        dest: idle_inactive split: start_proof.splits option.splits if_splits sum.splits)
next
  case (Delegation_finalized p)
  then show ?thesis
    using assms by (auto simp: reduce_finalized_def Let_def dest: idle_inactive intro!: idle_release
        split: option.splits if_splits)
next
  case (Reservation_aborted p)
  then show ?thesis
    using assms by (auto simp: reduce_aborted_def Let_def dest: idle_inactive intro!: idle_release idle_unclaim
        split: option.splits if_splits)
qed (use assms lane_closed in \<open>auto simp: reduce_policy_def Let_def reserve_admissions_def reduce_committed_def
      reduce_authorized_def require_lane_def require_launch_lane_def split: if_splits\<close>)

lemma idle_result: "idle t \<Longrightarrow> attach_result t m r k = Inr t' \<Longrightarrow> idle t'"
  by (auto simp: attach_result_def record_result_def dest: idle_inactive intro!: idle_update
      split: option.splits if_splits)

lemma reduce_run_idle:
  assumes "reduce_run s m e = Inr t'" and "idle (x_admissions s)"
  shows "idle t'"
proof (cases e)
  case (Synthesis_recorded k r)
  then show ?thesis
    using assms by (auto simp: reduce_synthesis_def Let_def record_result_def idle_def dict.get_put
        split: option.splits if_splits)
qed (use assms in \<open>auto simp: reduce_lead_dispatched_def reduce_lead_result_def reduce_registered_def
      reduce_result_def reduce_completion_request_def reduce_cancel_def Let_def
      dest: idle_result [rotated] split: option.splits if_splits sum.splits owner.splits\<close>)

lemma reduce_decision_quiet:
  assumes "reduce_decision E s m e = Inr d" and "d_pending (x_decisions s) = []"
    and "x_status s \<noteq> Running" and "x_status s \<noteq> Assured_running"
  shows "d_pending d = []"
  using assms
  by (cases e)
    (auto simp: reduce_decision_requested_def reduce_enqueued_def reduce_attempted_def reduce_outcome_def
      reduce_resolved_def pending_decision_def set_outbox_def resolve_decision_def Let_def
      split: option.splits if_splits sum.splits)

section \<open>Completion and terminal\<close>

definition quiet_end :: "derivation \<Rightarrow> bool" where
  "quiet_end v \<longleftrightarrow>
     (let s = v_state v in
      (\<forall>st. x_status s = Ended st \<longrightarrow> v_terminal v)
      \<and> (v_terminal v \<longrightarrow> idle (x_admissions s) \<and> inference_settled s)
      \<and> (x_status s \<in> {Completing, Archived} \<longrightarrow> idle (x_admissions s) \<and> d_pending (x_decisions s) = []))"

lemma lifecycle_quiet:
  assumes "reduce_lifecycle E s m lr e = Inr u" and "x_status u \<in> {Completing, Archived}"
    and "x_status s \<in> {Completing, Archived} \<Longrightarrow> idle (x_admissions s) \<and> d_pending (x_decisions s) = []"
  shows "idle (x_admissions u) \<and> d_pending (x_decisions u) = []"
  using assms
  by (cases e)
    (auto simp: lifecycle_defs guard_simps enter_def Let_def require_idle require_no_pending_decisions_def
      split: option.splits if_splits sum.splits)

lemma lifecycle_ends:
  assumes "reduce_lifecycle E s m lr e = Inr u" and "x_status u = Ended st" and "x_status s \<noteq> Ended st"
  shows "\<exists>reason. e = Mission_terminal st reason"
  using assms
  by (cases e)
    (auto simp: lifecycle_defs guard_simps enter_def Let_def split: option.splits if_splits sum.splits)

lemma terminal_quiet:
  assumes "reduce_lifecycle E s m lr (Mission_terminal st reason) = Inr u"
  shows "idle (x_admissions u) \<and> inference_settled u"
  using assms
  by (auto simp: reduce_terminal_def guard_simps idle_iff inference_settled_def split: if_splits)

lemma reduce_quiet:
  assumes "reduce E s m lr p = Inr u" and "x_status u \<in> {Completing, Archived}"
    and old: "x_status s \<in> {Completing, Archived} \<Longrightarrow> idle (x_admissions s) \<and> d_pending (x_decisions s) = []"
  shows "idle (x_admissions u) \<and> d_pending (x_decisions u) = []"
proof (cases p)
  case (Lifecycle e)
  then show ?thesis using assms lifecycle_quiet [of E s m lr e u] by simp
next
  case (Admission e)
  then have same: "x_status u = x_status s" using assms(1) reduce_status by blast
  obtain t' where "reduce_admission E s m e = Inr t'" "u = s\<lparr>x_admissions := t'\<rparr>"
    using Admission assms(1) by (auto split: sum.splits)
  then show ?thesis using old assms(2) same reduce_admission_idle [of E s m e t'] by auto
next
  case (Run e)
  then have same: "x_status u = x_status s" using assms(1) reduce_status by blast
  obtain t' where "reduce_run s m e = Inr t'" "u = s\<lparr>x_admissions := t'\<rparr>"
    using Run assms(1) by (auto split: sum.splits)
  then show ?thesis using old assms(2) same reduce_run_idle [of s m e t'] by auto
next
  case (Decision e)
  then have same: "x_status u = x_status s" using assms(1) reduce_status by blast
  obtain d where "reduce_decision E s m e = Inr d" "u = s\<lparr>x_decisions := d\<rparr>"
    using Decision assms(1) by (auto split: sum.splits)
  then show ?thesis using old assms(2) same reduce_decision_quiet [of E s m e d] by auto
next
  case (Herdr e)
  then have same: "x_status u = x_status s" using assms(1) reduce_status by blast
  then show ?thesis using Herdr assms by (auto split: sum.splits)
qed (use assms in auto)

lemma decode_terminal:
  "decode_payload k p = Lifecycle (Mission_terminal st reason) \<longleftrightarrow>
     k = ''mission_terminal'' \<and> st = terminal_of (sget p ''status'') \<and> reason = sget p ''reason''"
  by (auto simp: decode_payload_def decode_lifecycle_def split: option.splits if_splits)

interpretation quiet: preserved "derive_step E events" quiet_end for E events
proof
  fix v e v'
  assume inv: "quiet_end v" and step: "derive_step E events v e = Inr v'"
  let ?p = "decode_payload (e_kind e) (e_payload e)"
  obtain u where u: "reduce E (v_state v) (meta_of e) (last_request events (e_sequence e)) ?p = Inr u"
    "v_state v' = counted (meta_of e) u"
    using derive_stepD(2) [OF step] by auto
  have open_before: "x_status (v_state v) \<noteq> Ended st" for st
    using inv derive_stepD(3) [OF step] by (auto simp: quiet_end_def Let_def)
  have terminal: "v_terminal v' \<longleftrightarrow> e_kind e = ''mission_terminal''" by (rule derive_stepD(5) [OF step])
  have "v_terminal v'" if ended: "x_status u = Ended st" for st
  proof (cases ?p)
    case (Lifecycle le)
    then obtain reason where "le = Mission_terminal st reason"
      using lifecycle_ends [of E "v_state v" "meta_of e" "last_request events (e_sequence e)" le u st]
        ended open_before u(1) by auto
    then show ?thesis using Lifecycle terminal decode_terminal by blast
  qed (use ended open_before reduce_status [OF u(1)] in auto)
  moreover have "idle (x_admissions u) \<and> inference_settled u" if "v_terminal v'"
  proof -
    have "?p = Lifecycle (Mission_terminal (terminal_of (sget (e_payload e) ''status'')) (sget (e_payload e) ''reason''))"
      using that terminal decode_terminal by blast
    then show ?thesis using u(1) terminal_quiet by simp
  qed
  moreover have "idle (x_admissions u) \<and> d_pending (x_decisions u) = []" if "x_status u \<in> {Completing, Archived}"
    using inv by (intro reduce_quiet [OF u(1) that]) (auto simp: quiet_end_def Let_def)
  ultimately show "quiet_end v'"
    by (auto simp: quiet_end_def Let_def u(2) inference_settled_def)
qed

lemma start_quiet: "quiet_end (start_derivation e)"
  by (simp add: quiet_end_def Let_def start_derivation_def initial_state_def)

lemma derived_quiet:
  assumes "derive_state E events = Inr s"
  obtains v where "quiet_end v" and "s = v_state v"
  using assms by (rule derived) (blast dest: quiet.fold_inv [OF start_quiet])

lemma archived_status: "x_status archived_state = Archived"
proof -
  obtain u where "reduce sample archived_state (meta_of terminal_event)
      (last_request (before_end @ [terminal_event]) (e_sequence terminal_event))
      (decode_payload (e_kind terminal_event) (e_payload terminal_event)) = Inr u"
    using derive_snoc [OF full_state(1) [unfolded full_split] before_end] by blast
  moreover have "decode_payload (e_kind terminal_event) (e_payload terminal_event)
      = Lifecycle (Mission_terminal T_succeeded ''done'')"
    by code_simp
  ultimately show ?thesis
    by (auto simp: reduce_terminal_def split: if_splits)
qed

text \<open>C12: from the moment a mission completes, nothing is active: no run is claimed, no admission
  holds a slot and no human decision is pending.\<close>

theorem completion_is_quiet:
  assumes "derive_state E events = Inr s" and "x_status s = Completing \<or> x_status s = Archived"
  shows "no_active_admissions (x_admissions s) \<and> d_pending (x_decisions s) = []"
proof -
  obtain v where "quiet_end v" "s = v_state v" using derived_quiet [OF assms(1)] .
  then show ?thesis using assms(2) by (auto simp: quiet_end_def Let_def idle_iff)
qed

theorem completion_is_quiet_witness:
  "x_status archived_state = Archived \<and> no_active_admissions (x_admissions archived_state)
    \<and> d_pending (x_decisions archived_state) = []"
  using completion_is_quiet [OF before_end(1)] archived_status by simp

text \<open>C13: a mission that ended has no active admission and no inference request in flight.\<close>

theorem terminal_is_quiet:
  assumes "derive_state E events = Inr s" and "x_status s = Ended st"
  shows "no_active_admissions (x_admissions s) \<and> inference_settled s"
proof -
  obtain v where "quiet_end v" "s = v_state v" using derived_quiet [OF assms(1)] .
  then show ?thesis using assms(2) by (auto simp: quiet_end_def Let_def idle_iff)
qed

theorem terminal_is_quiet_witness:
  "no_active_admissions (x_admissions full_state) \<and> inference_settled full_state"
  using terminal_is_quiet [OF full_state(1)] full_state(2) by (simp add: full_facts_def)

lemma fold_result_neighbours:
  "fold_result step s (es @ e # f # fs) = Inr v \<Longrightarrow> \<exists>a b c. step a e = Inr b \<and> step b f = Inr c"
  by (auto simp: guard_simps simp del: all_simps)

text \<open>C14: the terminal event is the last one: a ledger that derives has no event after it.\<close>

theorem nothing_follows_terminal:
  assumes "derive_state E (es @ e # fs) = Inr s" and "e_kind e = ''mission_terminal''"
  shows "fs = []"
proof (rule ccontr)
  assume "fs \<noteq> []"
  then obtain f fs' where fs: "fs = f # fs'" by (cases fs) auto
  obtain v first rest where "es @ e # fs = first # rest"
    and "fold_result (derive_step E (es @ e # fs)) (start_derivation first) (es @ e # fs) = Inr v"
    using assms(1) by (rule derived)
  then obtain v1 v2 v3 where "derive_step E (es @ e # fs) v1 e = Inr v2"
    and "derive_step E (es @ e # fs) v2 f = Inr v3"
    using fold_result_neighbours [of "derive_step E (es @ e # fs)" _ es e f fs'] unfolding fs by blast
  then show False
    using derive_stepD(5) [of E _ v1 e v2] derive_stepD(3) [of E _ v2 f v3] assms(2) by simp
qed

theorem nothing_follows_terminal_witness:
  "{fs. \<exists>s. derive_state sample (before_end @ terminal_event # fs) = Inr s} = {[]}"
proof -
  have "e_kind terminal_event = ''mission_terminal''" by (simp add: terminal_event_def sample_event_def)
  then have "fs = []" if "derive_state sample (before_end @ terminal_event # fs) = Inr s" for fs s
    using nothing_follows_terminal [OF that] by blast
  moreover have "derive_state sample (before_end @ [terminal_event]) = Inr full_state"
    using full_state(1) by (simp add: full_split)
  ultimately show ?thesis by blast
qed

section \<open>What never goes back\<close>

lemma lifecycle_keeps:
  assumes "reduce_lifecycle E s m lr e = Inr u"
  shows "x_id u = x_id s \<and> x_created u = x_created s \<and> risk_order (x_risk s) \<le> risk_order (x_risk u)"
  using assms
  by (cases e)
    (auto simp: lifecycle_defs guard_simps enter_def Let_def split: option.splits if_splits sum.splits)

lemma reduce_keeps:
  assumes "reduce E s m lr p = Inr u"
  shows "x_id u = x_id s \<and> x_created u = x_created s \<and> risk_order (x_risk s) \<le> risk_order (x_risk u)"
proof (cases p)
  case (Lifecycle e)
  then show ?thesis using assms lifecycle_keeps by simp
qed (use reduce_status [OF assms] in auto)

definition keeps :: "derivation \<Rightarrow> derivation \<Rightarrow> bool" where
  "keeps v w \<longleftrightarrow>
     x_id (v_state w) = x_id (v_state v) \<and> x_created (v_state w) = x_created (v_state v)
     \<and> risk_order (x_risk (v_state v)) \<le> risk_order (x_risk (v_state w))"

interpretation keeping: monotone_step "derive_step E events" keeps for E events
proof (unfold_locales, goal_cases)
  case (3 v e w)
  then show ?case using derive_stepD(2) [OF 3] by (auto simp: keeps_def dest!: reduce_keeps)
qed (auto simp: keeps_def)

lemma move_policy: "move t t' \<Longrightarrow> s_policy t = Some x \<Longrightarrow> s_policy t' = Some x"
  by (induction rule: move.induct) (auto simp: release_admission_def batch_simps)

lemma moves_policy: "move\<^sup>*\<^sup>* t t' \<Longrightarrow> s_policy t = Some x \<Longrightarrow> s_policy t' = Some x"
  by (induction rule: rtranclp_induct) (auto intro: move_policy)

text \<open>C15: what a mission is does not change: appending events keeps its identity, its creation and
  its frozen admission policy, and its risk never falls.\<close>

theorem mission_only_escalates:
  assumes "derive_state E es = Inr s" and "derive_state E (es @ fs) = Inr s'" and "sequenced es"
  shows "x_id s' = x_id s \<and> x_created s' = x_created s \<and> risk_order (x_risk s) \<le> risk_order (x_risk s')
    \<and> (s_policy (x_admissions s) = None \<or> s_policy (x_admissions s') = s_policy (x_admissions s))"
proof -
  obtain v v' where "s = v_state v" "s' = v_state v'" "keeps v v'"
    using derived_between [OF assms] keeping.fold_rel by metis
  moreover have "s_policy (x_admissions s) = None \<or> s_policy (x_admissions s') = s_policy (x_admissions s)"
    using moves_policy [OF derived_moves_between [OF assms]] by (cases "s_policy (x_admissions s)") auto
  ultimately show ?thesis by (simp add: keeps_def)
qed

theorem mission_only_escalates_witness:
  "x_id full_state = x_id busy_state \<and> x_created full_state = x_created busy_state
    \<and> s_policy (x_admissions full_state) = Some (busy_policy, genesis_sha256)"
  using mission_only_escalates [OF busy_state(1) full_state(1) [unfolded ledgers_split(1)] sequenced_busy]
    busy_policy(1) by simp

section \<open>Approvals\<close>

definition approval_bound :: "derivation \<Rightarrow> bool" where
  "approval_bound v \<longleftrightarrow>
     (\<forall>ap ev. x_approval (v_state v) = Some (ap, ev) \<longrightarrow>
        ap_workflow_digest ap = x_workflow_digest (v_state v) \<and> ap_scope ap = x_target_repo (v_state v)
        \<and> risk_order (ap_risk ap) \<le> risk_order (x_risk (v_state v)))"

lemma lifecycle_approval:
  assumes "reduce_lifecycle E s m lr e = Inr u" and "x_approval u = Some (ap, ev)"
  shows "x_approval s = Some (ap, ev)
    \<or> (ap_workflow_digest ap = x_workflow_digest u \<and> ap_scope ap = x_target_repo u \<and> ap_risk ap = x_risk u)"
  using assms
  by (cases e)
    (auto simp: lifecycle_defs renewal_bound_def guard_simps enter_def Let_def
      split: option.splits if_splits sum.splits)

lemma reduce_approval:
  assumes "reduce E s m lr p = Inr u" and "x_approval u = Some (ap, ev)"
  shows "x_approval s = Some (ap, ev)
    \<or> (ap_workflow_digest ap = x_workflow_digest u \<and> ap_scope ap = x_target_repo u \<and> ap_risk ap = x_risk u)"
proof (cases p)
  case (Lifecycle e)
  then show ?thesis using assms lifecycle_approval [of E s m lr e u ap ev] by simp
next
  case (Admission e)
  then show ?thesis using reduce_status [OF assms(1)] assms(2) by simp
next
  case (Run e)
  then show ?thesis using reduce_status [OF assms(1)] assms(2) by simp
next
  case (Decision e)
  then show ?thesis using reduce_status [OF assms(1)] assms(2) by simp
next
  case (Herdr e)
  then show ?thesis using reduce_status [OF assms(1)] assms(2) by simp
next
  case Inert
  then show ?thesis using reduce_status [OF assms(1)] assms(2) by simp
qed

interpretation approving: preserved "derive_step E events" approval_bound for E events
proof
  fix v e w
  assume inv: "approval_bound v" and step: "derive_step E events v e = Inr w"
  obtain u where u: "reduce E (v_state v) (meta_of e) (last_request events (e_sequence e))
      (decode_payload (e_kind e) (e_payload e)) = Inr u" and w: "v_state w = counted (meta_of e) u"
    using derive_stepD(2) [OF step] by auto
  show "approval_bound w"
    unfolding approval_bound_def w counted_fields
    using reduce_approval [OF u] reduce_keeps [OF u] inv unfolding approval_bound_def
    by (metis order.trans order_refl)
qed

definition assured_ledger :: "event list" where
  "assured_ledger =
     [sample_event 1 ''mission_created'' ''CONTROL''
        [(''feature'', JStr ''feature''), (''objective_sha256'', digest_json), (''target_repo'', JStr ''/repo''),
         (''base_sha'', digest_json), (''workflow_digest'', digest_json), (''initial_risk'', JStr ''high'')],
      compiled_event,
      sample_event 3 ''assurance_requested'' ''CONTROL''
        [(''risk'', JStr ''high''), (''categories'', JArr []), (''scope'', JStr ''/repo''),
         (''workflow_digest'', digest_json)],
      sample_event 4 ''assurance_approved'' ''HUMAN''
        [(''approval_id'', JStr (sample_uuid ''a'')), (''request_event_sha256'', digest_json),
         (''workflow_digest'', digest_json), (''scope'', JStr ''/repo''), (''risk'', JStr ''high''),
         (''expires_at'', JStr ''1000''), (''approved_by_sha256'', digest_json), (''decision'', JStr ''approved''),
         (''expires_in_seconds'', JInt 60)]]"

lemma assured_ledger_derives: "satisfies (\<lambda>s. x_approval s \<noteq> None) (derive_state sample assured_ledger)"
  by code_simp

text \<open>C16: the approval a mission holds was given for its workflow and its repository, at a risk that
  is at most the present one.\<close>

theorem approval_stays_bound:
  assumes "derive_state E events = Inr s" and "x_approval s = Some (ap, ev)"
  shows "ap_workflow_digest ap = cr_workflow_digest (x_created s) \<and> ap_scope ap = cr_target_repo (x_created s)
    \<and> risk_order (ap_risk ap) \<le> risk_order (x_risk s)"
proof -
  obtain v e es where "fold_result (derive_step E events) (start_derivation e) events = Inr v" "s = v_state v"
    using assms(1) by (rule derived)
  moreover have "approval_bound (start_derivation e)"
    by (simp add: approval_bound_def start_derivation_def initial_state_def)
  ultimately have "approval_bound v" using approving.fold_inv by metis
  then show ?thesis using assms(2) \<open>s = v_state v\<close> by (simp add: approval_bound_def)
qed

theorem approval_stays_bound_witness:
  "\<exists>s ap ev. derive_state sample assured_ledger = Inr s \<and> x_approval s = Some (ap, ev)
    \<and> ap_scope ap = cr_target_repo (x_created s)"
proof -
  obtain s where s: "derive_state sample assured_ledger = Inr s" "x_approval s \<noteq> None"
    using satisfiesD [OF assured_ledger_derives] by blast
  then obtain ap ev where "x_approval s = Some (ap, ev)" by auto
  then show ?thesis using approval_stays_bound [OF s(1)] s(1) by blast
qed

section \<open>Authority\<close>

definition admits_work :: "admission_event \<Rightarrow> bool" where
  "admits_work e \<longleftrightarrow>
     (case e of Delegations_reserved p \<Rightarrow> True | Delegation_committed p \<Rightarrow> True | Launch_authorized p \<Rightarrow> True
      | _ \<Rightarrow> False)"

definition live_approval :: "prims \<Rightarrow> mission \<Rightarrow> meta \<Rightarrow> bool" where
  "live_approval E s m \<longleftrightarrow>
     (case x_approval s of
        None \<Rightarrow> False
      | Some (ap, ev) \<Rightarrow>
          ap_workflow_digest ap = x_workflow_digest s \<and> ap_scope ap = x_target_repo s \<and> ap_risk ap = x_risk s
          \<and> instant E (m_time m) < instant E (ap_expires_at ap))"

lemma live_approvalI: "require_live_approval E s m = Inr ev \<Longrightarrow> live_approval E s m"
  by (auto simp: require_live_approval_def live_approval_def split: option.splits if_splits)

text \<open>C17: work is admitted only under authority: a batch is reserved, committed or authorized only
  by the actor of the lane, before the deadline of the policy, and in the assured lane only
  under an approval that is still alive and still matches the mission.\<close>

theorem work_needs_authority:
  assumes "reduce_admission E s m e = Inr t'" and "admits_work e"
  shows "(\<exists>po ev. s_policy (x_admissions s) = Some (po, ev) \<and> instant E (m_time m) < instant E (po_deadline_at po))
    \<and> admission_lane (x_status s) = Some (m_actor m)
    \<and> (m_actor m = ''ASSURED'' \<longrightarrow> live_approval E s m)"
proof (cases e)
  case (Delegations_reserved p)
  then show ?thesis
    using assms by (auto simp: reserve_admissions_def require_lane_def require_deadline_def live_approvalI
        split: option.splits sum.splits if_splits)
next
  case (Delegation_committed p)
  then show ?thesis
    using assms by (auto simp: reduce_committed_def require_lane_def require_deadline_def live_approvalI
        split: option.splits sum.splits if_splits)
next
  case (Launch_authorized p)
  moreover have "admission_lane st = launch_lane st" if "launch_lane st \<noteq> None" for st
    using that by (cases st) auto
  ultimately show ?thesis
    using assms by (auto simp: reduce_authorized_def require_launch_lane_def require_deadline_def live_approvalI
        split: option.splits sum.splits if_splits)
qed (use assms in \<open>auto simp: admits_work_def\<close>)

definition open_state :: mission where
  "open_state = projr (derive_state sample open_ledger)"

lemma open_state: "derive_state sample open_ledger = Inr open_state" "sequenced open_ledger"
proof -
  show seq: "sequenced open_ledger" using sequenced_busy ledgers_split(2) sequenced_append by metis
  then obtain s where "derive_state sample open_ledger = Inr s"
    using derive_state_prefix [OF _ seq] busy_state(1) ledgers_split(2)
    by (metis list.distinct(1) open_ledger_def)
  then show "derive_state sample open_ledger = Inr open_state" by (simp add: open_state_def)
qed

theorem work_needs_authority_witness:
  "\<exists>po ev. s_policy (x_admissions open_state) = Some (po, ev)
    \<and> instant sample (e_time committed_event) < instant sample (po_deadline_at po)"
proof -
  have split: "busy_ledger = (open_ledger @ [committed_event]) @ [authorized_event, started_event]"
    using ledgers_split(2) by simp
  have seq: "sequenced (open_ledger @ [committed_event])" using sequenced_busy split sequenced_append by metis
  obtain s' where "derive_state sample (open_ledger @ [committed_event]) = Inr s'"
    using derive_state_prefix [OF _ seq] busy_state(1) split by (metis append_is_Nil_conv list.distinct(1))
  then obtain u where u: "reduce sample open_state (meta_of committed_event)
      (last_request (open_ledger @ [committed_event]) (e_sequence committed_event))
      (decode_payload (e_kind committed_event) (e_payload committed_event)) = Inr u"
    using derive_snoc [OF _ open_state] by blast
  moreover obtain p where p: "decode_payload (e_kind committed_event) (e_payload committed_event)
      = Admission (Delegation_committed p)"
  proof -
    have "(case decode_payload (e_kind committed_event) (e_payload committed_event) of
        Admission (Delegation_committed p) \<Rightarrow> True | _ \<Rightarrow> False)"
      by code_simp
    then show thesis using that by (auto split: payload.splits admission_event.splits)
  qed
  ultimately obtain t' where "reduce_admission sample open_state (meta_of committed_event) (Delegation_committed p) = Inr t'"
    by (auto split: sum.splits)
  then show ?thesis
    using work_needs_authority [of sample open_state "meta_of committed_event" "Delegation_committed p" t']
    by (auto simp: admits_work_def meta_of_def)
qed

end
