(* ===== verification/Sample_Decision.thy ===== *)
theory Sample_Decision
  imports Sample
begin

text \<open>
  The ledger of a mission with a human decision: a recommendation from a delegation without an
  admission, a challenge from an admitted specialist, the request, its notification that is
  rejected and sent again, and the resolution by the elapsed default.
\<close>

definition other_digest :: string where
  "other_digest = replicate 64 (CHR ''1'')"

definition at_time :: "string \<Rightarrow> event \<Rightarrow> event" where
  "at_time t e = e\<lparr>e_time := t\<rparr>"

definition numbered :: "int \<Rightarrow> event \<Rightarrow> event" where
  "numbered n e = e\<lparr>e_sequence := n, e_key := ''key-'' @ int_text n\<rparr>"

definition registered_json :: "string \<Rightarrow> string \<Rightarrow> string \<Rightarrow> string \<Rightarrow> (string \<times> json) list" where
  "registered_json delegation run recipient capability =
     [(''delegation_id'', JStr delegation), (''mission_id'', JStr (sample_uuid ''mission'')), (''run_id'', JStr run),
      (''parent_run_id'', JNull), (''delegated_by'', JStr ''lead''), (''recipient_instance'', JStr recipient),
      (''capability'', JStr capability), (''objective_sha256'', digest_json), (''input_artifact_ids'', JArr []),
      (''expected_output_contract'', JObj []), (''deadline'', JStr ''999''), (''provider'', JStr ''provider''),
      (''model'', JStr recipient), (''variant'', JNull), (''depth'', JInt 1), (''token_id'', JNull)]"

definition result_json :: "string \<Rightarrow> string \<Rightarrow> string \<Rightarrow> json \<Rightarrow> (string \<times> json) list" where
  "result_json delegation run model artifact =
     [(''run_id'', JStr run), (''delegation_id'', JStr delegation), (''artifact_id'', artifact),
      (''provider'', JStr ''provider''), (''model'', JStr model), (''variant'', JNull)]"

definition lead_event :: event where
  "lead_event = sample_event 5 ''lead_dispatched'' ''CONTROL''
     [(''run_id'', JStr (sample_uuid ''r0'')), (''prompt_sha256'', digest_json)]"

definition reserve_one_event :: event where
  "reserve_one_event = sample_event 9 ''delegations_reserved'' ''CONTROL''
     [(''batch_id'', JStr (sample_uuid ''batch'')), (''batch_sha256'', digest_json),
      (''request_sha256'', digest_json),
      (''admissions'', JArr [specialist_json (CHR ''1'') False JNull (JStr (sample_uuid ''r0'')) 0 1 0])]"

definition commit_one_event :: event where
  "commit_one_event = sample_event 10 ''delegation_committed'' ''CONTROL''
     [(''admission_id'', JStr (sample_uuid ''a1'')), (''commit_id'', JStr (sample_uuid ''c1'')),
      (''reservation_event_sha256'', digest_json), (''request_digest'', digest_json),
      (''recipient_instance'', JStr ''w1''), (''writer'', JBool False), (''run_id'', JStr (sample_uuid ''r1'')),
      (''effect_sha256'', digest_json)]"

definition authorize_one_event :: event where
  "authorize_one_event = sample_event 11 ''delegation_launch_authorized'' ''CONTROL''
     [(''admission_id'', JStr (sample_uuid ''a1'')), (''commit_event_sha256'', digest_json),
      (''request_digest'', digest_json), (''effect_sha256'', digest_json), (''approval_event_sha256'', JNull),
      (''recipient_instance'', JStr ''w1''), (''writer'', JBool False), (''run_id'', JStr (sample_uuid ''r1''))]"

definition start_one_event :: event where
  "start_one_event = sample_event 12 ''delegation_started'' ''CONTROL''
     [(''admission_id'', JStr (sample_uuid ''a1'')), (''authorization_event_sha256'', digest_json),
      (''request_digest'', digest_json), (''effect_sha256'', digest_json), (''recipient_instance'', JStr ''w1''),
      (''writer'', JBool False), (''run_id'', JStr (sample_uuid ''r1''))]"

definition option_json :: "string \<Rightarrow> json" where
  "option_json k = JObj [(''option_id'', JStr k), (''label'', JStr k), (''tradeoffs'', JStr k)]"

definition decision_event :: event where
  "decision_event = sample_event 15 ''human_decision_requested'' ''lead''
     [(''decision_id'', JStr (sample_uuid ''d5'')), (''title'', JStr ''title''), (''question'', JStr ''question''),
      (''affected_instances'', JArr [JStr ''w7'']), (''impact'', JStr ''blocking''), (''risk'', JStr ''low''),
      (''reversible'', JBool True), (''options'', JArr [option_json ''keep'', option_json ''drop'']),
      (''recommendation'', JObj
         [(''artifact_id'', digest_json), (''delegation_id'', JStr (sample_uuid ''d9'')), (''instance'', JStr ''w9''),
          (''option_id'', JStr ''keep''), (''rationale'', JStr ''rationale'')]),
      (''challenge'', JObj
         [(''artifact_id'', JStr other_digest), (''delegation_id'', JStr (sample_uuid ''d1'')),
          (''instance'', JStr ''w1''), (''summary'', JStr ''summary'')]),
      (''dissent'', JStr ''none''), (''default_option_id'', JStr ''keep'')]"

definition attempt_event :: "int \<Rightarrow> int \<Rightarrow> event" where
  "attempt_event n number = sample_event n ''decision_notification_attempted'' ''CONTROL''
     [(''decision_id'', JStr (sample_uuid ''d5'')), (''enqueue_event_sha256'', digest_json),
      (''attempt_number'', JInt number), (''target_instance'', JStr ''lead''),
      (''target_surface_uuid'', JNull), (''target_workspace_uuid'', JNull)]"

definition rejected_event :: event where
  "rejected_event = sample_event 18 ''decision_notification_outcome'' ''CONTROL''
     [(''decision_id'', JStr (sample_uuid ''d5'')), (''enqueue_event_sha256'', digest_json),
      (''attempt_event_sha256'', digest_json), (''outcome'', JStr ''rejected''),
      (''reason'', JStr ''target_unavailable''), (''returncode'', JNull)]"

definition retry_event :: event where
  "retry_event = at_time ''4000018'' (attempt_event 19 2)"

definition resolved_event :: event where
  "resolved_event = at_time ''8000000000'' (sample_event 20 ''human_decision_resolved'' ''CONTROL''
     [(''decision_id'', JStr (sample_uuid ''d5'')), (''request_event_sha256'', digest_json),
      (''option_id'', JStr ''keep''), (''reason'', JStr ''elapsed''), (''resolution_kind'', JStr ''automatic'')])"

definition before_request :: "event list" where
  "before_request =
     [created_event, compiled_event, numbered 3 boot_event, numbered 4 running_event, lead_event,
      sample_event 6 ''delegation_registered'' ''lead''
        (registered_json (sample_uuid ''d9'') (sample_uuid ''r9'') ''w9'' ''build''),
      sample_event 7 ''result_recorded'' ''lead'' (result_json (sample_uuid ''d9'') (sample_uuid ''r9'') ''w9'' digest_json),
      numbered 8 policy_event, reserve_one_event, commit_one_event, authorize_one_event, start_one_event,
      sample_event 13 ''delegation_registered'' ''lead''
        (registered_json (sample_uuid ''d1'') (sample_uuid ''r1'') ''w1'' ''challenge''),
      sample_event 14 ''result_recorded'' ''lead''
        (result_json (sample_uuid ''d1'') (sample_uuid ''r1'') ''w1'' (JStr other_digest))]"

definition rejected_ledger :: "event list" where
  "rejected_ledger =
     before_request @
     [decision_event,
      sample_event 16 ''decision_notification_enqueued'' ''CONTROL'' [(''decision_id'', JStr (sample_uuid ''d5''))],
      attempt_event 17 1, rejected_event]"

definition decision_ledger :: "event list" where
  "decision_ledger = rejected_ledger @ [retry_event, resolved_event]"

definition resolved_facts :: "mission \<Rightarrow> bool" where
  "resolved_facts s =
     (case dget (d_all (x_decisions s)) (sample_uuid ''d5'') of
        None \<Rightarrow> False
      | Some de \<Rightarrow> ob_attempts (de_delivery de) = 2
          \<and> (case de_resolution de of None \<Rightarrow> False | Some r \<Rightarrow> rs_kind (re_payload r) = Automatic))"

definition rejected_facts :: "mission \<Rightarrow> bool" where
  "rejected_facts s =
     (\<not> id_collision (x_admissions s) \<and> sample_uuid ''d5'' \<in> set (d_pending (x_decisions s))
      \<and> (case dget (s_admissions (x_admissions s)) (sample_uuid ''a1'') of
           None \<Rightarrow> False | Some a \<Rightarrow> a_active a \<and> a_run_kind a = Specialist)
      \<and> (case dget (d_all (x_decisions s)) (sample_uuid ''d5'') of
        None \<Rightarrow> False
      | Some de \<Rightarrow> dr_impact (de_request de) = Blocking \<and> ob_status (de_delivery de) = Ds_rejected \<and> ob_attempts (de_delivery de) = 1
          \<and> (case ob_last_outcome (de_delivery de) of None \<Rightarrow> False | Some (oc, at, ev) \<Rightarrow> at = ''18'')))"

definition rejected_state :: mission where
  "rejected_state = projr (derive_state sample rejected_ledger)"

definition resolved_state :: mission where
  "resolved_state = projr (derive_state sample decision_ledger)"

lemma sequenced_rejected: "sequenced decision_ledger" "sequenced rejected_ledger"
  by code_simp code_simp

lemma decisions_derive: "staged sample rejected_ledger [retry_event, resolved_event] rejected_facts resolved_facts"
  by code_simp

lemma rejected_state: "derive_state sample rejected_ledger = Inr rejected_state" "rejected_facts rejected_state"
  and resolved_state: "derive_state sample decision_ledger = Inr resolved_state" "resolved_facts resolved_state"
proof -
  from decisions_derive sequenced_rejected(2) obtain s s'
    where "derive_state sample rejected_ledger = Inr s" "rejected_facts s"
      and "derive_state sample decision_ledger = Inr s'" "resolved_facts s'"
    unfolding decision_ledger_def by (rule staged_states)
  then show "derive_state sample rejected_ledger = Inr rejected_state" "rejected_facts rejected_state"
    "derive_state sample decision_ledger = Inr resolved_state" "resolved_facts resolved_state"
    by (simp_all add: rejected_state_def resolved_state_def)
qed

text \<open>Timestamps of the sample library are read back as they were written.\<close>

lemma digit_chars: "list_all (\<lambda>n. is_digit (decimal_digit n) \<and> of_char (decimal_digit n) = (48 + int n)) [0..<10]"
  by code_simp

lemma digit_char: "n < 10 \<Longrightarrow> is_digit (decimal_digit n) \<and> of_char (decimal_digit n) = (48 + int n)"
  using digit_chars by (simp add: list_all_iff)

lemma read_decimal_append:
  "read_decimal (xs @ ys) n = (case read_decimal xs n of None \<Rightarrow> None | Some m \<Rightarrow> read_decimal ys m)"
  by (induction xs arbitrary: n) auto

lemma read_decimal: "0 \<le> i \<Longrightarrow> read_decimal (decimal i) 0 = Some i"
proof (induction i rule: decimal.induct)
  case (1 i)
  show ?case
  proof (cases "i < 10")
    case True
    then show ?thesis
      using 1 digit_char [of "nat i"] by (subst decimal.simps) simp
  next
    case False
    then show ?thesis
      using 1 digit_char [of "nat (i mod 10)"] by (subst decimal.simps) (simp add: read_decimal_append)
  qed
qed

end
