(* ===== verification/Decision_Theorems.thy ===== *)
theory Decision_Theorems
  imports Lifecycle_Theorems Sample_Decision
begin

text \<open>
  What the ledger promises of human decisions: each decision is pending exactly until it is
  resolved, resolutions have the authority the request allows, and the notification outbox is a
  state machine whose retries wait for their backoff.
\<close>

section \<open>The retry schedule\<close>

lemma backoff_base_values: "1 \<le> n \<Longrightarrow> backoff_base n \<in> {5, 30, 120, 600}"
proof -
  assume "1 \<le> n"
  then consider "n = 1" | "n = 2" | "n = 3" | "4 \<le> n" by linarith
  then show ?thesis by cases (auto simp: backoff_base_def backoff_seconds_def)
qed

lemma backoff_base_mono: "1 \<le> n \<Longrightarrow> backoff_base n \<le> backoff_base (n + 1)"
proof -
  assume "1 \<le> n"
  then consider "n = 1" | "n = 2" | "n = 3" | "4 \<le> n" by linarith
  then show ?thesis by cases (auto simp: backoff_base_def backoff_seconds_def)
qed

text \<open>C18: the delay before a retry is the backoff of the attempt, moved by at most a fifth; it is
  refused exactly for an identity that is no UUID or an attempt below one.\<close>

theorem retry_delay_bounded:
  "case retry_seconds E d n of
     Inl x \<Rightarrow> x = MissionStateError \<and> \<not> (is_uuid d \<and> n \<ge> 1)
   | Inr k \<Rightarrow> is_uuid d \<and> n \<ge> 1 \<and> \<bar>k - backoff_base n\<bar> \<le> backoff_base n div 5 \<and> 4 \<le> k \<and> k \<le> 720"
proof (cases "is_uuid d \<and> 1 \<le> n")
  case True
  let ?b = "backoff_base n"
  let ?w = "digest_word (hexdigest E (d @ '':'' @ int_text n))"
  have b: "?b \<in> {5, 30, 120, 600}" using backoff_base_values True by blast
  have "0 \<le> ?w mod (2 * max 1 (?b div 5) + 1)" by (rule pos_mod_sign) simp
  moreover have "?w mod (2 * max 1 (?b div 5) + 1) < 2 * max 1 (?b div 5) + 1" by (rule pos_mod_bound) simp
  ultimately show ?thesis
    using True b by (auto simp: retry_seconds_def Let_def abs_le_iff)
qed (auto simp: retry_seconds_def)

text \<open>The least delays: the backoffs of 5, 30, 120 and 600 seconds, less a fifth.\<close>

lemma retry_seconds_least:
  "retry_seconds E d n = Inr k \<Longrightarrow> [4, 24, 96, 480] ! nat (min (n - 1) 3) \<le> k"
proof -
  assume k: "retry_seconds E d n = Inr k"
  let ?b = "backoff_base n" and ?w = "digest_word (hexdigest E (d @ '':'' @ int_text n))"
  have "1 \<le> n" using k by (auto simp: retry_seconds_def split: if_splits)
  then consider "n = 1" | "n = 2" | "n = 3" | "4 \<le> n" by linarith
  then have "?b - max 1 (?b div 5) = [4, 24, 96, 480] ! nat (min (n - 1) 3)"
    by cases (auto simp: backoff_base_def backoff_seconds_def)
  moreover have "0 \<le> ?w mod (2 * max 1 (?b div 5) + 1)" by (rule pos_mod_sign) simp
  moreover have "k = ?b + (?w mod (2 * max 1 (?b div 5) + 1) - max 1 (?b div 5))"
    using k by (auto simp: retry_seconds_def Let_def split: if_splits)
  ultimately show "[4, 24, 96, 480] ! nat (min (n - 1) 3) \<le> k" by linarith
qed

lemma least_delay_pos: "1 \<le> n \<Longrightarrow> 4 \<le> ([4, 24, 96, 480] :: int list) ! nat (min (n - 1) 3)"
proof -
  assume "1 \<le> n"
  then consider "n = 1" | "n = 2" | "n = 3" | "4 \<le> n" by linarith
  then show ?thesis by cases auto
qed

lemma retry_seconds_most: "retry_seconds E d n = Inr k \<Longrightarrow> k \<le> 720"
proof -
  assume k: "retry_seconds E d n = Inr k"
  let ?b = "backoff_base n" and ?w = "digest_word (hexdigest E (d @ '':'' @ int_text n))"
  have "1 \<le> n" using k by (auto simp: retry_seconds_def split: if_splits)
  then have "?b \<in> {5, 30, 120, 600}" by (rule backoff_base_values)
  moreover have "?w mod (2 * max 1 (?b div 5) + 1) < 2 * max 1 (?b div 5) + 1" by (rule pos_mod_bound) simp
  ultimately show "k \<le> 720" using k by (auto simp: retry_seconds_def Let_def split: if_splits)
qed

section \<open>Decisions and their outbox\<close>

definition scheduled :: "prims \<Rightarrow> string \<Rightarrow> outbox \<Rightarrow> bool" where
  "scheduled E k ob \<longleftrightarrow>
     (case ob_status ob of
        Ds_legacy \<Rightarrow> \<not> ob_managed ob \<and> ob_next ob = None \<and> ob_active ob = None \<and> ob_attempts ob = 0
      | Ds_pending \<Rightarrow> ob_managed ob \<and> ob_active ob = None \<and> ob_attempts ob = 0 \<and> ob_last_outcome ob = None
      | Ds_in_flight \<Rightarrow> ob_managed ob \<and> ob_next ob = None \<and> ob_active ob \<noteq> None \<and> 1 \<le> ob_attempts ob
      | Ds_rejected \<Rightarrow> ob_managed ob \<and> ob_active ob = None \<and> 1 \<le> ob_attempts ob
          \<and> (case ob_last_outcome ob of
               None \<Rightarrow> False
             | Some (p, at, ev) \<Rightarrow> (case retry_at E at k (ob_attempts ob) of
                 Inl x \<Rightarrow> False | Inr due \<Rightarrow> ob_next ob = Some due))
      | _ \<Rightarrow> ob_managed ob \<and> ob_next ob = None \<and> ob_active ob = None \<and> 0 \<le> ob_attempts ob)"

definition authorized_resolution :: "prims \<Rightarrow> decision \<Rightarrow> resolution \<Rightarrow> bool" where
  "authorized_resolution E de r \<longleftrightarrow>
     rs_request_event (re_payload r) = de_request_event de
     \<and> rs_option (re_payload r) \<in> set (dr_options (de_request de))
     \<and> (case rs_kind (re_payload r) of
          By_human \<Rightarrow> re_actor r = ''HUMAN''
        | Automatic \<Rightarrow> re_actor r = ''CONTROL'' \<and> automatic_allowed (de_request de) (rs_option (re_payload r))
            \<and> instant E (de_deadline de) \<le> instant E (re_at r))"

definition decision_ok :: "prims \<Rightarrow> string list \<Rightarrow> string \<Rightarrow> decision \<Rightarrow> bool" where
  "decision_ok E pending k de \<longleftrightarrow>
     dr_id (de_request de) = k \<and> de_deadline de = decision_deadline E (de_requested_at de)
     \<and> (de_resolution de = None \<longleftrightarrow> k \<in> set pending)
     \<and> scheduled E k (de_delivery de)
     \<and> (ob_status (de_delivery de) \<in> {Ds_pending, Ds_rejected} \<longrightarrow> de_resolution de = None)
     \<and> (case de_resolution de of None \<Rightarrow> True | Some r \<Rightarrow> authorized_resolution E de r)"

definition decisions_ok :: "prims \<Rightarrow> decision_state \<Rightarrow> bool" where
  "decisions_ok E d \<longleftrightarrow>
     distinct (d_pending d) \<and> (\<forall>k \<in> set (d_pending d). dhas (d_all d) k)
     \<and> (\<forall>k de. dget (d_all d) k = Some de \<longrightarrow> decision_ok E (d_pending d) k de)"

lemma decisions_okD: "decisions_ok E d \<Longrightarrow> dget (d_all d) k = Some de \<Longrightarrow> decision_ok E (d_pending d) k de"
  by (simp add: decisions_ok_def)

lemma scheduled_legacy [simp]: "scheduled E k legacy_outbox"
  by (simp add: scheduled_def legacy_outbox_def)

lemma authorized_delivery [simp]:
  "authorized_resolution E (de\<lparr>de_delivery := ob\<rparr>) r = authorized_resolution E de r"
  unfolding authorized_resolution_def by (cases "rs_kind (re_payload r)") simp_all

text \<open>A new outbox for a decision that stays as it is otherwise.\<close>

lemma set_outbox_ok:
  assumes "decisions_ok E d" and "dget (d_all d) k = Some de" and "scheduled E k ob"
    and "ob_status ob \<in> {Ds_pending, Ds_rejected} \<Longrightarrow> de_resolution de = None"
  shows "decisions_ok E (set_outbox k de ob d)"
  using assms
  by (auto simp: decisions_ok_def set_outbox_def dict.get_put decision_ok_def split: option.splits)

lemma add_decision_ok:
  assumes "decisions_ok E d" and "\<not> dhas (d_all d) (dr_id q)"
  shows "decisions_ok E (add_decision E m q d)"
proof -
  have "dr_id q \<notin> set (d_pending d)" using assms by (auto simp: decisions_ok_def)
  then show ?thesis
    using assms by (auto simp: decisions_ok_def add_decision_def dict.get_put decision_ok_def dhas_def
        legacy_outbox_def scheduled_def)
qed

lemma pendingD: "pending_decision d k = Some de \<Longrightarrow> k \<in> set (d_pending d) \<and> dget (d_all d) k = Some de"
  by (auto simp: pending_decision_def split: if_splits)

lemma pending_open: "decisions_ok E d \<Longrightarrow> pending_decision d k = Some de \<Longrightarrow> de_resolution de = None"
  by (auto dest!: pendingD decisions_okD simp: decision_ok_def)

lemma enqueued_ok:
  assumes "decisions_ok E (x_decisions s)" and "reduce_enqueued s m k = Inr d"
  shows "decisions_ok E d"
  using assms pending_open [OF assms(1)]
  by (auto simp: reduce_enqueued_def Let_def scheduled_def dest: pendingD intro!: set_outbox_ok
      split: option.splits if_splits)

lemma attempted_ok:
  assumes "decisions_ok E (x_decisions s)" and "reduce_attempted E s m p = Inr d"
  shows "decisions_ok E d"
proof -
  obtain de due where de: "pending_decision (x_decisions s) (at_decision p) = Some de"
    and status: "ob_status (de_delivery de) = Ds_pending \<or> ob_status (de_delivery de) = Ds_rejected"
    and d: "d = set_outbox (at_decision p) de ((de_delivery de)\<lparr>ob_status := Ds_in_flight,
      ob_attempts := ob_attempts (de_delivery de) + 1, ob_next := None, ob_active := Some (m_sha m),
      ob_last_attempt := Some (p, m_time m, m_sha m)\<rparr>) (x_decisions s)"
    using assms(2) by (auto simp: reduce_attempted_def Let_def split: option.splits if_splits)
  have "decision_ok E (d_pending (x_decisions s)) (at_decision p) de"
    using decisions_okD [OF assms(1)] pendingD [OF de] by blast
  then show ?thesis
    unfolding d using assms(1) pendingD [OF de] status
    by (intro set_outbox_ok) (auto simp: decision_ok_def scheduled_def)
qed

lemma lifecycle_decisions: "reduce_lifecycle E s m lr e = Inr u \<Longrightarrow> x_decisions u = x_decisions s"
  by (cases e)
    (auto simp: lifecycle_defs guard_simps enter_def Let_def split: option.splits if_splits sum.splits)

lemma reduce_same_decisions:
  "reduce E s m lr p = Inr u \<Longrightarrow> (\<And>de. p \<noteq> Decision de) \<Longrightarrow> x_decisions u = x_decisions s"
  by (cases p) (auto simp: lifecycle_decisions split: sum.splits)

lemma settled_ok:
  assumes "settle_outbox E m k still p ob = Inr ob'" and "ob_managed ob" and "1 \<le> ob_attempts ob"
  shows "scheduled E k ob'" and "ob_status ob' \<noteq> Ds_pending" and "ob_status ob' = Ds_rejected \<Longrightarrow> still"
  using assms
  by (auto simp: settle_outbox_def Let_def scheduled_def split: notify_outcome.splits if_splits sum.splits)

lemma outcome_ok:
  assumes "decisions_ok E (x_decisions s)" and "reduce_outcome E s m p = Inr d"
  shows "decisions_ok E d"
proof -
  let ?k = "oc_decision p"
  obtain de ob' where de: "dget (d_all (x_decisions s)) ?k = Some de"
    and managed: "ob_managed (de_delivery de)" and active: "Some (oc_attempt p) = ob_active (de_delivery de)"
    and ob': "settle_outbox E m ?k (de_resolution de = None) p (de_delivery de) = Inr ob'"
    and d: "d = set_outbox ?k de ob' (x_decisions s)"
    using assms(2) by (auto simp: reduce_outcome_def Let_def split: option.splits if_splits sum.splits)
  have "1 \<le> ob_attempts (de_delivery de)"
    using decisions_okD [OF assms(1) de] active
    by (cases "ob_status (de_delivery de)") (auto simp: decision_ok_def scheduled_def split: option.splits)
  note ok = settled_ok [OF ob' managed this]
  show ?thesis
    unfolding d by (rule set_outbox_ok [OF assms(1) de]) (use ok in auto)
qed

lemma close_outbox_ok:
  "scheduled E k ob \<Longrightarrow> scheduled E k (close_outbox ob)"
  "ob_status (close_outbox ob) \<noteq> Ds_pending" "ob_status (close_outbox ob) \<noteq> Ds_rejected"
  by (auto simp: close_outbox_def scheduled_def split: option.splits sum.splits)

lemma resolved_ok:
  assumes "decisions_ok E (x_decisions s)" and "reduce_resolved E s m p = Inr d"
  shows "decisions_ok E d"
proof -
  let ?k = "rs_decision p"
  obtain de where de: "pending_decision (x_decisions s) ?k = Some de"
    and d: "d = resolve_decision m p de (x_decisions s)"
    and auth: "authorized_resolution E de \<lparr>re_payload = p, re_event = m_sha m, re_at = m_time m, re_actor = m_actor m\<rparr>"
    using assms(2)
    by (auto simp: reduce_resolved_def Let_def authorized_resolution_def
        split: option.splits if_splits resolution_kind.splits)
  note pend = pendingD [OF de]
  have okd: "decision_ok E (d_pending (x_decisions s)) ?k de" using decisions_okD [OF assms(1)] pend by blast
  let ?de = "de\<lparr>de_resolution := Some \<lparr>re_payload = p, re_event = m_sha m, re_at = m_time m, re_actor = m_actor m\<rparr>,
      de_delivery := close_outbox (de_delivery de)\<rparr>"
  have "authorized_resolution E ?de \<lparr>re_payload = p, re_event = m_sha m, re_at = m_time m, re_actor = m_actor m\<rparr>"
    using auth unfolding authorized_resolution_def by (cases "rs_kind p") simp_all
  then have "decision_ok E (d_pending d) ?k ?de"
    using okd close_outbox_ok by (auto simp: decision_ok_def d resolve_decision_def)
  moreover have "decision_ok E (d_pending d) k x" if "dget (d_all (x_decisions s)) k = Some x" "k \<noteq> ?k" for k x
    using decisions_okD [OF assms(1) that(1)] that(2) by (auto simp: decision_ok_def d resolve_decision_def)
  ultimately show ?thesis
    using assms(1) by (auto simp: decisions_ok_def d resolve_decision_def dict.get_put dhas_def)
qed

lemma reduce_decision_ok:
  assumes "decisions_ok E (x_decisions s)" and "reduce_decision E s m e = Inr d"
  shows "decisions_ok E d"
proof (cases e)
  case (Decision_requested q)
  then show ?thesis
    using assms by (auto simp: reduce_decision_requested_def Let_def intro!: add_decision_ok
        split: if_splits sum.splits)
next
  case (Notification_enqueued k)
  then show ?thesis using assms by (simp add: enqueued_ok)
next
  case (Notification_attempted p)
  then show ?thesis using assms by (simp add: attempted_ok)
next
  case (Notification_outcome p)
  then show ?thesis using assms by (simp add: outcome_ok)
next
  case (Decision_resolved p)
  then show ?thesis using assms by (simp add: resolved_ok)
qed

interpretation deciding: preserved "derive_step E events" "\<lambda>v. decisions_ok E (x_decisions (v_state v))" for E events
proof
  fix v e w
  assume inv: "decisions_ok E (x_decisions (v_state v))" and step: "derive_step E events v e = Inr w"
  let ?p = "decode_payload (e_kind e) (e_payload e)"
  obtain u where u: "reduce E (v_state v) (meta_of e) (last_request events (e_sequence e)) ?p = Inr u"
    and w: "v_state w = counted (meta_of e) u"
    using derive_stepD(2) [OF step] by auto
  have "x_decisions u = x_decisions (v_state v)" if "\<And>de. ?p \<noteq> Decision de"
    using reduce_same_decisions [OF u that] .
  then show "decisions_ok E (x_decisions (v_state w))"
    using inv u reduce_decision_ok [OF inv] by (cases ?p) (auto simp: w split: sum.splits)
qed

lemma derived_decisions:
  assumes "derive_state E events = Inr s"
  shows "decisions_ok E (x_decisions s)"
proof -
  obtain v e es where "fold_result (derive_step E events) (start_derivation e) events = Inr v" "s = v_state v"
    using assms by (rule derived)
  moreover have "decisions_ok E (x_decisions (v_state (start_derivation e)))"
    by (simp add: decisions_ok_def start_derivation_def initial_state_def dict.get_empty)
  ultimately show ?thesis using deciding.fold_inv by metis
qed

section \<open>The decision of the sample mission\<close>

lemma resolved_decision:
  obtains de r where "dget (d_all (x_decisions resolved_state)) (sample_uuid ''d5'') = Some de"
    and "de_resolution de = Some r" and "rs_kind (re_payload r) = Automatic"
  using resolved_state(2) by (auto simp: resolved_facts_def split: option.splits)

lemma rejected_decision:
  obtains de oc ev where "dget (d_all (x_decisions rejected_state)) (sample_uuid ''d5'') = Some de"
    and "ob_status (de_delivery de) = Ds_rejected" and "ob_attempts (de_delivery de) = 1"
    and "ob_last_outcome (de_delivery de) = Some (oc, ''18'', ev)" and "dr_impact (de_request de) = Blocking"
  using rejected_state(2) by (auto simp: rejected_facts_def split: option.splits)

lemma retry_accepted:
  obtains p d where "reduce_attempted sample rejected_state (meta_of retry_event) p = Inr d"
    and "at_decision p = sample_uuid ''d5''" and "at_number p = 2"
proof -
  have split: "decision_ledger = (rejected_ledger @ [retry_event]) @ [resolved_event]"
    by (simp add: decision_ledger_def)
  have seq: "sequenced (rejected_ledger @ [retry_event])"
    using sequenced_rejected(1) split sequenced_append by metis
  obtain s' where "derive_state sample (rejected_ledger @ [retry_event]) = Inr s'"
    using derive_state_prefix [OF _ seq] resolved_state(1) split by (metis append_is_Nil_conv list.distinct(1))
  then obtain u where u: "reduce sample rejected_state (meta_of retry_event)
      (last_request (rejected_ledger @ [retry_event]) (e_sequence retry_event))
      (decode_payload (e_kind retry_event) (e_payload retry_event)) = Inr u"
    using derive_snoc [OF _ rejected_state(1) sequenced_rejected(2)] by blast
  have "(case decode_payload (e_kind retry_event) (e_payload retry_event) of
      Decision (Notification_attempted p) \<Rightarrow> at_decision p = sample_uuid ''d5'' \<and> at_number p = 2 | _ \<Rightarrow> False)"
    by code_simp
  then obtain p where p: "decode_payload (e_kind retry_event) (e_payload retry_event) = Decision (Notification_attempted p)"
    "at_decision p = sample_uuid ''d5''" "at_number p = 2"
    by (auto split: payload.splits decision_event.splits)
  then show thesis using u that by (auto split: sum.splits)
qed

section \<open>The decisions of a ledger\<close>

text \<open>C19: a decision is pending exactly until it is resolved, no decision is pending twice, and a
  notification waits for delivery only while its decision is pending.\<close>

theorem pending_until_resolved:
  assumes "derive_state E events = Inr s" and "dget (d_all (x_decisions s)) k = Some de"
  shows "(de_resolution de = None \<longleftrightarrow> k \<in> set (d_pending (x_decisions s)))
    \<and> distinct (d_pending (x_decisions s))
    \<and> (ob_status (de_delivery de) = Ds_pending \<or> ob_status (de_delivery de) = Ds_rejected \<longrightarrow>
         k \<in> set (d_pending (x_decisions s)))"
  using derived_decisions [OF assms(1)] decisions_okD [OF derived_decisions [OF assms(1)] assms(2)]
  by (auto simp: decisions_ok_def decision_ok_def)

theorem pending_until_resolved_witness:
  "sample_uuid ''d5'' \<notin> set (d_pending (x_decisions resolved_state))"
proof -
  obtain de r where de: "dget (d_all (x_decisions resolved_state)) (sample_uuid ''d5'') = Some de"
    and "de_resolution de = Some r" by (rule resolved_decision)
  then show ?thesis using pending_until_resolved [OF resolved_state(1) de] by simp
qed

text \<open>C20: every resolution had the authority its kind needs: a human actor, or the default option of a
  reversible low-risk decision, taken by the controller once two hours, 7200000000 microseconds, have
  passed since the request.\<close>

theorem resolutions_authorized:
  assumes "derive_state E events = Inr s" and "dget (d_all (x_decisions s)) k = Some de"
    and "de_resolution de = Some r"
  shows "rs_option (re_payload r) \<in> set (dr_options (de_request de))
    \<and> (case rs_kind (re_payload r) of
         By_human \<Rightarrow> re_actor r = ''HUMAN''
       | Automatic \<Rightarrow> re_actor r = ''CONTROL''
           \<and> dr_risk (de_request de) = Low \<and> dr_reversible (de_request de)
           \<and> dr_default (de_request de) = Some (rs_option (re_payload r))
           \<and> instant E (format_iso E (instant E (de_requested_at de) + 7200000000)) \<le> instant E (re_at r))"
  using decisions_okD [OF derived_decisions [OF assms(1)] assms(2)] assms(3)
  by (cases "rs_kind (re_payload r)")
    (auto simp: decision_ok_def authorized_resolution_def automatic_allowed_def decision_deadline_def
      decision_timeout_seconds_def seconds_def)

theorem resolutions_authorized_witness:
  "\<exists>(de :: decision) r. de_resolution de = Some r
    \<and> instant sample (format_iso sample (instant sample (de_requested_at de) + 7200000000)) \<le> instant sample (re_at r)"
proof -
  obtain de r where de: "dget (d_all (x_decisions resolved_state)) (sample_uuid ''d5'') = Some de"
    and r: "de_resolution de = Some r" and "rs_kind (re_payload r) = Automatic" by (rule resolved_decision)
  then have "instant sample (format_iso sample (instant sample (de_requested_at de) + 7200000000)) \<le> instant sample (re_at r)"
    using resolutions_authorized [OF resolved_state(1) de r] by simp
  then show ?thesis using r by blast
qed

text \<open>
  What the outbox asks of the clock of the library: it reads back the timestamps it writes, up to
  the end of the year 9999 in microseconds.
\<close>

definition clock_ok :: "prims \<Rightarrow> bool" where
  "clock_ok E \<longleftrightarrow> (\<forall>i. 0 \<le> i \<and> i < 253402300800000000 \<longrightarrow> parse_iso E (format_iso E i) = Some i)"

lemma sample_clock: "clock_ok sample"
proof -
  have "decimal i \<noteq> []" for i by (subst decimal.simps) simp
  then show ?thesis by (simp add: clock_ok_def sample_def int_text_def read_decimal)
qed

text \<open>C21: a rejected notification is not sent again before its backoff: after the first, second, third and
  every later attempt the next one comes at least 4, 24, 96 and 480 seconds after the rejection (the backoffs
  of 5, 30, 120 and 600 seconds, less their jitter of a fifth), with the next number.\<close>

theorem retries_wait:
  assumes "derive_state E events = Inr s" and "reduce_attempted E s m p = Inr d"
    and "dget (d_all (x_decisions s)) (at_decision p) = Some de" and "ob_status (de_delivery de) = Ds_rejected"
    and "ob_last_outcome (de_delivery de) = Some (oc, rejected_at, ev)"
    and "clock_ok E" and "0 \<le> instant E rejected_at" and "instant E rejected_at < 253402300000000000"
  shows "instant E rejected_at + seconds ([4, 24, 96, 480] ! nat (min (ob_attempts (de_delivery de) - 1) 3)) \<le> instant E (m_time m)
    \<and> at_number p = ob_attempts (de_delivery de) + 1"
proof -
  let ?n = "ob_attempts (de_delivery de)"
  obtain due where due: "ob_next (de_delivery de) = Some due" "instant E due \<le> instant E (m_time m)"
    and number: "at_number p = ?n + 1"
    using assms(2,3) by (auto simp: reduce_attempted_def Let_def pending_decision_def split: option.splits if_splits)
  have "scheduled E (at_decision p) (de_delivery de)"
    using decisions_okD [OF derived_decisions [OF assms(1)] assms(3)] by (simp add: decision_ok_def)
  then have "retry_at E rejected_at (at_decision p) ?n = Inr due"
    using assms(4,5) due(1) by (auto simp: scheduled_def split: sum.splits)
  then obtain n where n: "retry_seconds E (at_decision p) ?n = Inr n"
    and "due = format_iso E (instant E rejected_at + seconds n)"
    by (auto simp: retry_at_def split: sum.splits)
  moreover have least: "[4, 24, 96, 480] ! nat (min (?n - 1) 3) \<le> n" and "n \<le> 720"
    using retry_seconds_least [OF n] retry_seconds_most [OF n] .
  moreover have "1 \<le> ?n" using n by (auto simp: retry_seconds_def split: if_splits)
  moreover note least_delay_pos [OF this]
  ultimately have "instant E due = instant E rejected_at + seconds n"
    using assms(6-8) by (simp add: clock_ok_def instant_def [of E "format_iso E x" for x] seconds_def)
  then show ?thesis using due(2) number least by (simp add: seconds_def)
qed

theorem retries_wait_witness: "instant sample ''18'' + seconds 4 \<le> instant sample ''4000018''"
proof -
  obtain p d where p: "reduce_attempted sample rejected_state (meta_of retry_event) p = Inr d"
    "at_decision p = sample_uuid ''d5''" by (rule retry_accepted)
  obtain de oc ev where de: "dget (d_all (x_decisions rejected_state)) (sample_uuid ''d5'') = Some de"
    "ob_status (de_delivery de) = Ds_rejected" "ob_last_outcome (de_delivery de) = Some (oc, ''18'', ev)"
    and one: "ob_attempts (de_delivery de) = 1"
    by (rule rejected_decision)
  have at: "instant sample ''18'' = 18" by code_simp
  have time: "m_time (meta_of retry_event) = ''4000018''"
    by (simp add: meta_of_def retry_event_def at_time_def)
  have "instant sample ''18'' + seconds 4 \<le> instant sample (m_time (meta_of retry_event))"
    using retries_wait [OF rejected_state(1) p(1) de(1) [folded p(2)] de(2,3) sample_clock] at one by simp
  then show ?thesis by (simp only: time)
qed

section \<open>Who may block whom\<close>

text \<open>C22: a decision request is accepted only from the lead of a running mission, and only with a
  recommendation and a challenge from different models, the challenge by an independent admission
  that does not write; a blocking request never hits a recipient that is at work.\<close>

theorem decisions_need_independence:
  assumes "reduce_decision_requested E s m q = Inr d"
  shows "m_actor m = ''lead'' \<and> (x_status s = Running \<or> x_status s = Assured_running)
    \<and> evidence_identity (x_admissions s) (dr_recommendation q) \<noteq> evidence_identity (x_admissions s) (dr_challenge q)
    \<and> (case dget (s_delegations (x_admissions s)) (ev_delegation (dr_challenge q)) of
         None \<Rightarrow> False
       | Some g \<Rightarrow> (rg_capability g = ''challenge'' \<or> rg_capability g = ''verify'')
           \<and> (case challenge_admission (x_admissions s) g of None \<Rightarrow> False | Some a \<Rightarrow> \<not> a_writer a))
    \<and> (dr_impact q = Blocking \<longrightarrow> list_all (\<lambda>i. \<not> dhas (s_recipients (x_admissions s)) i) (dr_affected q))
    \<and> d_pending d = d_pending (x_decisions s) @ [dr_id q]"
  using assms
  by (auto simp: reduce_decision_requested_def check_challenge_def Let_def add_decision_def list_ex_iff list_all_iff
      guard_simps split: if_splits sum.splits option.splits)

theorem decisions_need_independence_witness:
  "\<exists>s d q. derive_state sample before_request = Inr s
    \<and> reduce_decision_requested sample s (meta_of decision_event) q = Inr d
    \<and> list_all (\<lambda>i. \<not> dhas (s_recipients (x_admissions s)) i) (dr_affected q)"
proof -
  have split: "rejected_ledger = (before_request @ [decision_event]) @ drop 15 rejected_ledger"
    by (simp add: rejected_ledger_def before_request_def)
  have seq: "sequenced (before_request @ [decision_event])" using sequenced_rejected(2) split sequenced_append by metis
  obtain s' where s': "derive_state sample (before_request @ [decision_event]) = Inr s'"
    using derive_state_prefix [OF _ seq] rejected_state(1) split by (metis append_is_Nil_conv list.distinct(1))
  have seq0: "sequenced before_request" using seq sequenced_append by blast
  obtain s where s: "derive_state sample before_request = Inr s"
    using derive_state_prefix [OF s' seq0] by (auto simp: before_request_def)
  obtain u where u: "reduce sample s (meta_of decision_event)
      (last_request (before_request @ [decision_event]) (e_sequence decision_event))
      (decode_payload (e_kind decision_event) (e_payload decision_event)) = Inr u"
    using derive_snoc [OF s' s seq0] by blast
  have "(case decode_payload (e_kind decision_event) (e_payload decision_event) of
      Decision (Decision_requested q) \<Rightarrow> dr_impact q = Blocking | _ \<Rightarrow> False)"
    by code_simp
  then obtain q where q: "decode_payload (e_kind decision_event) (e_payload decision_event) = Decision (Decision_requested q)"
    "dr_impact q = Blocking"
    by (auto split: payload.splits decision_event.splits)
  then obtain d where d: "reduce_decision_requested sample s (meta_of decision_event) q = Inr d"
    using u by (auto split: sum.splits)
  then show ?thesis using s q(2) decisions_need_independence [OF d] by blast
qed

section \<open>Blocking decisions keep their recipients free\<close>

text \<open>Only a reservation adds an admission, and it checks the decisions first.\<close>

lemma fresh_unblocked:
  assumes "reserve_admissions E s m p = Inr t'" and "a \<in> set (rv_admissions p)"
  shows "fresh_admission E s a"
proof -
  obtain ps where "check_admissions E s dempty (rv_admissions p) = Inr ps"
    using assms(1) by (auto simp: reserve_admissions_def Let_def split: sum.splits if_splits)
  then show ?thesis using check_admissions_iff [of E s dempty "rv_admissions p"] assms(2) by blast
qed

lemma dget_record: "k \<noteq> k' \<Longrightarrow> dget (dput k a d) k' = dget d k'" "dget (dput k a d) k = Some a"
  by (simp_all add: dict.get_put)

definition adds_none :: "admission_state \<Rightarrow> admission_state \<Rightarrow> bool" where
  "adds_none t t' \<longleftrightarrow> (\<forall>k. dget (s_admissions t) k = None \<longrightarrow> dget (s_admissions t') k = None)"

lemma adds_none_same [simp]: "s_admissions t' = s_admissions t \<Longrightarrow> adds_none t t'"
  by (simp add: adds_none_def)

lemma adds_none_put:
  "s_admissions t' = dput k b (s_admissions t) \<Longrightarrow> dget (s_admissions t) k \<noteq> None \<Longrightarrow> adds_none t t'"
  by (auto simp: adds_none_def dict.get_put)

lemma adds_none_release:
  "s_admissions t1 = s_admissions t \<Longrightarrow> dget (s_admissions t) (a_id b) \<noteq> None \<Longrightarrow> adds_none t (release_admission b t1)"
  by (auto simp: adds_none_def release_fields)

lemma admission_adds_none:
  assumes "reduce_admission E s m e = Inr t'" and "\<And>p. e \<noteq> Delegations_reserved p" and "keyed (x_admissions s)"
  shows "adds_none (x_admissions s) t'"
proof -
  have id: "dget (s_admissions (x_admissions s)) (a_id a) \<noteq> None" if "dget (s_admissions (x_admissions s)) k = Some a" for k a
    using that keyedD [OF assms(3) that] by simp
  show ?thesis
  proof (cases e)
    case (Delegation_committed p)
    then show ?thesis
      using assms(1) id by (auto simp: reduce_committed_def Let_def intro!: adds_none_put split: if_splits option.splits sum.splits)
  next
    case (Launch_authorized p)
    then show ?thesis
      using assms(1) id by (auto simp: reduce_authorized_def Let_def intro!: adds_none_put split: if_splits option.splits sum.splits)
  next
    case (Delegation_started p)
    then show ?thesis
      using assms(1) id by (auto simp: reduce_started_def reduce_current_start_def reduce_legacy_start_def
          start_admission_def Let_def intro!: adds_none_put split: start_proof.splits if_splits option.splits sum.splits)
  next
    case (Delegation_finalized p)
    then show ?thesis
      using assms(1) id by (auto simp: reduce_finalized_def Let_def intro!: adds_none_release split: if_splits option.splits)
  next
    case (Reservation_aborted p)
    then show ?thesis
      using assms(1) id by (auto simp: reduce_aborted_def Let_def intro!: adds_none_release split: if_splits option.splits)
  qed (use assms in \<open>auto simp: reduce_policy_def Let_def split: if_splits\<close>)
qed

lemma attach_adds_none: "attach_result t m r k = Inr t' \<Longrightarrow> adds_none t t'"
  by (auto simp: attach_result_def record_result_def intro!: adds_none_put split: option.splits if_splits)

lemma adds_none_from: "s_admissions t0 = s_admissions t \<Longrightarrow> adds_none t0 t' \<Longrightarrow> adds_none t t'"
  by (simp add: adds_none_def)

lemma run_adds_none:
  assumes "reduce_run s m e = Inr t'"
  shows "adds_none (x_admissions s) t'"
proof (cases e)
  case (Synthesis_recorded k r)
  then show ?thesis
    using assms by (auto simp: reduce_synthesis_def Let_def record_result_def intro!: adds_none_put
        split: option.splits if_splits)
qed (use assms in \<open>auto simp: reduce_lead_dispatched_def reduce_lead_result_def reduce_registered_def
      reduce_result_def reduce_completion_request_def reduce_cancel_def Let_def
      dest!: attach_adds_none intro: adds_none_from [rotated]
      split: option.splits if_splits sum.splits owner.splits\<close>)

definition unblocked :: "mission \<Rightarrow> bool" where
  "unblocked s \<longleftrightarrow>
     (\<forall>d de k a. d \<in> set (d_pending (x_decisions s)) \<longrightarrow> dget (d_all (x_decisions s)) d = Some de \<longrightarrow>
        dr_impact (de_request de) = Blocking \<longrightarrow> dget (s_admissions (x_admissions s)) k = Some a \<longrightarrow> a_active a \<longrightarrow>
        a_run_kind a = Specialist \<longrightarrow> a_recipient a \<notin> set (dr_affected (de_request de)))"

lemma blocking_none:
  "blocking_decisions s r = [] \<Longrightarrow> d \<in> set (d_pending (x_decisions s)) \<Longrightarrow> dget (d_all (x_decisions s)) d = Some de \<Longrightarrow>
     dr_impact (de_request de) = Blocking \<Longrightarrow> r \<notin> set (dr_affected (de_request de))"
  by (auto simp: blocking_decisions_def filter_empty_conv)

lemma unblocked_old:
  assumes "unblocked s" and "evolves (x_admissions s) (x_admissions u)" and "x_decisions u = x_decisions s"
    and new: "\<And>k b. dget (s_admissions (x_admissions s)) k = None \<Longrightarrow> dget (s_admissions (x_admissions u)) k = Some b \<Longrightarrow>
      a_run_kind b = Specialist \<Longrightarrow> blocking_decisions s (a_recipient b) = []"
  shows "unblocked u"
  unfolding unblocked_def
proof (intro allI impI)
  fix d de k b
  assume d: "d \<in> set (d_pending (x_decisions u))" "dget (d_all (x_decisions u)) d = Some de"
    "dr_impact (de_request de) = Blocking"
    and b: "dget (s_admissions (x_admissions u)) k = Some b" "a_active b" "a_run_kind b = Specialist"
  show "a_recipient b \<notin> set (dr_affected (de_request de))"
  proof (cases "dget (s_admissions (x_admissions s)) k")
    case None
    then show ?thesis using blocking_none [OF new [OF None b(1,3)]] d assms(3) by simp
  next
    case (Some a)
    then obtain b' where "dget (s_admissions (x_admissions u)) k = Some b'" "same_admission a b'"
      using assms(2) by (auto simp: evolves_def)
    with b have "same_admission a b" by simp
    then have "a_active a" "a_run_kind a = Specialist" "a_recipient a = a_recipient b"
      using b by (auto simp: same_admission_def admission_request.truncate_def)
    then show ?thesis using assms(1,3) d Some unfolding unblocked_def by metis
  qed
qed

lemma reserved_new:
  assumes "reserve_admissions E s m p = Inr t'" and "payload_ok (Admission (Delegations_reserved p))"
    and "keyed (x_admissions s)" and "dget (s_admissions (x_admissions s)) k = None"
    and "dget (s_admissions t') k = Some b" and "a_run_kind b = Specialist"
  shows "blocking_decisions s (a_recipient b) = []"
proof -
  obtain po g ds lane ev where fits: "fits (x_admissions s) po (rv_admissions p) g ds"
    and t': "t' = commit_batch lane ev po p g ds (x_admissions s)"
    using reserve_move [OF _ assms(1)] assms(2) by auto
  obtain r where "batch_map a_id (rv_admissions p) k = Some r" and b: "b = stored_admission lane ev ds r"
    using assms(4,5) by (auto simp: t' batch_simps [OF fits] split: option.splits)
  then have "r \<in> set (rv_admissions p)" by (auto dest: batch_map_SomeD)
  then have "fresh_admission E s r" using fresh_unblocked [OF assms(1)] by blast
  then show ?thesis using assms(6) by (simp add: b fresh_admission_def Let_def)
qed

lemma unblocked_cong:
  "unblocked s \<Longrightarrow> x_admissions u = x_admissions s \<Longrightarrow> x_decisions u = x_decisions s \<Longrightarrow> unblocked u"
  by (simp add: unblocked_def)

lemma decision_subset:
  assumes "reduce_decision E s m e = Inr d" and "\<And>q. e \<noteq> Decision_requested q"
  shows "set (d_pending d) \<subseteq> set (d_pending (x_decisions s))"
    and "dget (d_all d) k = Some de \<Longrightarrow> \<exists>de0. dget (d_all (x_decisions s)) k = Some de0 \<and> de_request de0 = de_request de"
  using assms
  by (cases e;
      force simp: reduce_enqueued_def reduce_attempted_def reduce_outcome_def reduce_resolved_def pending_decision_def
        set_outbox_def resolve_decision_def Let_def dict.get_put split: option.splits if_splits sum.splits)+

lemma requested_unblocked:
  assumes "unblocked s" and "recipient_slots (x_admissions s)" and "reduce_decision_requested E s m q = Inr d"
  shows "unblocked (s\<lparr>x_decisions := d\<rparr>)"
proof -
  have d: "d = add_decision E m q (x_decisions s)"
    and free: "dr_impact q = Blocking \<Longrightarrow> \<forall>i \<in> set (dr_affected q). \<not> dhas (s_recipients (x_admissions s)) i"
    using assms(3) by (auto simp: reduce_decision_requested_def Let_def list_ex_iff split: if_splits sum.splits)
  have "a_recipient a \<notin> set (dr_affected q)"
    if "dr_impact q = Blocking" "dget (s_admissions (x_admissions s)) k = Some a" "a_active a" for k a
    using free [OF that(1)] recipient_slotsD(1) [OF assms(2) that(2,3)] by (auto simp: dhas_def)
  then show ?thesis
    using assms(1) unfolding unblocked_def d add_decision_def by (auto simp: dict.get_put split: if_splits)
qed

lemma moves_collision: "move\<^sup>*\<^sup>* t t' \<Longrightarrow> keyed t \<Longrightarrow> id_collision t \<Longrightarrow> id_collision t'"
  by (induction rule: rtranclp_induct) (auto intro: grows_collision move_grows moves_keyed)

definition guarded :: "derivation \<Rightarrow> bool" where
  "guarded v \<longleftrightarrow>
     keyed (x_admissions (v_state v)) \<and> recipients_kept (x_admissions (v_state v))
     \<and> (id_collision (x_admissions (v_state v)) \<or> unblocked (v_state v))"

lemma reduce_unblocked:
  assumes red: "reduce E s m lr p = Inr u" and "payload_ok p" and keyed: "keyed (x_admissions s)"
    and "recipients_kept (x_admissions s)" and "\<not> id_collision (x_admissions s)" and inv: "unblocked s"
  shows "unblocked u"
proof -
  have "evolves (x_admissions s) (x_admissions u)"
    using moves_evolves [OF reduce_moves [OF keyed assms(2) red] keyed] .
  note old = unblocked_old [OF inv this]
  show ?thesis
  proof (cases p)
    case (Lifecycle e)
    then show ?thesis using red unblocked_cong [OF inv] by (simp add: lifecycle_admissions lifecycle_decisions)
  next
    case (Admission e)
    then obtain t' where t': "reduce_admission E s m e = Inr t'" "u = s\<lparr>x_admissions := t'\<rparr>"
      using red by (auto split: sum.splits)
    show ?thesis
    proof (cases "\<exists>q. e = Delegations_reserved q")
      case True
      then obtain q where "e = Delegations_reserved q" by blast
      then show ?thesis
        using t' reserved_new [of E s m q t'] keyed assms(2) Admission by (intro old) auto
    next
      case False
      then show ?thesis
        using t' admission_adds_none [OF t'(1) _ keyed] by (intro old) (auto simp: adds_none_def)
    qed
  next
    case (Run e)
    then obtain t' where t': "reduce_run s m e = Inr t'" "u = s\<lparr>x_admissions := t'\<rparr>"
      using red by (auto split: sum.splits)
    then show ?thesis using run_adds_none [OF t'(1)] by (intro old) (auto simp: adds_none_def)
  next
    case (Decision e)
    then obtain d where d: "reduce_decision E s m e = Inr d" "u = s\<lparr>x_decisions := d\<rparr>"
      using red by (auto split: sum.splits)
    show ?thesis
    proof (cases "\<exists>q. e = Decision_requested q")
      case True
      have "recipient_slots (x_admissions s)" using assms(4,5) by (simp add: recipients_kept_def)
      then show ?thesis using True d requested_unblocked [OF inv] by auto
    next
      case False
      then have kept: "set (d_pending d) \<subseteq> set (d_pending (x_decisions s))"
        "dget (d_all d) k = Some de \<Longrightarrow> \<exists>de0. dget (d_all (x_decisions s)) k = Some de0 \<and> de_request de0 = de_request de"
        for k de using decision_subset [OF d(1)] by blast+
      show ?thesis
        unfolding unblocked_def
      proof (intro allI impI)
        fix k de k' a
        assume a: "k \<in> set (d_pending (x_decisions u))" "dget (d_all (x_decisions u)) k = Some de"
          "dr_impact (de_request de) = Blocking" "dget (s_admissions (x_admissions u)) k' = Some a" "a_active a"
          "a_run_kind a = Specialist"
        obtain de0 where "dget (d_all (x_decisions s)) k = Some de0" "de_request de0 = de_request de"
          using kept(2) a(2) d(2) by auto
        moreover have "k \<in> set (d_pending (x_decisions s))" using kept(1) a(1) d(2) by auto
        ultimately show "a_recipient a \<notin> set (dr_affected (de_request de))"
          using inv a(3-6) d(2) unfolding unblocked_def by (metis mission.select_convs(9) mission.surjective mission.update_convs(10))
      qed
    qed
  next
    case (Herdr e)
    then show ?thesis using red unblocked_cong [OF inv] by (auto split: sum.splits)
  next
    case Inert
    then show ?thesis using red inv by simp
  qed
qed

interpretation guarding: preserved "derive_step E events" guarded for E events
proof
  fix v e w
  assume inv: "guarded v" and step: "derive_step E events v e = Inr w"
  let ?p = "decode_payload (e_kind e) (e_payload e)"
  obtain u where u: "reduce E (v_state v) (meta_of e) (last_request events (e_sequence e)) ?p = Inr u"
    and w: "v_state w = counted (meta_of e) u"
    using derive_stepD(2) [OF step] by auto
  have ok: "payload_ok ?p" using validated_payload_ok [OF derive_stepD(1) [OF step]] .
  have keyed: "keyed (x_admissions (v_state v))" using inv by (simp add: guarded_def)
  have moves: "move\<^sup>*\<^sup>* (x_admissions (v_state v)) (x_admissions u)" by (rule reduce_moves [OF keyed ok u])
  have "id_collision (x_admissions u)" if "id_collision (x_admissions (v_state v))"
    using moves keyed that by (rule moves_collision)
  moreover have "unblocked u" if "\<not> id_collision (x_admissions (v_state v))"
    using reduce_unblocked [OF u ok keyed] inv that by (simp add: guarded_def)
  moreover have "keyed (x_admissions u)" "recipients_kept (x_admissions u)"
    using moves_keyed [OF moves keyed] recipient.moves [OF moves keyed] inv by (auto simp: guarded_def)
  ultimately show "guarded w" by (auto simp: guarded_def w unblocked_def)
qed

text \<open>C23: while a blocking decision is pending, no specialist is at work for a recipient it affects, as
  long as no delegation carries the identity of an admission.\<close>

theorem blocked_recipients_idle:
  assumes "derive_state E events = Inr s" and "\<not> id_collision (x_admissions s)"
    and "d \<in> set (d_pending (x_decisions s))" and "dget (d_all (x_decisions s)) d = Some de"
    and "dr_impact (de_request de) = Blocking"
    and "dget (s_admissions (x_admissions s)) k = Some a" and "a_active a" and "a_run_kind a = Specialist"
  shows "a_recipient a \<notin> set (dr_affected (de_request de))"
proof -
  obtain v e es where v: "fold_result (derive_step E events) (start_derivation e) events = Inr v" "s = v_state v"
    using assms(1) by (rule derived)
  have "guarded (start_derivation e)"
    by (simp add: guarded_def recipients_kept_def unblocked_def)
      (simp add: start_derivation_def initial_state_def empty_admission_state_def)
  then have "guarded v" using guarding.fold_inv v(1) by metis
  then have "unblocked s" using assms(2) v(2) by (simp add: guarded_def)
  then show ?thesis using assms(3-8) unfolding unblocked_def by blast
qed

theorem blocked_recipients_idle_witness:
  "\<exists>a (de :: decision). dget (s_admissions (x_admissions rejected_state)) (sample_uuid ''a1'') = Some a \<and> a_active a
    \<and> a_recipient a \<notin> set (dr_affected (de_request de))"
proof -
  obtain de where de: "dget (d_all (x_decisions rejected_state)) (sample_uuid ''d5'') = Some de"
    "dr_impact (de_request de) = Blocking" by (rule rejected_decision)
  have pend: "\<not> id_collision (x_admissions rejected_state)"
    "sample_uuid ''d5'' \<in> set (d_pending (x_decisions rejected_state))"
    using rejected_state(2) by (simp_all add: rejected_facts_def)
  obtain a where a: "dget (s_admissions (x_admissions rejected_state)) (sample_uuid ''a1'') = Some a" "a_active a"
    "a_run_kind a = Specialist"
    using rejected_state(2) by (auto simp: rejected_facts_def split: option.splits)
  then show ?thesis using blocked_recipients_idle [OF rejected_state(1) pend de a] by blast
qed

end
