(* ===== verification/Json_Round.thy ===== *)
theory Json_Round
  imports Json_Parse
begin

text \<open>
  The reader inverts the canonical text: every value the code can hold is read back from its
  canonical bytes as the same value with its keys in order, and canonical bytes separate values.
\<close>

section \<open>Values that the reader returns\<close>

text \<open>
  What \<open>_validate_value\<close> and \<open>_reject_duplicate_keys\<close> enforce: strings are UTF-8 and no object
  has a key twice.
\<close>

fun wf_json :: "json \<Rightarrow> bool" where
  "wf_json (JStr s) = utf8_ok s"
| "wf_json (JArr xs) = (\<forall>x \<in> set xs. wf_json x)"
| "wf_json (JObj kvs) = (distinct (map fst kvs) \<and> (\<forall>kv \<in> set kvs. utf8_ok (fst kv) \<and> wf_json (snd kv)))"
| "wf_json _ = True"

section \<open>UTF-8\<close>

lemma utf8_append: "utf8_from k lo hi s \<Longrightarrow> utf8_ok t \<Longrightarrow> utf8_from k lo hi (s @ t)"
proof (induction k lo hi s rule: utf8_from.induct)
  case (1 k lo hi)
  then show ?case by (cases t) (auto simp: utf8_ok_def)
qed (auto split: option.splits)

lemma utf8_ok_append: "utf8_ok s \<Longrightarrow> utf8_ok t \<Longrightarrow> utf8_ok (s @ t)"
  using utf8_append by (simp add: utf8_ok_def)

lemma utf8_ok_Nil [simp]: "utf8_ok []"
  by (simp add: utf8_ok_def)

lemma utf8_zero: "utf8_from 0 lo hi s = utf8_ok s"
  by (cases s) (simp_all add: utf8_ok_def)

lemma utf8_lead_ascii: "n < 128 \<Longrightarrow> utf8_lead n = Some (0, 128, 191)"
  by (simp add: utf8_lead_def)

lemma utf8_ok_ascii [simp]: "(of_char c :: nat) < 128 \<Longrightarrow> utf8_ok (c # s) = utf8_ok s"
  by (simp add: utf8_ok_def utf8_lead_ascii)

lemma utf8_ok_ascii_append: "\<forall>c \<in> set t. (of_char c :: nat) < 128 \<Longrightarrow> utf8_ok (t @ s) = utf8_ok s"
  by (induction t) auto

lemma utf8_ok_concat: "\<forall>s \<in> set ss. utf8_ok s \<Longrightarrow> utf8_ok (concat ss)"
  by (induction ss) (auto intro: utf8_ok_append)

lemma utf8_lead_lo: "utf8_lead n = Some (k, lo, hi) \<Longrightarrow> 128 \<le> lo"
  by (auto simp: utf8_lead_def split: if_splits)

lemma escape_high: "128 \<le> (of_char c :: nat) \<Longrightarrow> escape_char c = [c]"
  by (simp add: escape_char_def Let_def)

lemma of_char_hex_digit: "n < 16 \<Longrightarrow> (of_char (hex_digit n) :: nat) = (if n < 10 then 48 + n else 87 + n)"
  by (simp add: hex_digit_def)

lemma escape_ascii: "(of_char c :: nat) < 128 \<Longrightarrow> d \<in> set (escape_char c) \<Longrightarrow> (of_char d :: nat) < 128"
  by (auto simp: escape_char_def Let_def of_char_hex_digit split: if_splits)

lemma utf8_escaped:
  "utf8_from k lo hi s \<Longrightarrow> 128 \<le> lo \<Longrightarrow> utf8_from k lo hi (concat (map escape_char s))"
proof (induction k lo hi s rule: utf8_from.induct)
  case (2 lo hi c s)
  show ?case
  proof (cases "(of_char c :: nat) < 128")
    case True
    then have "utf8_ok (concat (map escape_char s))"
      using 2 by (fastforce simp: utf8_lead_ascii utf8_zero)
    then have "utf8_ok (escape_char c @ concat (map escape_char s))"
      using escape_ascii [OF True] by (subst utf8_ok_ascii_append) auto
    moreover have "escape_char c \<noteq> []" by (simp add: escape_char_def Let_def)
    ultimately show ?thesis by (simp add: utf8_zero)
  next
    case False
    then have "escape_char c = [c]" using escape_high by simp
    then show ?thesis using 2 utf8_lead_lo by (auto split: option.splits)
  qed
next
  case (3 k lo hi c s)
  then have "escape_char c = [c]" by (intro escape_high) simp
  then show ?case using 3 by simp
qed simp

lemma utf8_quoted: "utf8_ok s \<Longrightarrow> utf8_ok (quoted s)"
  using utf8_escaped [of 0 128 191 s] by (simp add: utf8_zero quoted_def utf8_ok_append)

section \<open>Strings\<close>

lemma utf8_encode_ascii: "n < 128 \<Longrightarrow> utf8_encode n = [char_of n]"
  by (simp add: utf8_encode_def)

lemma hex_value_digit: "n < 16 \<Longrightarrow> hex_value (hex_digit n) = Some n"
  by (simp add: hex_value_def Let_def of_char_hex_digit)

lemma scan_control:
  assumes "(of_char c :: nat) < 32"
  shows "scan_escape (''u00'' @ [hex_digit (of_char c div 16), hex_digit (of_char c mod 16)] @ s) = Some ([c], s)"
proof -
  let ?n = "of_char c :: nat"
  have "hex_value (CHR ''0'') = Some 0" by (simp add: hex_value_def)
  moreover have "16 * (?n div 16) + ?n mod 16 = ?n" by simp
  moreover have "char_of ?n = c" by simp
  ultimately show ?thesis
    using assms
    by (simp add: scan_escape_def scan_unicode_def hex_value_digit high_surrogate_def low_surrogate_def utf8_encode_ascii)
qed

lemma scan_escape_simps:
  "scan_string (CHR 0x5C # s) =
     (case scan_escape s of
        None \<Rightarrow> None
      | Some (t, s') \<Rightarrow> map_option (\<lambda>(u, r). (t @ u, r)) (scan_string s'))"
  "scan_escape (CHR 0x22 # s) = Some ([CHR 0x22], s)"
  "scan_escape (CHR 0x5C # s) = Some ([CHR 0x5C], s)"
  "scan_escape (CHR ''b'' # s) = Some ([CHR 0x08], s)"
  "scan_escape (CHR ''f'' # s) = Some ([CHR 0x0C], s)"
  "scan_escape (CHR ''n'' # s) = Some ([CHR 0x0A], s)"
  "scan_escape (CHR ''r'' # s) = Some ([CHR 0x0D], s)"
  "scan_escape (CHR ''t'' # s) = Some ([CHR 0x09], s)"
  by (subst scan_string.simps) (simp_all add: scan_escape_def simple_escape_def)

lemma char_of_codes:
  "char_of (34 :: nat) = CHR 0x22" "char_of (92 :: nat) = CHR 0x5C" "char_of (8 :: nat) = CHR 0x08"
  "char_of (9 :: nat) = CHR 0x09" "char_of (10 :: nat) = CHR 0x0A" "char_of (12 :: nat) = CHR 0x0C"
  "char_of (13 :: nat) = CHR 0x0D" "char_of (48 :: nat) = CHR ''0''"
  by code_simp+

lemma char_code: "(of_char c :: nat) = n \<Longrightarrow> c = char_of n"
  by auto

lemma scan_escaped_char:
  "scan_string (escape_char c @ s) = map_option (\<lambda>(u, r). (c # u, r)) (scan_string s)"
proof -
  let ?n = "of_char c :: nat"
  consider "?n = 34" | "?n = 92" | "?n \<in> {8, 9, 10, 12, 13}" | "?n < 32" "?n \<notin> {8, 9, 10, 12, 13}"
    | "32 \<le> ?n" "?n \<noteq> 34" "?n \<noteq> 92" by force
  then show ?thesis
  proof cases
    case 4
    then have "escape_char c = CHR 0x5C # ''u00'' @ [hex_digit (?n div 16), hex_digit (?n mod 16)]"
      by (simp add: escape_char_def Let_def)
    then show ?thesis
      using scan_control [OF 4(1)] by (subst scan_string.simps) simp
  next
    case 5
    then have "escape_char c = [c]" by (simp add: escape_char_def Let_def)
    moreover have "c \<noteq> CHR 0x22" "c \<noteq> CHR 0x5C" using 5 by auto
    ultimately show ?thesis using 5 by (subst scan_string.simps) simp
  qed (auto simp: escape_char_def scan_escape_simps char_of_codes dest!: char_code)
qed

lemma scan_escaped:
  "scan_string (concat (map escape_char s) @ CHR 0x22 # r) = Some (s, r)"
proof (induction s)
  case Nil
  show ?case by (subst scan_string.simps) simp
qed (simp add: scan_escaped_char)

section \<open>Numbers\<close>

lemma decimal_induct [consumes 1, case_names small large]:
  assumes "0 \<le> (i :: int)" and "\<And>i. 0 \<le> i \<Longrightarrow> i < 10 \<Longrightarrow> P i" and "\<And>i. 10 \<le> i \<Longrightarrow> P (i div 10) \<Longrightarrow> P i"
  shows "P i"
  using assms(1)
proof (induction "nat i" arbitrary: i rule: less_induct)
  case less
  show ?case
  proof (cases "i < 10")
    case False
    then have "0 \<le> i div 10" "nat (i div 10) < nat i" by auto
    then have "P (i div 10)" using less(1) by blast
    then show ?thesis using assms(3) [of i] False by simp
  qed (use assms(2) less(2) in simp)
qed

lemma digit_char_decimal: "0 \<le> i \<Longrightarrow> \<forall>c \<in> set (decimal i). digit_char c"
proof (induction i rule: decimal_induct)
  case (small i)
  then show ?case by (subst decimal.simps) (auto simp: decimal_digit_def digit_char_def)
next
  case (large i)
  then have "nat (i mod 10) < 10" by simp
  with large show ?case by (subst decimal.simps) (auto simp: decimal_digit_def digit_char_def)
qed

lemma digits_value_decimal: "0 \<le> i \<Longrightarrow> digits_value (decimal i) = i"
proof (induction i rule: decimal_induct)
  case (small i)
  then show ?case by (subst decimal.simps) (simp add: digits_value_def decimal_digit_def)
next
  case (large i)
  have "nat (i mod 10) < 10" "int (nat (i mod 10)) = i mod 10" by simp_all
  then have "int (of_char (decimal_digit (nat (i mod 10)))) - 48 = i mod 10"
    by (simp add: decimal_digit_def)
  with large show ?case by (subst decimal.simps) (simp add: digits_value_def)
qed

lemma decimal_hd: "0 < i \<Longrightarrow> \<exists>c s. decimal i = c # s \<and> c \<noteq> CHR ''0''"
proof -
  assume "0 < i"
  then have "0 \<le> i" by simp
  then have "0 < i \<longrightarrow> (\<exists>c s. decimal i = c # s \<and> c \<noteq> CHR ''0'')"
  proof (induction i rule: decimal_induct)
    case (small i)
    have "decimal_digit (nat i) \<noteq> CHR ''0''" if "0 < i"
    proof
      assume "decimal_digit (nat i) = CHR ''0''"
      then have "(of_char (decimal_digit (nat i)) :: nat) = 48" by simp
      then show False using small that by (simp add: decimal_digit_def)
    qed
    with small show ?case by (subst decimal.simps) simp
  next
    case (large i)
    then obtain c s where "decimal (i div 10) = c # s" "c \<noteq> CHR ''0''" by force
    then show ?case using large(1) by (subst decimal.simps) simp
  qed
  with \<open>0 < i\<close> show ?thesis by simp
qed

text \<open>What may follow a number: nothing that the number could swallow.\<close>

definition delimited :: "string \<Rightarrow> bool" where
  "delimited s \<longleftrightarrow> s = [] \<or> hd s \<in> {CHR '','', CHR '']'', CHR ''}''}"

lemma takeWhile_digits:
  "\<forall>c \<in> set ds. digit_char c \<Longrightarrow> delimited r \<Longrightarrow> takeWhile digit_char (ds @ r) = ds"
  by (cases r) (auto simp: delimited_def takeWhile_append digit_char_def)

lemma integer_digits_decimal:
  assumes "0 \<le> i" and "delimited r"
  shows "integer_digits (decimal i @ r) = decimal i"
proof (cases "i = 0")
  case True
  moreover have "decimal 0 = ''0''" by (simp add: decimal.simps decimal_digit_def char_of_codes)
  ultimately show ?thesis by (simp add: integer_digits_def)
next
  case False
  then have "0 < i" using assms(1) by simp
  then obtain c s where c: "decimal i = c # s" "c \<noteq> CHR ''0''" using decimal_hd by blast
  moreover have "takeWhile digit_char (decimal i @ r) = decimal i"
    using digit_char_decimal [OF assms(1)] assms(2) by (rule takeWhile_digits)
  ultimately show ?thesis by (simp add: integer_digits_def)
qed

lemma no_fraction: "delimited r \<Longrightarrow> fraction_part r = []"
  by (cases r) (auto simp: delimited_def fraction_part_def)

lemma no_exponent: "delimited r \<Longrightarrow> exponent_part r = []"
  by (cases r) (auto simp: delimited_def exponent_part_def)

lemma decimal_not_minus: "0 \<le> i \<Longrightarrow> \<exists>c s. decimal i = c # s \<and> c \<noteq> CHR ''-'' \<and> digit_char c"
proof -
  assume i: "0 \<le> i"
  have "decimal i \<noteq> []" by (subst decimal.simps) simp
  then obtain c s where "decimal i = c # s" by (cases "decimal i") auto
  moreover from this have "digit_char c" using digit_char_decimal [OF i] by simp
  ultimately show ?thesis by (auto simp: digit_char_def)
qed

lemma scan_integer:
  assumes "delimited r"
  shows "scan_number h (int_text i @ r) = Some (JInt i, r)"
proof -
  let ?d = "decimal \<bar>i\<bar>"
  obtain c s where c: "?d = c # s" "c \<noteq> CHR ''-''" using decimal_not_minus [of "\<bar>i\<bar>"] by auto
  then have sign: "scan_sign (int_text i @ r) = (i < 0, ?d @ r)"
    by (auto simp: scan_sign_def int_text_def)
  have digits: "integer_digits (?d @ r) = ?d" using assms by (intro integer_digits_decimal) simp_all
  have "?d \<noteq> []" using c(1) by simp
  then show ?thesis
    by (simp add: scan_number_def sign digits Let_def [of ?d] no_fraction [OF assms] no_exponent [OF assms]
      digits_value_decimal)
qed

section \<open>Values\<close>

lemma insort_key_map_snd:
  "insort_key fst (k, f v) (map (\<lambda>(k, v). (k, f v)) kvs) = map (\<lambda>(k, v). (k, f v)) (insort_key fst (k, v) kvs)"
  by (induction kvs) auto

lemma sort_key_map_snd:
  "sort_key fst (map (\<lambda>(k, v). (k, f v)) kvs) = map (\<lambda>(k, v). (k, f v)) (sort_key fst kvs)"
  by (induction kvs) (auto simp: insort_key_map_snd)

definition member_text :: "string \<times> json \<Rightarrow> string" where
  "member_text kv = quoted (fst kv) @ '':'' @ canonical_bytes (snd kv)"

lemma canonical_bytes_obj:
  "canonical_bytes (JObj kvs) = ''{'' @ comma_sep (map member_text (sort_key fst kvs)) @ ''}''"
  unfolding canonical_bytes.simps sort_key_map_snd
  by (simp add: member_text_def [abs_def] comp_def case_prod_unfold)

lemma canonical_copy_obj:
  "canonical_copy (JObj kvs) = JObj (map (\<lambda>(k, v). (k, canonical_copy v)) (sort_key fst kvs))"
  by (simp add: sort_key_map_snd)

text \<open>The first byte of a canonical text is neither white space nor the end of a container.\<close>

lemma canonical_hd:
  obtains c s where "canonical_bytes v = c # s" and "\<not> json_space c" and "c \<noteq> CHR '']''" and "c \<noteq> CHR ''}''"
    and "(of_char c :: nat) < 128"
proof (cases v)
  case (JInt i)
  obtain c s where "decimal \<bar>i\<bar> = c # s" "digit_char c" using decimal_not_minus [of "\<bar>i\<bar>"] by auto
  moreover from this have "\<not> json_space c" "c \<noteq> CHR '']''" "c \<noteq> CHR ''}''" "(of_char c :: nat) < 128"
    by (auto simp: json_space_def digit_char_def)
  ultimately show thesis
    using JInt that by (cases "i < 0") (auto simp: int_text_def json_space_def)
next
  case (JBool b)
  then show thesis using that by (cases b) (auto simp: json_space_def)
qed (use that in \<open>auto simp: json_space_def quoted_def\<close>)

lemma skip_canonical: "skip_space (canonical_bytes v @ r) = canonical_bytes v @ r"
  by (rule canonical_hd [of v]) (simp add: skip_space_def)

lemma expect_simps [simp]:
  "expect c (d # r) = (if d = c then Some r else None)" "expect c [] = None"
  by (simp_all add: expect_def)

lemma skip_simps [simp]: "\<not> json_space c \<Longrightarrow> skip_space (c # s) = c # s" "skip_space [] = []"
  by (simp_all add: skip_space_def)

lemma not_space [simp]:
  "\<not> json_space (CHR '','')" "\<not> json_space (CHR '':'')" "\<not> json_space (CHR '']'')" "\<not> json_space (CHR ''}'')"
  "\<not> json_space (CHR 0x22)" "\<not> json_space (CHR ''['')" "\<not> json_space (CHR ''{'')"
  by (simp_all add: json_space_def)

lemma delimited_simps [simp]:
  "delimited (CHR '','' # s)" "delimited (CHR '']'' # s)" "delimited (CHR ''}'' # s)" "delimited []"
  by (simp_all add: delimited_def)

lemma comma_sep_Cons: "comma_sep (x # xs) = x @ (if xs = [] then [] else CHR '','' # comma_sep xs)"
  by (cases xs) simp_all

definition reads_back :: "(string \<Rightarrow> json option) \<Rightarrow> json \<Rightarrow> bool" where
  "reads_back h v \<longleftrightarrow>
     (\<forall>n r. length (canonical_bytes v) < n \<longrightarrow> delimited r \<longrightarrow>
        scan_value h n (canonical_bytes v @ r) = Some (canonical_copy v, r))"

lemma reads_backD:
  "reads_back h v \<Longrightarrow> length (canonical_bytes v) < n \<Longrightarrow> delimited r \<Longrightarrow>
     scan_value h n (canonical_bytes v @ r) = Some (canonical_copy v, r)"
  by (simp add: reads_back_def)

lemma reads_backI:
  assumes "\<And>m r. length (canonical_bytes v) \<le> m \<Longrightarrow> delimited r \<Longrightarrow>
    scan_value h (Suc m) (canonical_bytes v @ r) = Some (canonical_copy v, r)"
  shows "reads_back h v"
  unfolding reads_back_def
proof (intro allI impI)
  fix n r
  assume "length (canonical_bytes v) < n" "delimited r"
  then show "scan_value h n (canonical_bytes v @ r) = Some (canonical_copy v, r)" using assms by (cases n) auto
qed

lemma scan_elements_back:
  assumes "xs \<noteq> []" and "\<And>x. x \<in> set xs \<Longrightarrow> reads_back h x"
    and "length (comma_sep (map canonical_bytes xs)) + 1 < n"
  shows "scan_elements h n (comma_sep (map canonical_bytes xs) @ CHR '']'' # r) = Some (map canonical_copy xs, r)"
  using assms
proof (induction xs arbitrary: n)
  case (Cons x xs)
  then obtain m where m: "n = Suc m" by (cases n) auto
  have x: "reads_back h x" using Cons.prems(2) by simp
  show ?case
  proof (cases "xs = []")
    case True
    then show ?thesis using Cons.prems(3) reads_backD [OF x, of m] by (simp add: m)
  next
    case False
    obtain c s where "canonical_bytes x = c # s" by (rule canonical_hd)
    then have "length (comma_sep (map canonical_bytes xs)) + 1 < m"
      using Cons.prems(3) False by (simp add: m comma_sep_Cons)
    then have rest: "scan_elements h m (comma_sep (map canonical_bytes xs) @ CHR '']'' # r) = Some (map canonical_copy xs, r)"
      using Cons.IH False Cons.prems(2) by simp
    obtain y ys where ys: "xs = y # ys" using False by (cases xs) auto
    have "skip_space (comma_sep (map canonical_bytes xs) @ t) = comma_sep (map canonical_bytes xs) @ t" for t
      unfolding ys list.map comma_sep_Cons append_assoc by (rule skip_canonical)
    then show ?thesis
      using Cons.prems(3) False reads_backD [OF x, of m] rest by (simp add: m comma_sep_Cons)
  qed
qed simp

lemma member_text_quote: "member_text kv = CHR 0x22 # tl (member_text kv)"
  by (simp add: member_text_def quoted_def)

lemma scan_members_back:
  assumes "kvs \<noteq> []" and "\<And>kv. kv \<in> set kvs \<Longrightarrow> reads_back h (snd kv)"
    and "length (comma_sep (map member_text kvs)) + 1 < n"
  shows "scan_members h n (comma_sep (map member_text kvs) @ CHR ''}'' # r) =
           Some (map (\<lambda>(k, v). (k, canonical_copy v)) kvs, r)"
  using assms
proof (induction kvs arbitrary: n)
  case (Cons kv kvs)
  then obtain m where m: "n = Suc m" by (cases n) auto
  obtain k v where kv: "kv = (k, v)" by (cases kv)
  have v: "reads_back h v" using Cons.prems(2) [of kv] kv by simp
  have shape: "member_text kv @ t = CHR 0x22 # concat (map escape_char k) @ CHR 0x22 # CHR '':'' # canonical_bytes v @ t" for t
    by (simp add: kv member_text_def quoted_def)
  have short: "length (canonical_bytes v) < m"
    using Cons.prems(3) by (simp add: m comma_sep_Cons kv member_text_def quoted_def)
  show ?case
  proof (cases "kvs = []")
    case True
    then show ?thesis
      using reads_backD [OF v short] shape
      by (simp add: m kv [symmetric] scan_escaped skip_canonical) (simp add: kv)
  next
    case False
    have "length (comma_sep (map member_text kvs)) + 1 < m"
      using Cons.prems(3) False by (simp add: m comma_sep_Cons)
    then have rest: "scan_members h m (comma_sep (map member_text kvs) @ CHR ''}'' # r) =
        Some (map (\<lambda>(k, v). (k, canonical_copy v)) kvs, r)"
      using Cons.IH False Cons.prems(2) by simp
    obtain y ys where ys: "kvs = y # ys" using False by (cases kvs) auto
    have skip: "skip_space (comma_sep (map member_text kvs) @ t) = comma_sep (map member_text kvs) @ t" for t
      using member_text_quote [of y] by (simp add: ys comma_sep_Cons) (metis append_Cons not_space(5) skip_simps(1))
    show ?thesis
      using False reads_backD [OF v short] rest skip
      by (simp add: m comma_sep_Cons shape [unfolded kv] scan_escaped skip_canonical kv)
  qed
qed simp

lemma reject_distinct:
  "distinct (map fst (acc @ kvs)) \<Longrightarrow> reject_duplicate_keys acc kvs = Some (JObj (acc @ kvs))"
  by (induction kvs arbitrary: acc) auto

lemma reads_back_int: "reads_back h (JInt i)"
proof (rule reads_backI)
  fix m r
  assume r: "delimited r"
  obtain c s where c: "int_text i = c # s" "digit_char c \<or> c = CHR ''-''"
    using decimal_not_minus [of "\<bar>i\<bar>"] by (cases "i < 0") (auto simp: int_text_def)
  have "c \<notin> {CHR 0x22, CHR ''{'', CHR ''['', CHR ''n'', CHR ''t'', CHR ''f''}"
  proof
    assume "c \<in> {CHR 0x22, CHR ''{'', CHR ''['', CHR ''n'', CHR ''t'', CHR ''f''}"
    then have "\<not> digit_char c \<and> c \<noteq> CHR ''-''" by (elim insertE) (simp_all add: digit_char_def)
    with c(2) show False by blast
  qed
  then have "scan_value h (Suc m) (int_text i @ r) = scan_number h (int_text i @ r)" using c(1) by simp
  then show "scan_value h (Suc m) (canonical_bytes (JInt i) @ r) = Some (canonical_copy (JInt i), r)"
    using scan_integer [OF r] by simp
qed

lemma scan_canonical: "wf_json v \<Longrightarrow> reads_back h v"
proof (induction v rule: wf_json.induct)
  case (1 s)
  show ?case by (rule reads_backI) (simp add: quoted_def scan_escaped)
next
  case (2 xs)
  have each: "reads_back h x" if "x \<in> set xs" for x using 2 that by simp
  show ?case
  proof (rule reads_backI)
    fix m r
    assume n: "length (canonical_bytes (JArr xs)) \<le> m"
    show "scan_value h (Suc m) (canonical_bytes (JArr xs) @ r) = Some (canonical_copy (JArr xs), r)"
    proof (cases xs)
      case (Cons y ys)
      obtain c s where c: "canonical_bytes y = c # s" "\<not> json_space c" "c \<noteq> CHR '']''" by (rule canonical_hd)
      have skip: "skip_space (comma_sep (map canonical_bytes xs) @ t) = comma_sep (map canonical_bytes xs) @ t"
        and no_end: "expect (CHR '']'') (comma_sep (map canonical_bytes xs) @ t) = None" for t
        using c by (simp_all add: Cons comma_sep_Cons)
      have "scan_elements h m (comma_sep (map canonical_bytes xs) @ CHR '']'' # r) = Some (map canonical_copy xs, r)"
        using n Cons by (intro scan_elements_back each) simp_all
      then show ?thesis by (simp add: skip no_end)
    qed simp
  qed
next
  case (3 kvs)
  let ?ms = "sort_key fst kvs"
  have each: "reads_back h (snd kv)" if "kv \<in> set ?ms" for kv using 3 that by (cases kv) auto
  have "distinct (map fst ?ms)" using 3(2) by (simp add: distinct_map inj_on_def)
  then have keys: "reject_duplicate_keys [] (map (\<lambda>(k, v). (k, canonical_copy v)) ?ms)
      = Some (JObj (map (\<lambda>(k, v). (k, canonical_copy v)) ?ms))"
    by (subst reject_distinct) (simp_all add: comp_def case_prod_unfold)
  have shape: "canonical_bytes (JObj kvs) = CHR ''{'' # comma_sep (map member_text ?ms) @ ''}''"
    by (simp add: canonical_bytes_obj del: canonical_bytes.simps)
  show ?case
  proof (rule reads_backI)
    fix m r
    assume n: "length (canonical_bytes (JObj kvs)) \<le> m"
    show "scan_value h (Suc m) (canonical_bytes (JObj kvs) @ r) = Some (canonical_copy (JObj kvs), r)"
      unfolding shape canonical_copy_obj
    proof (cases ?ms)
      case (Cons y ys)
      have skip: "skip_space (comma_sep (map member_text ?ms) @ t) = comma_sep (map member_text ?ms) @ t"
        and no_end: "expect (CHR ''}'') (comma_sep (map member_text ?ms) @ t) = None" for t
        by (simp_all add: Cons comma_sep_Cons member_text_def quoted_def)
      have "scan_members h m (comma_sep (map member_text ?ms) @ CHR ''}'' # r) =
          Some (map (\<lambda>(k, v). (k, canonical_copy v)) ?ms, r)"
        using n shape Cons by (intro scan_members_back each) simp_all
      then show "scan_value h (Suc m) ((CHR ''{'' # comma_sep (map member_text ?ms) @ ''}'') @ r) =
          Some (JObj (map (\<lambda>(k, v). (k, canonical_copy v)) ?ms), r)"
        by (simp add: skip no_end keys)
    qed simp
  qed
next
  case "4_3"
  show ?case by (rule reads_back_int)
qed (auto intro!: reads_backI simp: scan_word_def)

section \<open>Texts\<close>

lemma ascii_word: "c \<in> set (int_text i) \<Longrightarrow> (of_char c :: nat) < 128"
  using digit_char_decimal [of "\<bar>i\<bar>"] by (auto simp: int_text_def digit_char_def split: if_splits)

lemma utf8_int: "utf8_ok (int_text i)"
  using utf8_ok_ascii_append [of "int_text i" "[]"] ascii_word by simp

lemma utf8_comma_sep: "\<forall>s \<in> set ss. utf8_ok s \<Longrightarrow> utf8_ok (comma_sep ss)"
  by (induction ss rule: comma_sep.induct) (auto intro: utf8_ok_append)

lemma utf8_canonical: "wf_json v \<Longrightarrow> utf8_ok (canonical_bytes v)"
proof (induction v rule: wf_json.induct)
  case (2 xs)
  then show ?case by (auto intro!: utf8_ok_append utf8_comma_sep)
next
  case (3 kvs)
  then have "utf8_ok (member_text kv)" if "kv \<in> set kvs" for kv
    using that by (cases kv) (auto simp: member_text_def intro!: utf8_ok_append utf8_quoted)
  then show ?case
    unfolding canonical_bytes_obj by (auto intro!: utf8_ok_append utf8_comma_sep)
next
  case "4_3"
  show ?case by (simp add: utf8_int)
qed (simp_all add: utf8_quoted)

lemma canonical_text_ok: "wf_json v \<Longrightarrow> text_ok (canonical_bytes v)"
proof -
  assume "wf_json v"
  then have "utf8_ok (canonical_bytes v)" by (rule utf8_canonical)
  moreover have "\<not> starts_with_bom (canonical_bytes v)"
    by (rule canonical_hd [of v]) (auto simp: starts_with_bom_def)
  ultimately show ?thesis by (simp add: text_ok_def)
qed

lemma loads_canonical: "wf_json v \<Longrightarrow> loads h (canonical_bytes v) = Some (canonical_copy v)"
  using reads_backD [OF scan_canonical, of v "Suc (length (canonical_bytes v))" "[]"]
    skip_canonical [of v "[]"] by (simp add: loads_def canonical_text_ok scan_text_def)

section \<open>Canonical copies\<close>

lemma map_fst_canonical: "map fst (map (\<lambda>(k, v). (k, f v)) kvs) = map fst kvs"
  by (simp add: comp_def case_prod_unfold)

lemma sorted_sort_members: "sort_key fst (map (\<lambda>(k, v). (k, f v)) (sort_key fst kvs)) = map (\<lambda>(k, v). (k, f v)) (sort_key fst kvs)"
  by (intro sort_key_id_if_sorted) (simp add: map_fst_canonical del: map_map)

lemma canonical_copy_idem [simp]: "canonical_copy (canonical_copy v) = canonical_copy v"
proof (induction v rule: canonical_copy.induct)
  case (2 kvs)
  have "canonical_copy (canonical_copy (JObj kvs)) =
      JObj (map (\<lambda>(k, v). (k, canonical_copy v)) (map (\<lambda>(k, v). (k, canonical_copy v)) (sort_key fst kvs)))"
    unfolding canonical_copy_obj sorted_sort_members ..
  also have "map (\<lambda>(k, v). (k, canonical_copy v)) (map (\<lambda>(k, v). (k, canonical_copy v)) (sort_key fst kvs)) =
      map (\<lambda>(k, v). (k, canonical_copy v)) (sort_key fst kvs)"
    using 2 by (force simp: case_prod_unfold)
  finally show ?case unfolding canonical_copy_obj .
qed auto

lemma canonical_bytes_copy [simp]: "canonical_bytes (canonical_copy v) = canonical_bytes v"
proof (induction v rule: canonical_copy.induct)
  case (2 kvs)
  have eq: "map member_text (map (\<lambda>(k, v). (k, canonical_copy v)) (sort_key fst kvs)) = map member_text (sort_key fst kvs)"
    using 2 by (force simp: member_text_def)
  show ?case
    unfolding canonical_copy_obj canonical_bytes_obj sorted_sort_members eq ..
qed (auto simp: comp_def cong: map_cong)

lemma wf_canonical_copy [simp]: "wf_json (canonical_copy v) = wf_json v"
proof (induction v rule: canonical_copy.induct)
  case (2 kvs)
  have "distinct (map fst (sort_key fst kvs)) = distinct (map fst kvs)"
    by (metis distinct_map distinct_sort set_sort)
  then show ?case using 2 by (force simp: canonical_copy_obj map_fst_canonical simp del: canonical_copy.simps map_map)
qed auto

lemma canonical_bytes_inject:
  assumes "wf_json v" and "wf_json w" and "canonical_bytes v = canonical_bytes w"
  shows "canonical_copy v = canonical_copy w"
  using loads_canonical [of v] loads_canonical [of w] assms by (metis option.inject)

end
