(* ===== verification/Json_Bound.thy ===== *)
theory Json_Bound
  imports Json_Round
begin

text \<open>
  The scanner on arbitrary texts: it consumes what it reads, so the bound on nested calls that
  \<open>scan_text\<close> passes is always enough, and the values it returns are well formed.
\<close>

section \<open>The bound on nested calls\<close>

lemma expect_length: "expect c s = Some r \<Longrightarrow> length s = Suc (length r)"
  by (cases s) (auto split: if_splits)

lemma skip_length: "length (skip_space s) \<le> length s"
  by (simp add: skip_space_def length_dropWhile_le)

lemma scan_string_length: "scan_string s = Some (t, r) \<Longrightarrow> length r < length s"
proof (induction s arbitrary: t r rule: scan_string.induct)
  case (1 s)
  show ?case
  proof (cases s)
    case (Cons c s1)
    from 1(3) consider "r = s1" | t' s2 u where "c = CHR 0x5C" "scan_escape s1 = Some (t', s2)" "scan_string s2 = Some (u, r)"
      | u where "scan_string s1 = Some (u, r)" "c \<noteq> CHR 0x22" "c \<noteq> CHR 0x5C" "\<not> (of_char c :: nat) < 32"
      unfolding Cons by (subst (asm) scan_string.simps) (auto split: if_splits option.splits)
    then show ?thesis
    proof cases
      case 2
      then have "length r < length s2" using 1(1) [OF Cons] by auto
      then show ?thesis using scan_escape_length [OF 2(2)] Cons by simp
    next
      case 3
      then have "length r < length s1" using 1(2) [OF Cons] by auto
      then show ?thesis using Cons by simp
    qed (simp add: Cons)
  qed (use 1(3) in \<open>simp add: scan_string.simps\<close>)
qed

lemma scan_number_length: "scan_number h s = Some (v, r) \<Longrightarrow> length r < length s"
proof -
  assume s: "scan_number h s = Some (v, r)"
  obtain neg s1 where sign: "scan_sign s = (neg, s1)" by (cases "scan_sign s")
  then have "length s1 \<le> length s" by (auto simp: scan_sign_def split: list.splits if_splits)
  moreover have "integer_digits s1 \<noteq> []" "length r \<le> length s1 - length (integer_digits s1)"
    using s sign by (auto simp: scan_number_def Let_def split: if_splits)
  moreover have "length (integer_digits s1) \<le> length s1"
    by (auto simp: integer_digits_def length_takeWhile_le split: list.splits)
  ultimately show ?thesis by (cases "integer_digits s1") auto
qed

lemma scan_word_length: "scan_word w u s = Some (v, r) \<Longrightarrow> w \<noteq> [] \<Longrightarrow> length r < length s"
  by (cases s) (auto simp: scan_word_def split: if_splits)

lemma skip_trans: "length s < k \<Longrightarrow> length (skip_space s) < k"
  using skip_length [of s] by simp

lemma case_option_Some:
  "(case x of None \<Rightarrow> z | Some a \<Rightarrow> f a) = Some y \<longleftrightarrow> (\<exists>a. x = Some a \<and> f a = Some y) \<or> (x = None \<and> z = Some y)"
  by (cases x) auto

lemma scan_members_Some:
  "scan_members h (Suc n) s = Some (kvs, r) \<longleftrightarrow>
     (\<exists>s1 k s2 s3 v s4. expect (CHR 0x22) s = Some s1 \<and> scan_string s1 = Some (k, s2)
        \<and> expect (CHR '':'') (skip_space s2) = Some s3 \<and> scan_value h n (skip_space s3) = Some (v, s4)
        \<and> (expect (CHR ''}'') (skip_space s4) = Some r \<and> kvs = [(k, v)]
          \<or> expect (CHR ''}'') (skip_space s4) = None
            \<and> (\<exists>s5 kvs'. expect (CHR '','') (skip_space s4) = Some s5
                \<and> scan_members h n (skip_space s5) = Some (kvs', r) \<and> kvs = (k, v) # kvs')))"
  by (simp add: bind_eq_Some_conv case_option_Some) blast

lemma scan_elements_Some:
  "scan_elements h (Suc n) s = Some (vs, r) \<longleftrightarrow>
     (\<exists>v s1. scan_value h n s = Some (v, s1)
        \<and> (expect (CHR '']'') (skip_space s1) = Some r \<and> vs = [v]
          \<or> expect (CHR '']'') (skip_space s1) = None
            \<and> (\<exists>s2 vs'. expect (CHR '','') (skip_space s1) = Some s2
                \<and> scan_elements h n (skip_space s2) = Some (vs', r) \<and> vs = v # vs')))"
  by (simp add: bind_eq_Some_conv case_option_Some) blast

text \<open>A value that is no container does not depend on the bound.\<close>

definition scan_atom :: "(string \<Rightarrow> json option) \<Rightarrow> string \<Rightarrow> (json \<times> string) option" where
  "scan_atom h s =
     (if hd s = CHR 0x22 then map_option (\<lambda>(t, r). (JStr t, r)) (scan_string (tl s))
      else if hd s = CHR ''n'' then scan_word ''null'' JNull s
      else if hd s = CHR ''t'' then scan_word ''true'' (JBool True) s
      else if hd s = CHR ''f'' then scan_word ''false'' (JBool False) s
      else scan_number h s)"

lemma scan_value_Some:
  "scan_value h (Suc n) (c # s) = Some (v, r) \<longleftrightarrow>
     (if c = CHR ''{'' then
        expect (CHR ''}'') (skip_space s) = Some r \<and> v = JObj []
        \<or> expect (CHR ''}'') (skip_space s) = None
          \<and> (\<exists>kvs. scan_members h n (skip_space s) = Some (kvs, r) \<and> reject_duplicate_keys [] kvs = Some v)
      else if c = CHR ''['' then
        expect (CHR '']'') (skip_space s) = Some r \<and> v = JArr []
        \<or> expect (CHR '']'') (skip_space s) = None
          \<and> (\<exists>vs. scan_elements h n (skip_space s) = Some (vs, r) \<and> v = JArr vs)
      else scan_atom h (c # s) = Some (v, r))"
proof -
  consider "c = CHR ''{''" | "c = CHR ''[''" | "c \<noteq> CHR ''{''" "c \<noteq> CHR ''[''" by blast
  then show ?thesis
  proof cases
    case 1
    then show ?thesis by (simp add: bind_eq_Some_conv case_option_Some) blast
  next
    case 2
    then show ?thesis by (simp add: case_option_Some) blast
  next
    case 3
    then have "scan_value h (Suc n) (c # s) = scan_atom h (c # s)" by (simp add: scan_atom_def)
    with 3 show ?thesis by simp
  qed
qed

lemma scan_atom_length: "scan_atom h (c # s) = Some (v, r) \<Longrightarrow> length r < length (c # s)"
  by (auto simp: scan_atom_def dest: scan_word_length scan_number_length scan_string_length split: if_splits)

lemma skip_expect_length: "expect c (skip_space s) = Some r \<Longrightarrow> length r < length s"
  using expect_length [of c "skip_space s" r] skip_length [of s] by simp

lemma scan_lengths:
  "scan_value h n s = Some (v, r) \<Longrightarrow> length r < length s"
  "scan_members h n s = Some (kvs, r) \<Longrightarrow> length r < length s"
  "scan_elements h n s = Some (vs, r) \<Longrightarrow> length r < length s"
proof (induction n arbitrary: s v r kvs vs)
  case (Suc n)
  {
    case 1
    then obtain c t where s: "s = c # t" by (cases s) auto
    from 1 [unfolded s scan_value_Some] consider "expect (CHR ''}'') (skip_space t) = Some r"
      | kvs where "scan_members h n (skip_space t) = Some (kvs, r)" | "expect (CHR '']'') (skip_space t) = Some r"
      | vs where "scan_elements h n (skip_space t) = Some (vs, r)" | "scan_atom h (c # t) = Some (v, r)"
      by (auto split: if_splits)
    then show ?case
      using skip_length [of t] by cases (auto simp: s dest!: Suc.IH(2,3) skip_expect_length scan_atom_length)
  next
    case 2
    then show ?case
      unfolding scan_members_Some
      using skip_length
      by (auto dest!: Suc.IH(1,2) skip_expect_length expect_length scan_string_length)
        (smt (verit, best) dual_order.strict_trans less_Suc_eq order_less_le_trans)+
  next
    case 3
    then show ?case
      unfolding scan_elements_Some
      using skip_length
      by (auto dest!: Suc.IH(1,3) skip_expect_length) (meson dual_order.strict_trans order_less_le_trans)+
  }
qed simp_all

text \<open>A scan needs no larger bound than the number of bytes it consumes.\<close>

lemma scan_bound:
  "scan_value h n s = Some (v, r) \<Longrightarrow> length s \<le> length r + m \<Longrightarrow> scan_value h m s = Some (v, r)"
  "scan_members h n s = Some (kvs, r) \<Longrightarrow> length s \<le> length r + m \<Longrightarrow> scan_members h m s = Some (kvs, r)"
  "scan_elements h n s = Some (vs, r) \<Longrightarrow> length s \<le> length r + m \<Longrightarrow> scan_elements h m s = Some (vs, r)"
proof (induction n arbitrary: s v r kvs vs m)
  case (Suc n)
  {
    case 1
    then obtain c t where s: "s = c # t" by (cases s) auto
    obtain m' where m: "m = Suc m'" using scan_lengths(1) [OF 1(1)] 1(2) by (cases m) auto
    have "length (skip_space t) \<le> length r + m'" using 1(2) skip_length [of t] by (simp add: s m)
    then have more: "scan_members h n (skip_space t) = Some (x, r) \<Longrightarrow> scan_members h m' (skip_space t) = Some (x, r)"
      "scan_elements h n (skip_space t) = Some (y, r) \<Longrightarrow> scan_elements h m' (skip_space t) = Some (y, r)" for x y
      by (blast intro: Suc.IH(2,3))+
    show ?case
      using 1(1) unfolding s m scan_value_Some by (smt (verit) more)
  next
    case 2
    obtain m' where m: "m = Suc m'" using scan_lengths(2) [OF 2(1)] 2(2) by (cases m) auto
    from 2(1) obtain s1 k s2 s3 u s4 where *: "expect (CHR 0x22) s = Some s1" "scan_string s1 = Some (k, s2)"
      "expect (CHR '':'') (skip_space s2) = Some s3" "scan_value h n (skip_space s3) = Some (u, s4)"
      and tail: "expect (CHR ''}'') (skip_space s4) = Some r \<and> kvs = [(k, u)]
          \<or> expect (CHR ''}'') (skip_space s4) = None
            \<and> (\<exists>s5 kvs'. expect (CHR '','') (skip_space s4) = Some s5
                \<and> scan_members h n (skip_space s5) = Some (kvs', r) \<and> kvs = (k, u) # kvs')"
      unfolding scan_members_Some by blast
    have len: "length s = Suc (length s1)" "length s2 < length s1" "length s3 < length s2"
      "length (skip_space s3) \<le> length s3"
      using expect_length [OF *(1)] scan_string_length [OF *(2)] skip_expect_length [OF *(3)] skip_length by auto
    have rest: "length r < length s4" using tail scan_lengths(2) skip_length
      by (metis dual_order.strict_trans order_less_le_trans skip_expect_length)
    have v: "scan_value h m' (skip_space s3) = Some (u, s4)"
      using *(4) by (rule Suc.IH(1)) (use len rest 2(2) m in simp)
    have more: "scan_members h m' (skip_space s5) = Some (kvs', r)"
      if "expect (CHR '','') (skip_space s4) = Some s5" "scan_members h n (skip_space s5) = Some (kvs', r)" for s5 kvs'
      using that(2)
    proof (rule Suc.IH(2))
      show "length (skip_space s5) \<le> length r + m'"
        using skip_expect_length [OF that(1)] scan_lengths(1) [OF *(4)] len 2(2) m skip_length [of s5] by simp
    qed
    show ?case
      unfolding m scan_members_Some using * v tail more by blast
  next
    case 3
    obtain m' where m: "m = Suc m'" using scan_lengths(3) [OF 3(1)] 3(2) by (cases m) auto
    from 3(1) obtain u s1 where *: "scan_value h n s = Some (u, s1)"
      and tail: "expect (CHR '']'') (skip_space s1) = Some r \<and> vs = [u]
          \<or> expect (CHR '']'') (skip_space s1) = None
            \<and> (\<exists>s2 vs'. expect (CHR '','') (skip_space s1) = Some s2
                \<and> scan_elements h n (skip_space s2) = Some (vs', r) \<and> vs = u # vs')"
      unfolding scan_elements_Some by blast
    have rest: "length r < length s1" using tail scan_lengths(3) skip_length
      by (metis dual_order.strict_trans order_less_le_trans skip_expect_length)
    have v: "scan_value h m' s = Some (u, s1)"
      using * by (rule Suc.IH(1)) (use rest 3(2) m in simp)
    have more: "scan_elements h m' (skip_space s2) = Some (vs', r)"
      if "expect (CHR '','') (skip_space s1) = Some s2" "scan_elements h n (skip_space s2) = Some (vs', r)" for s2 vs'
      using that(2)
    proof (rule Suc.IH(3))
      show "length (skip_space s2) \<le> length r + m'"
        using skip_expect_length [OF that(1)] scan_lengths(1) [OF *] 3(2) m skip_length [of s2] by simp
    qed
    show ?case
      unfolding m scan_elements_Some using * v tail more by blast
  }
qed simp_all

lemma scan_value_bound:
  "(\<exists>n. scan_value h n s = Some x) \<longleftrightarrow> scan_value h (Suc (length s)) s = Some x"
  using scan_bound(1) by (cases x) (metis le_SucI le_add2 add_Suc_right)

section \<open>What the reader returns is well formed\<close>

lemma utf8_ok_drop_ascii: "utf8_ok (t @ s) \<Longrightarrow> \<forall>c \<in> set t. (of_char c :: nat) < 128 \<Longrightarrow> utf8_ok s"
  by (simp add: utf8_ok_ascii_append)

lemma utf8_skip: "utf8_ok s \<Longrightarrow> utf8_ok (skip_space s)"
  by (induction s) (auto simp: skip_space_def json_space_def)

lemma utf8_expect: "utf8_ok s \<Longrightarrow> expect c s = Some r \<Longrightarrow> (of_char c :: nat) < 128 \<Longrightarrow> utf8_ok r"
  by (cases s) (auto split: if_splits)

lemma base64_digits:
  fixes n :: nat
  shows "n = 4096 * (n div 4096) + 64 * (n div 64 mod 64) + n mod 64"
    and "n = 262144 * (n div 262144) + 4096 * (n div 4096 mod 64) + 64 * (n div 64 mod 64) + n mod 64"
proof -
  have low: "n mod 64 + 64 * (n div 64) = n" for n :: nat by (rule mod_mult_div_eq)
  have steps: "n div 4096 = n div 64 div 64" "n div 262144 = n div 4096 div 64"
    by (simp_all add: div_mult2_eq [symmetric])
  show first: "n = 4096 * (n div 4096) + 64 * (n div 64 mod 64) + n mod 64"
    using low [of n] low [of "n div 64"] steps(1) by linarith
  show "n = 262144 * (n div 262144) + 4096 * (n div 4096 mod 64) + 64 * (n div 64 mod 64) + n mod 64"
    using low [of "n div 4096"] first steps(2) by linarith
qed

lemma utf8_three:
  assumes "0x800 \<le> n" and "n < 0x10000" and "\<not> high_surrogate n" and "\<not> low_surrogate n"
  shows "utf8_from 0 0x80 0xBF (map char_of [0xE0 + n div 4096, 0x80 + n div 64 mod 64, 0x80 + n mod 64])"
proof -
  define a b c where "a = n div 4096" and "b = n div 64 mod 64" and "c = n mod 64"
  then have n: "n = 4096 * a + 64 * b + c" and small: "b < 64" "c < 64" "a < 16"
    using assms(2) base64_digits(1) [of n] by (simp, simp_all)
  have "a = 0 \<Longrightarrow> 32 \<le> b" using assms(1) n small by linarith
  moreover have "a = 13 \<Longrightarrow> b < 32"
    using assms(3,4) n small by (auto simp: high_surrogate_def low_surrogate_def)
  ultimately show ?thesis
    using small by (auto simp: utf8_lead_def numeral_2_eq_2 a_def [symmetric] b_def [symmetric] c_def [symmetric])
qed

lemma utf8_four:
  assumes "0x10000 \<le> (n :: nat)" and "n < 0x110000"
  shows "utf8_from 0 0x80 0xBF
    (map char_of [0xF0 + n div 262144, 0x80 + n div 4096 mod 64, 0x80 + n div 64 mod 64, 0x80 + n mod 64])"
proof -
  define a b c d where "a = n div 262144" and "b = n div 4096 mod 64" and "c = n div 64 mod 64" and "d = n mod 64"
  then have n: "n = 262144 * a + 4096 * b + 64 * c + d" and small: "b < 64" "c < 64" "d < 64" "a < 5"
    using assms(2) base64_digits(2) [of n] by (simp, simp_all)
  have "a = 0 \<Longrightarrow> 16 \<le> b" and "a = 4 \<Longrightarrow> b < 16" using assms n small by linarith+
  then show ?thesis
    using small by (auto simp: utf8_lead_def numeral_3_eq_3 a_def [symmetric] b_def [symmetric] c_def [symmetric] d_def [symmetric])
qed

lemma utf8_encode_ok:
  assumes "n < 0x110000" and "\<not> high_surrogate n" and "\<not> low_surrogate n"
  shows "utf8_ok (utf8_encode n)"
proof -
  consider "n < 0x80" | "0x80 \<le> n" "n < 0x800" | "0x800 \<le> n" "n < 0x10000" | "0x10000 \<le> n" by linarith
  then show ?thesis
  proof cases
    case 2
    then have "2 \<le> n div 64" "n div 64 \<le> 31" by simp_all
    then show ?thesis using 2 by (simp add: utf8_ok_def utf8_encode_def utf8_lead_def)
  next
    case 3
    then have "utf8_encode n = map char_of [0xE0 + n div 4096, 0x80 + n div 64 mod 64, 0x80 + n mod 64]"
      by (simp add: utf8_encode_def)
    then show ?thesis unfolding utf8_ok_def using utf8_three [OF 3 assms(2,3)] by metis
  next
    case 4
    then have "utf8_encode n =
        map char_of [0xF0 + n div 262144, 0x80 + n div 4096 mod 64, 0x80 + n div 64 mod 64, 0x80 + n mod 64]"
      by (simp add: utf8_encode_def)
    then show ?thesis unfolding utf8_ok_def using utf8_four [OF 4 assms(1)] by metis
  qed (simp add: utf8_encode_def)
qed

lemma hex_value_bounds: "hex_value c = Some n \<Longrightarrow> n < 16 \<and> (of_char c :: nat) < 128"
  by (auto simp: hex_value_def Let_def split: if_splits)

lemma scan_hex4_ok: "scan_hex4 s = Some (n, r) \<Longrightarrow> utf8_ok s \<Longrightarrow> n < 65536 \<and> utf8_ok r"
  by (induction s rule: scan_hex4.induct) (auto simp: bind_eq_Some_conv dest!: hex_value_bounds)

lemma scan_unicode_ok:
  assumes "scan_unicode s = Some (t, r)" and "utf8_ok s"
  shows "utf8_ok t \<and> utf8_ok r"
proof -
  obtain n s1 where n: "scan_hex4 s = Some (n, s1)" using assms(1) by (auto simp: scan_unicode_def bind_eq_Some_conv)
  then have ok: "n < 65536" "utf8_ok s1" using scan_hex4_ok assms(2) by blast+
  show ?thesis
  proof (cases "high_surrogate n")
    case True
    then obtain b u s2 m where s1: "s1 = b # u # s2" "b = CHR 0x5C" "u = CHR ''u''" "scan_hex4 s2 = Some (m, r)"
      and m: "low_surrogate m" "t = utf8_encode (0x10000 + (n - 0xD800) * 1024 + (m - 0xDC00))"
      using assms(1) n by (auto simp: scan_unicode_def bind_eq_Some_conv split: list.splits if_splits)
    then have "utf8_ok r" using ok(2) scan_hex4_ok by auto
    moreover have "utf8_ok t"
      unfolding m(2) using True m(1)
      by (intro utf8_encode_ok) (auto simp: high_surrogate_def low_surrogate_def)
    ultimately show ?thesis by simp
  next
    case False
    then show ?thesis
      using assms(1) n ok utf8_encode_ok [of n] by (auto simp: scan_unicode_def bind_eq_Some_conv split: if_splits)
  qed
qed

lemma scan_escape_ok: "scan_escape s = Some (t, r) \<Longrightarrow> utf8_ok s \<Longrightarrow> utf8_ok t \<and> utf8_ok r"
  by (auto simp: scan_escape_def simple_escape_def dest: scan_unicode_ok split: list.splits if_splits)

lemma scan_string_ok:
  "scan_string s = Some (t, r) \<Longrightarrow> utf8_from k lo hi s \<Longrightarrow> 128 \<le> lo \<Longrightarrow> utf8_from k lo hi t \<and> utf8_ok r"
proof (induction s arbitrary: k lo hi t r rule: scan_string.induct)
  case (1 s)
  obtain c s1 where s: "s = c # s1" using 1(3) by (subst (asm) scan_string.simps) (auto split: list.splits)
  consider "c = CHR 0x22" "t = []" "r = s1"
    | t' s2 u where "c = CHR 0x5C" "scan_escape s1 = Some (t', s2)" "scan_string s2 = Some (u, r)" "t = t' @ u"
    | u where "scan_string s1 = Some (u, r)" "c \<noteq> CHR 0x22" "c \<noteq> CHR 0x5C" "\<not> (of_char c :: nat) < 32" "t = c # u"
    using 1(3) unfolding s by (subst (asm) scan_string.simps) (auto split: if_splits option.splits)
  then show ?case
  proof cases
    case 1
    then have "k = 0 \<and> utf8_ok s1" using 1 s \<open>utf8_from k lo hi s\<close> \<open>128 \<le> lo\<close> by (cases k) (auto simp: utf8_zero)
    then show ?thesis using 1 by simp
  next
    case 2
    then have k: "k = 0 \<and> utf8_ok s1" using s 1(4,5) by (cases k) (auto simp: utf8_zero)
    then have "utf8_ok t'" "utf8_ok s2" using scan_escape_ok 2(2) by blast+
    moreover from this have "utf8_ok u \<and> utf8_ok r"
      using 1(1) [OF s _ 2(1,2), of t' s2 u r 0 128 191] 2 by (simp add: utf8_zero)
    ultimately show ?thesis using k 2(4) by (simp add: utf8_zero utf8_ok_append)
  next
    case 3
    show ?thesis
    proof (cases k)
      case 0
      then obtain k' lo' hi' where "utf8_lead (of_char c) = Some (k', lo', hi')" "utf8_from k' lo' hi' s1"
        using 1(4) s by (auto split: option.splits)
      then show ?thesis using 1(2) [OF s _ _ _ 3(1)] 3 0 utf8_lead_lo by simp
    next
      case (Suc j)
      then show ?thesis using 1(2) [OF s _ _ _ 3(1), of j 128 191] 3 1(4) s by simp
    qed
  qed
qed

lemma utf8_string: "scan_string s = Some (t, r) \<Longrightarrow> utf8_ok s \<Longrightarrow> utf8_ok t \<and> utf8_ok r"
  using scan_string_ok [of s t r 0 128 191] by (simp add: utf8_zero)

lemma utf8_drop: "utf8_ok s \<Longrightarrow> \<forall>c \<in> set (take n s). (of_char c :: nat) < 128 \<Longrightarrow> utf8_ok (drop n s)"
  using utf8_ok_drop_ascii [of "take n s" "drop n s"] by simp

lemma utf8_drop_part:
  "utf8_ok s \<Longrightarrow> take (length t) s = t \<Longrightarrow> \<forall>c \<in> set t. (of_char c :: nat) < 128 \<Longrightarrow> utf8_ok (drop (length t) s)"
  by (rule utf8_drop) simp_all

lemma digits_ascii: "digit_char c \<Longrightarrow> (of_char c :: nat) < 128"
  by (simp add: digit_char_def)

lemma utf8_integer: "utf8_ok s \<Longrightarrow> utf8_ok (drop (length (integer_digits s)) s)"
proof (erule utf8_drop_part)
  show "take (length (integer_digits s)) s = integer_digits s"
    by (auto simp: integer_digits_def takeWhile_eq_take [symmetric] split: list.splits)
  show "\<forall>c \<in> set (integer_digits s). (of_char c :: nat) < 128"
    by (auto simp: integer_digits_def digits_ascii dest: set_takeWhileD split: list.splits if_splits)
qed

lemma utf8_fraction: "utf8_ok s \<Longrightarrow> utf8_ok (drop (length (fraction_part s)) s)"
proof (erule utf8_drop_part)
  show "take (length (fraction_part s)) s = fraction_part s"
    by (auto simp: fraction_part_def Let_def takeWhile_eq_take [symmetric] split: list.splits)
  show "\<forall>c \<in> set (fraction_part s). (of_char c :: nat) < 128"
    by (auto simp: fraction_part_def Let_def digits_ascii dest: set_takeWhileD split: list.splits if_splits)
qed

lemma take_exponent_sign: "take (length (exponent_sign r)) r = exponent_sign r"
  by (simp add: exponent_sign_def split: list.splits)

lemma take_exponent: "take (length (exponent_part s)) s = exponent_part s"
proof (cases s)
  case (Cons c r)
  let ?ds = "takeWhile digit_char (drop (length (exponent_sign r)) r)"
  have "take (length (exponent_sign r @ ?ds)) r = exponent_sign r @ ?ds"
    by (simp add: take_add take_exponent_sign takeWhile_eq_take [symmetric])
  then show ?thesis by (simp add: Cons exponent_part_def Let_def)
qed (simp add: exponent_part_def)

lemma exponent_chars: "c \<in> set (exponent_part s) \<Longrightarrow> c \<in> {CHR ''e'', CHR ''E'', CHR ''-'', CHR ''+''} \<or> digit_char c"
proof (cases s)
  case (Cons d r)
  assume "c \<in> set (exponent_part s)"
  moreover have "c \<in> set (exponent_sign r) \<Longrightarrow> c \<in> {CHR ''-'', CHR ''+''}"
    by (auto simp: exponent_sign_def split: list.splits if_splits)
  moreover have "c \<in> set (takeWhile digit_char t) \<Longrightarrow> digit_char c" for t by (auto dest: set_takeWhileD)
  ultimately show ?thesis unfolding Cons exponent_part_def Let_def by (auto split: if_split_asm)
qed (simp add: exponent_part_def)

lemma utf8_exponent: "utf8_ok s \<Longrightarrow> utf8_ok (drop (length (exponent_part s)) s)"
  by (erule utf8_drop_part [OF _ take_exponent]) (auto dest!: exponent_chars digits_ascii)

lemma scan_number_ok:
  assumes "scan_number h s = Some (v, r)" and "utf8_ok s" and "\<And>t w. h t = Some w \<Longrightarrow> wf_json w"
  shows "wf_json v \<and> utf8_ok r"
proof -
  obtain neg s1 where sign: "scan_sign s = (neg, s1)" by (cases "scan_sign s")
  then have "utf8_ok s1" using assms(2) by (auto simp: scan_sign_def split: list.splits if_splits)
  then have rest: "utf8_ok (drop (length (exponent_part t)) t)"
    if "t = drop (length (fraction_part u)) u" "u = drop (length (integer_digits s1)) s1" for t u
    using that utf8_exponent utf8_fraction utf8_integer by metis
  show ?thesis
    using assms(1,3) rest [OF refl refl] sign
    by (auto simp: scan_number_def Let_def split: if_splits)
qed

lemma scan_word_ok:
  "scan_word w u s = Some (v, r) \<Longrightarrow> utf8_ok s \<Longrightarrow> \<forall>c \<in> set w. (of_char c :: nat) < 128 \<Longrightarrow> v = u \<and> utf8_ok r"
  by (auto simp: scan_word_def intro: utf8_drop split: if_splits)

lemma scan_atom_ok:
  assumes "scan_atom h (c # s) = Some (v, r)" and "utf8_ok (c # s)" and "\<And>t w. h t = Some w \<Longrightarrow> wf_json w"
  shows "wf_json v \<and> utf8_ok r"
proof -
  consider t where "c = CHR 0x22" "scan_string s = Some (t, r)" "v = JStr t"
    | w u where "scan_word w u (c # s) = Some (v, r)" "\<forall>d \<in> set w. (of_char d :: nat) < 128" "wf_json u"
    | "scan_number h (c # s) = Some (v, r)"
    using assms(1) by (auto simp: scan_atom_def split: if_splits)
  then show ?thesis
  proof cases
    case 1
    then show ?thesis using assms(2) utf8_string by simp
  next
    case 2
    then show ?thesis using scan_word_ok [OF 2(1) assms(2) 2(2)] by auto
  qed (rule scan_number_ok [OF _ assms(2,3)])
qed

lemma reject_duplicate_keys_Some:
  "reject_duplicate_keys acc kvs = Some v \<Longrightarrow> distinct (map fst acc) \<Longrightarrow>
     v = JObj (acc @ kvs) \<and> distinct (map fst (acc @ kvs))"
proof (induction acc kvs rule: reject_duplicate_keys.induct)
  case (2 acc k v kvs)
  then show ?case by (force split: if_splits)
qed simp

lemma scan_ok:
  assumes "\<And>t w. h t = Some w \<Longrightarrow> wf_json w"
  shows "scan_value h n s = Some (v, r) \<Longrightarrow> utf8_ok s \<Longrightarrow> wf_json v \<and> utf8_ok r"
    and "scan_members h n s = Some (kvs, r) \<Longrightarrow> utf8_ok s \<Longrightarrow>
      (\<forall>kv \<in> set kvs. utf8_ok (fst kv) \<and> wf_json (snd kv)) \<and> utf8_ok r"
    and "scan_elements h n s = Some (vs, r) \<Longrightarrow> utf8_ok s \<Longrightarrow> (\<forall>w \<in> set vs. wf_json w) \<and> utf8_ok r"
proof (induction n arbitrary: s v r kvs vs)
  case (Suc n)
  {
    case 1
    then obtain c t where s: "s = c # t" by (cases s) auto
    from 1(1) consider "c = CHR ''{''" "expect (CHR ''}'') (skip_space t) = Some r" "v = JObj []"
      | kvs where "c = CHR ''{''" "scan_members h n (skip_space t) = Some (kvs, r)" "reject_duplicate_keys [] kvs = Some v"
      | "c = CHR ''[''" "expect (CHR '']'') (skip_space t) = Some r" "v = JArr []"
      | vs where "c = CHR ''[''" "scan_elements h n (skip_space t) = Some (vs, r)" "v = JArr vs"
      | "scan_atom h (c # t) = Some (v, r)"
      unfolding s scan_value_Some by (auto split: if_splits)
    then show ?case
    proof cases
      case 2
      then show ?thesis
        using Suc.IH(2) 1(2) s reject_duplicate_keys_Some [OF 2(3)] by (auto simp: utf8_skip)
    next
      case 4
      then show ?thesis using Suc.IH(3) 1(2) s by (auto simp: utf8_skip)
    next
      case 5
      then show ?thesis using scan_atom_ok 1(2) s assms by blast
    qed (use 1(2) s in \<open>auto intro: utf8_expect utf8_skip\<close>)
  next
    case 2
    then obtain s1 k s2 s3 u s4 where *: "expect (CHR 0x22) s = Some s1" "scan_string s1 = Some (k, s2)"
      "expect (CHR '':'') (skip_space s2) = Some s3" "scan_value h n (skip_space s3) = Some (u, s4)"
      and tail: "expect (CHR ''}'') (skip_space s4) = Some r \<and> kvs = [(k, u)]
          \<or> expect (CHR ''}'') (skip_space s4) = None
            \<and> (\<exists>s5 kvs'. expect (CHR '','') (skip_space s4) = Some s5
                \<and> scan_members h n (skip_space s5) = Some (kvs', r) \<and> kvs = (k, u) # kvs')"
      unfolding scan_members_Some by blast
    have "utf8_ok s1" using utf8_expect [OF 2(2) *(1)] by simp
    then have k: "utf8_ok k" "utf8_ok s2" using utf8_string [OF *(2)] by blast+
    then have "utf8_ok s3" using utf8_expect [OF utf8_skip *(3)] by simp
    then have u: "wf_json u" "utf8_ok s4" using Suc.IH(1) [OF *(4)] utf8_skip by blast+
    then have end_ok: "utf8_ok t" if "expect c (skip_space s4) = Some t" "(of_char c :: nat) < 128" for c t
      using utf8_expect [OF utf8_skip that] by simp
    from tail show ?case
    proof (elim disjE exE conjE)
      fix s5 kvs'
      assume "expect (CHR '','') (skip_space s4) = Some s5" "scan_members h n (skip_space s5) = Some (kvs', r)"
        "kvs = (k, u) # kvs'"
      then show ?thesis using k u Suc.IH(2) [of "skip_space s5" kvs' r] end_ok [of "CHR '',''" s5] utf8_skip by auto
    qed (use k u end_ok [of "CHR ''}''" r] in auto)
  next
    case 3
    then obtain u s1 where *: "scan_value h n s = Some (u, s1)"
      and tail: "expect (CHR '']'') (skip_space s1) = Some r \<and> vs = [u]
          \<or> expect (CHR '']'') (skip_space s1) = None
            \<and> (\<exists>s2 vs'. expect (CHR '','') (skip_space s1) = Some s2
                \<and> scan_elements h n (skip_space s2) = Some (vs', r) \<and> vs = u # vs')"
      unfolding scan_elements_Some by blast
    have u: "wf_json u" "utf8_ok s1" using Suc.IH(1) [OF *] 3(2) by blast+
    then have end_ok: "utf8_ok t" if "expect c (skip_space s1) = Some t" "(of_char c :: nat) < 128" for c t
      using utf8_expect [OF utf8_skip that] by simp
    from tail show ?case
    proof (elim disjE exE conjE)
      fix s2 vs'
      assume "expect (CHR '','') (skip_space s1) = Some s2" "scan_elements h n (skip_space s2) = Some (vs', r)"
        "vs = u # vs'"
      then show ?thesis using u Suc.IH(3) [of "skip_space s2" vs' r] end_ok [of "CHR '',''" s2] utf8_skip by auto
    qed (use u end_ok [of "CHR '']''" r] in auto)
  }
qed simp_all

lemma loads_wf:
  assumes "loads h raw = Some v" and "\<And>t w. h t = Some w \<Longrightarrow> wf_json w"
  shows "wf_json v"
proof -
  have ok: "utf8_ok (skip_space raw)"
    using assms(1) by (intro utf8_skip) (simp add: loads_def text_ok_def split: if_splits)
  obtain r where v: "scan_value h (Suc (length raw)) (skip_space raw) = Some (v, r)"
    using assms(1) by (auto simp: loads_def scan_text_def bind_eq_Some_conv simp del: scan_value.simps split: if_splits)
  have "wf_json v \<and> utf8_ok r"
    by (rule scan_ok(1) [OF _ v ok]) (rule assms(2))
  then show ?thesis ..
qed

end
