(* ===== verification/Json_Lines.thy ===== *)
theory Json_Lines
  imports Json_Bound
begin

text \<open>
  JSON Lines: the canonical records of a list of values are read back as their canonical
  copies, and every record read is well formed.
\<close>

lemma no_control_int: "(of_char c :: nat) < 32 \<Longrightarrow> c \<notin> set (int_text i)"
proof
  assume "(of_char c :: nat) < 32" "c \<in> set (int_text i)"
  moreover from this have "c \<in> set (decimal \<bar>i\<bar>)" by (auto simp: int_text_def split: if_splits)
  then have "digit_char c" using digit_char_decimal [of "\<bar>i\<bar>"] by simp
  ultimately show False by (simp add: digit_char_def)
qed

lemma no_control_escape: "(of_char c :: nat) < 32 \<Longrightarrow> c \<notin> set (escape_char d)"
proof
  assume c: "(of_char c :: nat) < 32" and "c \<in> set (escape_char d)"
  then have "32 \<le> (of_char c :: nat)"
    by (auto simp: escape_char_def Let_def of_char_hex_digit split: if_splits)
  with c show False by simp
qed

lemma no_control_quoted: "(of_char c :: nat) < 32 \<Longrightarrow> c \<notin> set (quoted s)"
  using no_control_escape [of c] by (auto simp: quoted_def)

lemma no_control_comma_sep: "c \<noteq> CHR '','' \<Longrightarrow> \<forall>s \<in> set ss. c \<notin> set s \<Longrightarrow> c \<notin> set (comma_sep ss)"
  by (induction ss rule: comma_sep.induct) auto

lemma no_control_canonical:
  "(of_char c :: nat) < 32 \<Longrightarrow> c \<notin> set (canonical_bytes v)"
proof (induction v rule: wf_json.induct)
  case (2 xs)
  then have "c \<notin> set (comma_sep (map canonical_bytes xs))" by (intro no_control_comma_sep) auto
  then show ?case using 2 by auto
next
  case (3 kvs)
  have "c \<notin> set (member_text kv)" if "kv \<in> set kvs" for kv
    using 3 that by (cases kv) (auto simp: member_text_def no_control_quoted)
  then have "c \<notin> set (comma_sep (map member_text (sort_key fst kvs)))"
    using 3 by (intro no_control_comma_sep) auto
  then show ?case unfolding canonical_bytes_obj using 3 by auto
next
  case "4_3"
  then show ?case by (simp add: no_control_int)
qed (auto simp: no_control_quoted)

lemma split_lines_append: "CHR 0x0A \<notin> set l \<Longrightarrow> split_lines (l @ CHR 0x0A # s) = l # split_lines s"
  by (induction l) auto

lemma split_lines_single: "CHR 0x0A \<notin> set l \<Longrightarrow> split_lines l = [l]"
  by (induction l) auto

lemma canonical_jsonl_simps [simp]:
  "canonical_jsonl [] = []" "canonical_jsonl (v # vs) = canonical_bytes v @ CHR 0x0A # canonical_jsonl vs"
  by (simp_all add: canonical_jsonl_def)

lemma canonical_jsonl_append: "canonical_jsonl (vs @ ws) = canonical_jsonl vs @ canonical_jsonl ws"
  by (simp add: canonical_jsonl_def)

lemma canonical_jsonl_last: "vs \<noteq> [] \<Longrightarrow> last (canonical_jsonl vs) = CHR 0x0A \<and> canonical_jsonl vs \<noteq> []"
proof (induction vs)
  case (Cons v vs)
  then show ?case by (cases "vs = []") auto
qed simp

lemma split_canonical:
  "vs \<noteq> [] \<Longrightarrow> split_lines (butlast (canonical_jsonl vs)) = map canonical_bytes vs"
proof (induction vs)
  case (Cons v vs)
  have "CHR 0x0A \<notin> set (canonical_bytes v)" by (rule no_control_canonical) simp
  then show ?case
    using Cons canonical_jsonl_last [of vs]
    by (cases "vs = []") (auto simp: split_lines_append split_lines_single butlast_append)
qed simp

lemma record_lines_canonical: "record_lines (canonical_jsonl vs) = map canonical_bytes vs"
  using split_canonical [of vs] canonical_jsonl_last [of vs] by (cases "vs = []") (auto simp: record_lines_def)

lemma loads_all_canonical:
  "\<forall>v \<in> set vs. wf_json v \<Longrightarrow> loads_all h (map canonical_bytes vs) = Some (map canonical_copy vs)"
  by (induction vs) (auto simp: loads_canonical)

lemma text_ok_jsonl: "\<forall>v \<in> set vs. wf_json v \<Longrightarrow> text_ok (canonical_jsonl vs)"
proof -
  assume wf: "\<forall>v \<in> set vs. wf_json v"
  then have "utf8_ok (canonical_jsonl vs)"
    by (induction vs) (auto intro!: utf8_ok_append utf8_canonical)
  moreover have "\<not> starts_with_bom (canonical_jsonl vs)"
  proof (cases vs)
    case (Cons v ws)
    show ?thesis by (rule canonical_hd [of v]) (auto simp: Cons starts_with_bom_def)
  qed (simp add: starts_with_bom_def)
  ultimately show ?thesis by (simp add: text_ok_def)
qed

lemma load_canonical_jsonl:
  assumes "\<forall>v \<in> set vs. wf_json v" and "require_nonempty \<Longrightarrow> vs \<noteq> []"
  shows "load_jsonl h require_nonempty f (canonical_jsonl vs) = Some (map canonical_copy vs)"
proof -
  have "CHR 0x0D \<notin> set (canonical_jsonl vs)"
  proof (induction vs)
    case (Cons v vs)
    then show ?case using no_control_canonical [of "CHR 0x0D" v] by simp
  qed simp
  moreover have "[] \<notin> set (map canonical_bytes vs)"
  proof
    assume "[] \<in> set (map canonical_bytes vs)"
    then obtain v where v: "canonical_bytes v = []" unfolding set_map by (metis imageE)
    show False by (rule canonical_hd [of v]) (simp add: v)
  qed
  moreover have "canonical_jsonl vs \<noteq> [] \<Longrightarrow> last (canonical_jsonl vs) = CHR 0x0A"
    using canonical_jsonl_last [of vs] by (cases vs) auto
  moreover have "require_nonempty \<Longrightarrow> map canonical_bytes vs \<noteq> []" using assms(2) by simp
  ultimately show ?thesis
    unfolding load_jsonl_def record_lines_canonical loads_all_canonical [OF assms(1)]
    using text_ok_jsonl [OF assms(1)] by (simp del: set_map map_is_Nil_conv) blast
qed

lemma loads_all_wf:
  assumes "\<And>t w. h t = Some w \<Longrightarrow> wf_json w"
  shows "loads_all h ls = Some vs \<Longrightarrow> v \<in> set vs \<Longrightarrow> wf_json v"
  by (induction ls arbitrary: vs) (auto simp: bind_eq_Some_conv intro: loads_wf [OF _ assms])

lemma load_jsonl_wf:
  assumes "load_jsonl h e f raw = Some vs" and "\<And>t w. h t = Some w \<Longrightarrow> wf_json w" and "v \<in> set vs"
  shows "wf_json v"
  using assms(1) loads_all_wf [OF assms(2) _ assms(3)] by (auto simp: load_jsonl_def split: if_splits)

end
