(* ===== verification/Ledger_Bytes.thy ===== *)
theory Ledger_Bytes
  imports Transaction Json_Lines
begin

text \<open>
  The bytes of a ledger: an event and its canonical record determine each other, so reading the
  bytes of validated events gives the events back, and what is read back is exactly what was
  written.
\<close>

section \<open>Objects up to the order of their members\<close>

lemma sort_members_unique:
  assumes "distinct (map fst xs)" and "distinct (map fst ys)" and "set xs = set ys"
  shows "sort_key fst xs = sort_key fst ys"
proof (rule map_sorted_distinct_set_unique [of fst])
  have "inj_on fst (set xs)" using assms(1) by (simp add: distinct_map)
  then show "inj_on fst (set (sort_key fst xs) \<union> set (sort_key fst ys))" using assms(3) by simp
  show "distinct (map fst (sort_key fst xs))" "distinct (map fst (sort_key fst ys))"
    using assms(1,2) by (metis distinct_map distinct_sort set_sort)+
qed (use assms(3) in simp_all)

definition same_members :: "(string \<times> json) list \<Rightarrow> (string \<times> json) list \<Rightarrow> bool" where
  "same_members xs ys \<longleftrightarrow> distinct (map fst xs) \<and> distinct (map fst ys) \<and> set xs = set ys"

lemma same_members_sort: "distinct (map fst xs) \<Longrightarrow> same_members xs (sort_key fst xs)"
  by (simp add: same_members_def) (metis distinct_map distinct_sort set_sort)

lemma same_members_map_of: "same_members xs ys \<Longrightarrow> map_of xs = map_of ys"
  by (simp add: same_members_def map_of_inject_set)

lemma same_members_field: "same_members xs ys \<Longrightarrow> field (JObj xs) k = field (JObj ys) k"
  by (simp add: field_def same_members_map_of)

lemma same_members_get:
  "same_members xs ys \<Longrightarrow> sget (JObj xs) k = sget (JObj ys) k"
  "same_members xs ys \<Longrightarrow> iget (JObj xs) k = iget (JObj ys) k"
  by (simp_all add: sget_def iget_def same_members_field)

lemma same_members_exactly:
  assumes "same_members xs ys"
  shows "has_exactly (JObj xs) ks = has_exactly (JObj ys) ks"
proof -
  have "set (map fst xs) = set (map fst ys)" using assms by (auto simp: same_members_def)
  moreover from this have "has_field (JObj xs) = has_field (JObj ys)" by (simp add: has_field_def fun_eq_iff)
  ultimately show ?thesis by (simp add: has_exactly_def list_all_iff)
qed

lemma same_members_bytes: "same_members xs ys \<Longrightarrow> canonical_bytes (JObj xs) = canonical_bytes (JObj ys)"
  unfolding canonical_bytes_obj by (simp add: same_members_def sort_members_unique [of xs ys])

lemma same_members_without:
  assumes "same_members xs ys"
  shows "canonical_bytes (without k (JObj xs)) = canonical_bytes (without k (JObj ys))"
  unfolding without_def obj_items.simps
  by (rule same_members_bytes) (use assms in \<open>auto simp: same_members_def distinct_map_filter\<close>)

lemma validate_same_members:
  assumes "same_members xs ys"
  shows "validate_event E mission p (JObj xs) = validate_event E mission p (JObj ys)"
  by (simp add: validate_event_def valid_envelope_def valid_position_def valid_request_names_def
      valid_digests_def decision_identity_def same_members_field [OF assms] same_members_get [OF assms]
      same_members_exactly [OF assms] same_members_without [OF assms] sha256_def)

lemma event_of_same_members:
  assumes "same_members xs ys"
  shows "event_of (JObj xs) = event_of (JObj ys)"
  by (simp add: event_of_def same_members_get [OF assms] same_members_field [OF assms])

section \<open>Events and their records\<close>

definition event_items :: "event \<Rightarrow> (string \<times> json) list" where
  "event_items e = unsigned_items e @ [(''event_sha256'', JStr (e_sha e))]"

lemma event_json_items: "event_json e = JObj (event_items e)"
  by (simp add: event_json_def event_items_def)

lemma event_keys: "map fst (event_items e) = event_fields"
  by (simp add: event_items_def unsigned_items_def event_fields_def)

lemma distinct_fields: "distinct event_fields"
  by (simp add: event_fields_def)

text \<open>An event whose values can be written and whose payload has its keys in order.\<close>

definition closed_event :: "event \<Rightarrow> bool" where
  "closed_event e \<longleftrightarrow> wf_json (event_json e) \<and> canonical_copy (e_payload e) = e_payload e"

lemma canonical_event:
  assumes "canonical_copy (e_payload e) = e_payload e"
  shows "canonical_copy (event_json e) = JObj (sort_key fst (event_items e))"
proof -
  have "map (\<lambda>(k, v). (k, canonical_copy v)) (event_items e) = event_items e"
    using assms by (simp add: event_items_def unsigned_items_def)
  then show ?thesis by (simp add: event_json_items)
qed

lemma event_members: "same_members (event_items e) (sort_key fst (event_items e))"
  by (rule same_members_sort) (simp only: event_keys distinct_fields)

lemma event_of_json [simp]: "event_of (event_json e) = e"
  by (simp add: event_of_def event_json_def unsigned_items_def sget_def iget_def field_def)

lemma event_of_record:
  "canonical_copy (e_payload e) = e_payload e \<Longrightarrow> event_of (canonical_copy (event_json e)) = e"
  using event_of_same_members [OF event_members, of e] event_of_json [of e]
  by (simp only: canonical_event event_json_items [symmetric])

lemma validate_record:
  "canonical_copy (e_payload e) = e_payload e \<Longrightarrow>
     validate_event E mission p (canonical_copy (event_json e)) = validate_event E mission p (event_json e)"
  using validate_same_members [OF event_members, of E mission p e]
  by (simp only: canonical_event event_json_items [symmetric])

lemma validated_record:
  assumes "validate_event E mission p j = Inr u" and "wf_json j" and "canonical_copy j = j"
  shows "canonical_copy (event_json (event_of j)) = j" and "closed_event (event_of j)"
proof -
  obtain kvs where j: "j = JObj kvs" using assms(1) by (cases j) (auto simp: validate_event_def)
  let ?e = "event_of j"
  have distinct: "distinct (map fst kvs)" using assms(2) j by simp
  have checks: "valid_envelope mission j" "valid_position E p j" "valid_request_names j" "valid_digests E p j"
    using assms(1) by (simp_all add: validate_event_def)
  have str: "is_str v \<Longrightarrow> v = JStr (str_of v)" for v by (cases v) simp_all
  have vals: "field j k = v" if "(k, v) \<in> set (event_items ?e)" for k v
    using that checks str
    by (auto simp: event_items_def unsigned_items_def event_of_def valid_envelope_def valid_position_def
        valid_request_names_def valid_digests_def v_uuid_def v_time_def v_sha_def sget_def iget_def)
  have keys: "set (map fst kvs) = set event_fields"
    using checks(1) by (auto simp: valid_envelope_def has_exactly_def list_all_iff has_field_def j)
  have members: "set kvs = set (event_items ?e)"
  proof (intro equalityI subsetI)
    fix kv
    assume kv: "kv \<in> set kvs"
    then have "fst kv \<in> set (map fst (event_items ?e))" using keys event_keys by force
    then obtain v where v: "(fst kv, v) \<in> set (event_items ?e)" by auto
    moreover have "field j (fst kv) = snd kv"
      using map_of_is_SomeI [OF distinct, of "fst kv" "snd kv"] kv by (simp add: field_def j)
    ultimately show "kv \<in> set (event_items ?e)" using vals by (metis prod.collapse)
  next
    fix kv
    assume kv: "kv \<in> set (event_items ?e)"
    then have "fst kv \<in> set event_fields" using event_keys by (metis image_eqI set_map)
    then obtain v where v: "(fst kv, v) \<in> set kvs" using keys by force
    then have "v = snd kv" using distinct vals [of "fst kv" "snd kv"] kv by (simp add: field_def j)
    then show "kv \<in> set kvs" using v by simp
  qed
  have payload: "canonical_copy (e_payload ?e) = e_payload ?e"
  proof -
    have "sort_key fst (map (\<lambda>(k, v). (k, canonical_copy v)) kvs) = kvs" using assms(3) j by simp
    moreover have "(''payload'', e_payload ?e) \<in> set kvs" unfolding members by (simp add: event_items_def unsigned_items_def)
    ultimately have "(''payload'', e_payload ?e) \<in> set (map (\<lambda>(k, v). (k, canonical_copy v)) kvs)"
      by (metis set_sort)
    then obtain w where "e_payload ?e = canonical_copy w" by auto
    then show ?thesis by simp
  qed
  have same: "same_members kvs (event_items ?e)"
    using distinct members by (simp add: same_members_def event_keys distinct_fields)
  have "sort_key fst kvs = kvs"
  proof -
    have "canonical_copy j = JObj (map (\<lambda>(k, v). (k, canonical_copy v)) (sort_key fst kvs))"
      unfolding j canonical_copy_obj ..
    then have "kvs = map (\<lambda>(k, v). (k, canonical_copy v)) (sort_key fst kvs)" using assms(3) j by simp
    then have "map fst kvs = map fst (sort_key fst kvs)" by (metis map_fst_canonical)
    then show ?thesis by (intro sort_key_id_if_sorted) simp
  qed
  then have "sort_key fst (event_items ?e) = kvs"
    using sort_members_unique [of "event_items ?e" kvs] same by (simp add: same_members_def)
  then show "canonical_copy (event_json ?e) = j" using canonical_event [OF payload] j by simp
  have "wf_json (event_json ?e)" using assms(2) members by (simp add: event_json_items j event_keys distinct_fields)
  then show "closed_event ?e" using payload by (simp add: closed_event_def)
qed

section \<open>Ledgers\<close>

text \<open>A ledger that reads back: every event validates against the one before it.\<close>

fun chained :: "prims \<Rightarrow> string \<Rightarrow> event option \<Rightarrow> event list \<Rightarrow> bool" where
  "chained E mission p [] \<longleftrightarrow> True"
| "chained E mission p (e # es) \<longleftrightarrow>
     validate_event E mission p (event_json e) = Inr () \<and> closed_event e \<and> chained E mission (Some e) es"

definition record_of :: "event \<Rightarrow> json" where
  "record_of e = canonical_copy (event_json e)"

lemma validate_chain_records:
  "chained E mission p es \<Longrightarrow> validate_chain E mission p (map record_of es) = Inr es"
  by (induction es arbitrary: p) (simp_all add: record_of_def closed_event_def validate_record event_of_record)

lemma validated_chain:
  assumes "validate_chain E mission p js = Inr es" and "\<forall>j \<in> set js. wf_json j \<and> canonical_copy j = j"
  shows "chained E mission p es" and "js = map record_of es"
proof -
  have "chained E mission p es \<and> js = map record_of es"
    using assms
  proof (induction js arbitrary: p es)
    case (Cons j js)
    then obtain es' where v: "validate_event E mission p j = Inr ()" "es = event_of j # es'"
      and tail: "validate_chain E mission (Some (event_of j)) js = Inr es'"
      by (auto split: sum.splits)
    have j: "wf_json j" "canonical_copy j = j" using Cons.prems(2) by simp_all
    note rec = validated_record [OF v(1) j]
    have "validate_event E mission p (event_json (event_of j)) = Inr ()"
      using validate_record [of "event_of j" E mission p] rec v(1) by (simp add: closed_event_def)
    moreover have "chained E mission (Some (event_of j)) es' \<and> js = map record_of es'"
      using Cons.IH [OF tail] Cons.prems(2) by simp
    ultimately show ?case using rec v(2) by (simp add: record_of_def)
  qed simp
  then show "chained E mission p es" "js = map record_of es" by simp_all
qed

lemma jsonl_copies: "canonical_jsonl (map canonical_copy vs) = canonical_jsonl vs"
  by (induction vs) simp_all

lemma jsonl_records: "canonical_jsonl (map record_of es) = canonical_jsonl (map event_json es)"
  using jsonl_copies [of "map event_json es"] by (simp add: record_of_def [abs_def] comp_def)

lemma chained_wf: "chained E mission p es \<Longrightarrow> e \<in> set es \<Longrightarrow> closed_event e"
  by (induction es arbitrary: p) auto

text \<open>What the reader of fractional numbers must return: a value that can be written.\<close>

definition reader_ok :: "prims \<Rightarrow> bool" where
  "reader_ok E \<longleftrightarrow> (\<forall>t w. parse_float E t = Some w \<longrightarrow> wf_json w)"

lemma loads_all_length: "loads_all h ls = Some vs \<Longrightarrow> length vs = length ls"
  by (induction ls arbitrary: vs) (auto simp: bind_eq_Some_conv)

lemma read_written:
  assumes "chained E mission None es" and "ne \<Longrightarrow> es \<noteq> []"
  shows "events_from_bytes E (Some mission) ne (canonical_jsonl (map event_json es)) = Inr es"
proof -
  let ?content = "canonical_jsonl (map event_json es)"
  have "\<forall>v \<in> set (map event_json es). wf_json v" using chained_wf [OF assms(1)] by (auto simp: closed_event_def)
  then have parsed: "load_jsonl (parse_float E) ne True ?content = Some (map record_of es)"
    using load_canonical_jsonl [of "map event_json es" ne "parse_float E" True] assms(2) by (simp add: record_of_def [abs_def] comp_def)
  have "?content \<noteq> [] \<Longrightarrow> last ?content = CHR 0x0A" using canonical_jsonl_last [of "map event_json es"] by (cases es) auto
  then show ?thesis
    using parsed assms(2) validate_chain_records [OF assms(1)]
    by (auto simp: events_from_bytes_def jsonl_records load_records_def simp del: canonical_jsonl_simps)
qed

lemma written_read:
  assumes "events_from_bytes E (Some mission) ne content = Inr es" and "reader_ok E"
  shows "content = canonical_jsonl (map event_json es)" and "chained E mission None es" and "ne \<Longrightarrow> es \<noteq> []"
proof -
  obtain js where js: "load_jsonl (parse_float E) ne True content = Some js" "content = canonical_jsonl js"
    and load: "load_records E mission ne js = Inr es"
    using assms(1) by (auto simp: events_from_bytes_def split: if_splits option.splits)
  have wf: "\<forall>j \<in> set js. wf_json j" using load_jsonl_wf [OF js(1)] assms(2) by (auto simp: reader_ok_def)
  have nonempty: "ne \<Longrightarrow> js \<noteq> []"
    using js(1) by (auto simp: load_jsonl_def dest!: loads_all_length split: if_splits)
  have "Some (map canonical_copy js) = Some js"
    using load_canonical_jsonl [OF wf nonempty, where h = "parse_float E" and f = True] js by simp
  then have "map canonical_copy js = map id js" by simp
  then have "\<forall>j \<in> set js. canonical_copy j = j" unfolding map_eq_conv by simp
  with wf have canonical: "\<forall>j \<in> set js. wf_json j \<and> canonical_copy j = j" by blast
  have chain: "validate_chain E mission None js = Inr es"
    using load by (auto simp: load_records_def split: sum.splits if_splits)
  note read = validated_chain [OF chain canonical]
  show "chained E mission None es" by (rule read(1))
  show "content = canonical_jsonl (map event_json es)" using js(2) read(2) by (simp add: jsonl_records)
  show "ne \<Longrightarrow> es \<noteq> []" using load by (auto simp: load_records_def split: sum.splits if_splits)
qed

end
