(* ===== verification/Txn_Inv.thy ===== *)
theory Txn_Inv
  imports Ledger_Bytes Safety
begin

text \<open>
  Transactions over the bytes of a ledger: what an open transaction holds is what its bytes
  say, appending keeps that, and every answer is an event of the ledger.
\<close>

section \<open>Chains\<close>

definition last_of :: "event option \<Rightarrow> event list \<Rightarrow> event option" where
  "last_of p es = (if es = [] then p else Some (last es))"

lemma last_of_simps [simp]: "last_of p [] = p" "last_of p (e # es) = last_of (Some e) es"
  by (simp_all add: last_of_def)

lemma last_event_of: "last_event es = last_of None es"
  by (simp add: last_event_def last_of_def)

lemma chained_append [simp]:
  "chained E mission p (es @ fs) \<longleftrightarrow> chained E mission p es \<and> chained E mission (last_of p es) fs"
  by (induction es arbitrary: p) auto

lemma chained_position:
  "chained E mission p es \<Longrightarrow> i < length es \<Longrightarrow> e_sequence (es ! i) = next_sequence p + int i"
proof (induction es arbitrary: p i)
  case (Cons e es)
  have e: "e_sequence e = next_sequence p"
    using Cons.prems(1) by (simp add: validate_event_def valid_position_def event_json_def unsigned_items_def field_def)
  show ?case
  proof (cases i)
    case (Suc j)
    then show ?thesis using Cons.IH [of "Some e" j] Cons.prems e by (simp add: next_sequence_def)
  qed (simp add: e)
qed simp

lemma chained_sequenced: "chained E mission None es \<Longrightarrow> sequenced es"
  unfolding sequenced_def
  by (intro nth_equalityI) (auto simp: chained_position next_sequence_def)

lemma event_json_fields:
  "field (event_json e) ''event_id'' = JStr (e_id e)" "field (event_json e) ''mission_id'' = JStr (e_mission e)"
  "field (event_json e) ''sequence'' = JInt (e_sequence e)" "field (event_json e) ''timestamp'' = JStr (e_time e)"
  "field (event_json e) ''kind'' = JStr (e_kind e)" "field (event_json e) ''actor'' = JStr (e_actor e)"
  "field (event_json e) ''idempotency_key'' = JStr (e_key e)" "field (event_json e) ''payload'' = e_payload e"
  "field (event_json e) ''previous_event_sha256'' = JStr (e_previous e)"
  "field (event_json e) ''event_sha256'' = JStr (e_sha e)"
  by (simp_all add: event_json_def unsigned_items_def field_def)

lemma without_sha: "without ''event_sha256'' (event_json e) = unsigned_json e"
  by (simp add: without_def event_json_def unsigned_json_def unsigned_items_def)

text \<open>What a validated event promises, read off its fields.\<close>

lemma validated_event:
  assumes "validate_event E mission p (event_json e) = Inr u"
  shows "is_uuid (e_id e)" "is_uuid (e_mission e)" "e_mission e = mission" "e_sequence e = next_sequence p"
    and "parse_iso E (e_time e) \<noteq> None" "later E p (e_time e)"
    and "safe_kind (e_kind e)" "safe_actor (e_actor e)" "safe_key (e_key e)"
    and "e_previous e = head_of p" "is_sha256 (e_sha e)" "sha256 E (unsigned_json e) = e_sha e"
    and "validate_payload E (e_kind e) (e_payload e) = Inr ()"
  using assms
  by (auto simp: validate_event_def valid_envelope_def valid_position_def valid_request_names_def
      valid_digests_def event_json_fields sget_def v_uuid_def v_time_def v_sha_def without_sha)

section \<open>Values of an event are text\<close>

definition ascii :: "string \<Rightarrow> bool" where
  "ascii s \<longleftrightarrow> (\<forall>c \<in> set s. (of_char c :: nat) < 128)"

lemma ascii_utf8: "ascii s \<Longrightarrow> utf8_ok s"
  using utf8_ok_ascii_append [of s "[]"] by (simp add: ascii_def)

lemma ascii_append: "ascii (s @ t) \<longleftrightarrow> ascii s \<and> ascii t"
  by (auto simp: ascii_def)

lemma ascii_char:
  "c \<le> CHR 0x7F \<Longrightarrow> (of_char c :: nat) < 128"
  by (simp add: less_eq_char_def)

lemma ascii_classes:
  "is_digit c \<Longrightarrow> (of_char c :: nat) < 128" "is_lower c \<Longrightarrow> (of_char c :: nat) < 128"
  "is_upper c \<Longrightarrow> (of_char c :: nat) < 128" "is_hex c \<Longrightarrow> (of_char c :: nat) < 128"
  "is_alnum c \<Longrightarrow> (of_char c :: nat) < 128"
  by (auto simp: is_digit_def is_lower_def is_upper_def is_hex_def is_alnum_def less_eq_char_def)

lemma ascii_hex: "list_all is_hex s \<Longrightarrow> ascii s"
  by (auto simp: ascii_def list_all_iff ascii_classes)

lemma ascii_head_tail:
  "head_tail p q n s \<Longrightarrow> (\<And>c. p c \<Longrightarrow> (of_char c :: nat) < 128) \<Longrightarrow> (\<And>c. q c \<Longrightarrow> (of_char c :: nat) < 128) \<Longrightarrow> ascii s"
  by (cases s) (auto simp: ascii_def list_all_iff)

lemma ascii_names: "safe_kind s \<Longrightarrow> ascii s" "safe_actor s \<Longrightarrow> ascii s" "safe_key s \<Longrightarrow> ascii s"
  unfolding safe_kind_def safe_actor_def safe_key_def
  by (erule ascii_head_tail; auto simp: ascii_classes)+

lemma ascii_uuid: "is_uuid s \<Longrightarrow> ascii s"
proof -
  assume u: "is_uuid s"
  then have len: "length s = 36" by (simp add: is_uuid_def)
  have drop_Cons: "drop n s = s ! n # drop (Suc n) s" if "n < 36" for n
    using that len by (simp add: Cons_nth_drop_Suc)
  have split: "drop n s = take k (drop n s) @ drop (n + k) s" for n k
    by (metis append_take_drop_id drop_drop add.commute)
  have "s = take 8 s @ s ! 8 # take 4 (drop 9 s) @ s ! 13 # take 4 (drop 14 s) @ s ! 18
      # take 4 (drop 19 s) @ s ! 23 # drop 24 s" (is "s = ?pieces")
    using split [of 0 8] split [of 9 4] split [of 14 4] split [of 19 4]
      drop_Cons [of 8] drop_Cons [of 13] drop_Cons [of 18] drop_Cons [of 23] by simp
  moreover have "ascii ?pieces"
  proof -
    have "ascii (take 8 s)" "ascii (take 4 (drop 9 s))" "ascii (take 4 (drop 14 s))"
      "ascii (take 4 (drop 19 s))" "ascii (drop 24 s)"
      using u by (simp_all add: is_uuid_def ascii_hex)
    moreover have "s ! 8 = CHR ''-''" "s ! 13 = CHR ''-''" "s ! 18 = CHR ''-''" "s ! 23 = CHR ''-''"
      using u by (simp_all add: is_uuid_def)
    ultimately show ?thesis by (simp add: ascii_def ball_Un)
  qed
  ultimately show "ascii s" by (simp only:)
qed

lemma ascii_genesis: "ascii genesis_sha256"
  by (simp add: genesis_sha256_def ascii_def)

definition text_head :: "event option \<Rightarrow> bool" where
  "text_head p \<longleftrightarrow> ascii (head_of p)"

lemma text_head_simps: "text_head None" "is_sha256 (e_sha e) \<Longrightarrow> text_head (Some e)"
  by (simp_all add: text_head_def head_of_def ascii_genesis is_sha256_def ascii_hex)

lemma validated_closed:
  assumes "validate_event E mission p (event_json e) = Inr u" and "text_head p"
    and "wf_json (e_payload e)" and "canonical_copy (e_payload e) = e_payload e" and "utf8_ok (e_time e)"
  shows "closed_event e"
proof -
  have "ascii (e_id e)" "ascii (e_mission e)" "ascii (e_kind e)" "ascii (e_actor e)" "ascii (e_key e)"
    "ascii (e_previous e)" "ascii (e_sha e)"
    using validated_event [OF assms(1)] assms(2)
    by (simp_all add: ascii_uuid ascii_names text_head_def is_sha256_def ascii_hex)
  note texts = this [THEN ascii_utf8]
  have names: "ascii k" if "k \<in> set event_fields" for k
    using that by (auto simp: event_fields_def ascii_def)
  have "distinct (map fst (event_items e))" by (simp add: event_keys distinct_fields)
  moreover have "utf8_ok (fst kv) \<and> wf_json (snd kv)" if "kv \<in> set (event_items e)" for kv
  proof
    have "fst kv \<in> set event_fields" using that event_keys by (metis image_eqI set_map)
    then show "utf8_ok (fst kv)" using names ascii_utf8 by blast
    show "wf_json (snd kv)"
      using that texts assms(3,5) by (auto simp: event_items_def unsigned_items_def)
  qed
  ultimately show ?thesis using assms(4) by (simp add: closed_event_def event_json_items)
qed

section \<open>Appending\<close>

text \<open>\<open>isoformat\<close> writes text.\<close>

definition clock_text :: "prims \<Rightarrow> bool" where
  "clock_text E \<longleftrightarrow> (\<forall>i. utf8_ok (format_iso E i))"

definition writable :: "request \<Rightarrow> bool" where
  "writable q \<longleftrightarrow> wf_json (q_payload q) \<and> canonical_copy (q_payload q) = q_payload q"

lemma wf_field: "wf_json j \<Longrightarrow> wf_json (field j k)"
proof (cases j)
  case (JObj kvs)
  assume "wf_json j"
  then show ?thesis
    using JObj by (cases "map_of kvs k") (auto simp: field_def dest!: map_of_SomeD)
qed (simp_all add: field_def)

lemma normalized_writable: "normalize_requests E js = Inr qs \<Longrightarrow> \<forall>j \<in> set js. wf_json j \<Longrightarrow> \<forall>q \<in> set qs. writable q"
proof (induction js arbitrary: qs)
  case (Cons j js)
  then obtain q qs' where q: "normalize_event_request E j = Inr q" "normalize_requests E js = Inr qs'" "qs = q # qs'"
    by (auto split: sum.splits)
  have "writable q"
    using q(1) Cons.prems(2) wf_field by (auto simp: normalize_event_request_def writable_def split: sum.splits)
  then show ?case using Cons.IH [OF q(2)] Cons.prems(2) q(3) by simp
qed simp

lemma new_event_fields [simp]:
  "e_kind (new_event E w t n p q) = q_kind q" "e_actor (new_event E w t n p q) = q_actor q"
  "e_key (new_event E w t n p q) = q_key q" "e_payload (new_event E w t n p q) = q_payload q"
  "e_time (new_event E w t n p q) = next_timestamp E (w_clock w n) p"
  "e_mission (new_event E w t n p q) = tx_mission t"
  by (simp_all add: new_event_def seal_def)

lemma admitted:
  assumes "admit_request E w t new p q = Inr e" and "writable q" and "clock_text E" and "text_head p"
  shows "validate_event E (tx_mission t) p (event_json e) = Inr ()" and "closed_event e"
    and "same_request e q" and "e_key e = q_key q"
    and "\<not> legacy_admission_request q" and "\<not> (\<exists>s. tx_state t = Some s \<and> ended (x_status s))"
proof -
  have e: "e = new_event E w t (length new) p q"
    and v: "validate_event E (tx_mission t) p (event_json e) = Inr ()"
    using assms(1) by (auto simp: admit_request_def Let_def split: sum.splits if_splits)
  show "validate_event E (tx_mission t) p (event_json e) = Inr ()" by (rule v)
  show "closed_event e"
    by (rule validated_closed [OF v assms(4)]) (use assms(2,3) in \<open>simp_all add: e writable_def next_timestamp_def clock_text_def\<close>)
  show "same_request e q" "e_key e = q_key q" by (simp_all add: e same_request_def)
  show "\<not> legacy_admission_request q" "\<not> (\<exists>s. tx_state t = Some s \<and> ended (x_status s))"
    using assms(1) by (auto simp: admit_request_def require_admission_schema_def guard_simps split: sum.splits if_splits)
qed

text \<open>An answer stands for its request: it has its key, and its content.\<close>

definition answers :: "request \<Rightarrow> event \<times> bool \<Rightarrow> bool" where
  "answers q r \<longleftrightarrow> e_key (fst r) = q_key q \<and> same_request (fst r) q"

definition keyed_events :: "(string \<times> event) list \<Rightarrow> bool" where
  "keyed_events known \<longleftrightarrow> (\<forall>(k, e) \<in> set known. e_key e = k)"

lemma keyed_by_key: "keyed_events (by_key es)"
  by (auto simp: keyed_events_def by_key_def)

lemma append_loop_ok:
  assumes "append_loop E w t known new p qs = Inr (rs, all)"
    and "\<forall>q \<in> set qs. writable q" and "clock_text E" and "text_head p" and "keyed_events known"
  shows "\<exists>added. all = new @ added \<and> chained E (tx_mission t) p added \<and> list_all2 answers qs rs
    \<and> map fst (filter snd rs) = added \<and> (\<forall>r \<in> set rs. snd r \<or> fst r \<in> snd ` set known \<union> set added)"
  using assms
proof (induction qs arbitrary: known new p rs)
  case (Cons q qs)
  show ?case
  proof (cases "map_of known (q_key q)")
    case None
    then obtain e rs' where e: "admit_request E w t new p q = Inr e"
      and rs': "append_loop E w t ((q_key q, e) # known) (new @ [e]) (Some e) qs = Inr (rs', all)" "rs = (e, True) # rs'"
      using Cons.prems(1) by (auto split: sum.splits)
    have q: "writable q" using Cons.prems(2) by simp
    note ok = admitted [OF e q Cons.prems(3,4)]
    have "text_head (Some e)" using validated_event(11) [OF ok(1)] by (rule text_head_simps)
    moreover have "keyed_events ((q_key q, e) # known)" using ok(4) Cons.prems(5) by (simp add: keyed_events_def)
    ultimately obtain added where "all = (new @ [e]) @ added" "chained E (tx_mission t) (Some e) added"
      "list_all2 answers qs rs'" "map fst (filter snd rs') = added"
      "\<forall>r \<in> set rs'. snd r \<or> fst r \<in> snd ` set ((q_key q, e) # known) \<union> set added"
      using Cons.IH [OF rs'(1)] Cons.prems(2,3) by auto
    then show ?thesis
      using ok(1-4) rs'(2) by (intro exI [of _ "e # added"]) (auto simp: answers_def [of q])
  next
    case (Some old)
    then obtain rs' where "same_request old q" "append_loop E w t known new p qs = Inr (rs', all)" "rs = (old, False) # rs'"
      using Cons.prems(1) by (auto split: sum.splits if_splits)
    moreover have "(q_key q, old) \<in> set known" using Some by (rule map_of_SomeD)
    moreover from this have "e_key old = q_key q" "old \<in> snd ` set known" using Cons.prems(5) by (force simp: keyed_events_def)+
    moreover obtain added where "all = new @ added" "chained E (tx_mission t) p added" "list_all2 answers qs rs'"
      "map fst (filter snd rs') = added" "\<forall>r \<in> set rs'. snd r \<or> fst r \<in> snd ` set known \<union> set added"
      using Cons.IH [OF calculation(2) _ Cons.prems(3-5)] Cons.prems(2) by auto
    ultimately show ?thesis by (intro exI [of _ added]) (simp add: answers_def [of q])
  qed
qed simp

section \<open>What an open transaction holds\<close>

definition txn_ok :: "prims \<Rightarrow> txn \<Rightarrow> bool" where
  "txn_ok E t \<longleftrightarrow>
     chained E (tx_mission t) None (tx_events t)
     \<and> tx_content t = canonical_jsonl (map event_json (tx_events t))
     \<and> (if tx_events t = [] then tx_state t = None
        else \<exists>s. tx_state t = Some s \<and> derive_state E (tx_events t) = Inr s)"

text \<open>The ledger file of a transaction: there is none before the first event.\<close>

definition ledger_file :: "txn \<Rightarrow> string option" where
  "ledger_file t = (if tx_events t = [] then None else Some (tx_content t))"

lemma open_txn_ok:
  assumes "open_txn E mission f = Inr t" and "reader_ok E"
  shows "txn_ok E t" and "f = ledger_file t" and "normalize_uuid mission = Inr (tx_mission t)"
proof -
  obtain mid where mid: "normalize_uuid mission = Inr mid" using assms(1) by (auto simp: open_txn_def split: sum.splits)
  have "txn_ok E t \<and> f = ledger_file t \<and> tx_mission t = mid"
  proof (cases f)
    case None
    then show ?thesis using assms(1) mid by (auto simp: open_txn_def txn_ok_def ledger_file_def)
  next
    case (Some content)
    then obtain es s where es: "events_from_bytes E (Some mid) True content = Inr es" and s: "derive_state E es = Inr s"
      and t: "t = \<lparr>tx_mission = mid, tx_events = es, tx_state = Some s, tx_content = content\<rparr>"
      using assms(1) mid by (auto simp: open_txn_def split: sum.splits)
    show ?thesis using written_read [OF es assms(2)] s Some by (simp add: t txn_ok_def ledger_file_def)
  qed
  then show "txn_ok E t" "f = ledger_file t" "normalize_uuid mission = Inr (tx_mission t)" using mid by simp_all
qed

lemma open_written:
  assumes "txn_ok E t" and "normalize_uuid mission = Inr (tx_mission t)"
  shows "open_txn E mission (ledger_file t) = Inr t"
proof (cases "tx_events t = []")
  case True
  then show ?thesis using assms by (simp add: open_txn_def ledger_file_def txn_ok_def)
next
  case False
  then obtain s where s: "tx_state t = Some s" "derive_state E (tx_events t) = Inr s" using assms(1) by (auto simp: txn_ok_def)
  have "events_from_bytes E (Some (tx_mission t)) True (tx_content t) = Inr (tx_events t)"
    using read_written [of E "tx_mission t" "tx_events t" True] assms(1) False by (simp add: txn_ok_def)
  then show ?thesis using False s assms(2) by (simp add: open_txn_def ledger_file_def)
qed

lemma text_head_chain: "chained E mission p es \<Longrightarrow> text_head p \<Longrightarrow> text_head (last_of p es)"
  by (induction es arbitrary: p) (auto simp: text_head_simps dest: validated_event(11))

lemma append_normalized_ok:
  assumes "append_normalized E w t qs = Inr (rs, t')" and "txn_ok E t" and "\<forall>q \<in> set qs. writable q" and "clock_text E"
  shows "txn_ok E t'" and "tx_mission t' = tx_mission t" and "list_all2 answers qs rs"
    and "tx_events t' = tx_events t @ map fst (filter snd rs)"
    and "\<forall>r \<in> set rs. fst r \<in> set (tx_events t')"
proof -
  obtain new where loop: "append_loop E w t (by_key (tx_events t)) [] (last_event (tx_events t)) qs = Inr (rs, new)"
    using assms(1) by (auto simp: append_normalized_def split: sum.splits if_splits)
  have chain: "chained E (tx_mission t) None (tx_events t)" using assms(2) by (simp add: txn_ok_def)
  have "text_head (last_event (tx_events t))"
    unfolding last_event_of using chain text_head_simps(1) by (rule text_head_chain)
  from append_loop_ok [OF loop assms(3,4) this keyed_by_key]
  have new: "chained E (tx_mission t) (last_of None (tx_events t)) new" "list_all2 answers qs rs"
    "map fst (filter snd rs) = new" "\<forall>r \<in> set rs. snd r \<or> fst r \<in> snd ` set (by_key (tx_events t)) \<union> set new"
    by (auto simp: last_event_of)
  have t': "if new = [] then t' = t else \<exists>s. derive_state E (tx_events t @ new) = Inr s
      \<and> t' = t\<lparr>tx_events := tx_events t @ new, tx_state := Some s,
                 tx_content := tx_content t @ canonical_jsonl (map event_json new)\<rparr>"
    using assms(1) loop by (auto simp: append_normalized_def split: sum.splits if_splits)
  then show events: "tx_events t' = tx_events t @ map fst (filter snd rs)" using new(3) by (auto split: if_splits)
  show "tx_mission t' = tx_mission t" using t' by (auto split: if_splits)
  show "txn_ok E t'"
    using t' assms(2) new(1) by (auto simp: txn_ok_def canonical_jsonl_append split: if_splits)
  show "list_all2 answers qs rs" by (rule new(2))
  have "snd ` set (by_key (tx_events t)) = set (tx_events t)" by (force simp: by_key_def)
  moreover have "fst r \<in> set new" if "r \<in> set rs" "snd r" for r using that new(3) by force
  ultimately show "\<forall>r \<in> set rs. fst r \<in> set (tx_events t')" using new(3,4) events by auto
qed

lemma append_events_ok:
  assumes "append_events E w t js = Inr (rs, t')" and "txn_ok E t" and "\<forall>j \<in> set js. wf_json j" and "clock_text E"
  obtains qs where "normalize_requests E js = Inr qs" and "append_normalized E w t qs = Inr (rs, t')"
    and "txn_ok E t'" and "tx_mission t' = tx_mission t" and "list_all2 answers qs rs"
    and "tx_events t' = tx_events t @ map fst (filter snd rs)" and "\<forall>r \<in> set rs. fst r \<in> set (tx_events t')"
proof -
  obtain qs where qs: "normalize_requests E js = Inr qs" "append_normalized E w t qs = Inr (rs, t')"
    using assms(1) by (auto simp: append_events_def split: if_splits sum.splits)
  show thesis
    using that [OF qs] append_normalized_ok [OF qs(2) assms(2) normalized_writable [OF qs(1) assms(3)] assms(4)] by blast
qed

section \<open>Keys of a ledger\<close>

text \<open>Idempotency keys of a ledger that derives are distinct.\<close>

lemma fold_keys:
  "fold_result (derive_step E events) v es = Inr v' \<Longrightarrow>
     distinct (v_keys v) \<Longrightarrow> v_keys v' = rev (map e_key es) @ v_keys v \<and> distinct (v_keys v')"
proof (induction es arbitrary: v)
  case (Cons e es)
  then obtain u where u: "derive_step E events v e = Inr u" "fold_result (derive_step E events) u es = Inr v'"
    by (auto split: sum.splits)
  then have "v_keys u = e_key e # v_keys v" "e_key e \<notin> set (v_keys v)"
    by (auto simp: derive_step_def split: if_splits sum.splits)
  then have "distinct (v_keys u)" using Cons.prems(2) by simp
  note ih = Cons.IH [OF u(2) this, THEN conjunct1] Cons.IH [OF u(2) this, THEN conjunct2]
  then show ?case using \<open>v_keys u = e_key e # v_keys v\<close> by (intro conjI ih(2)) (simp add: ih(1))
qed simp

lemma derived_distinct_keys: "derive_state E es = Inr s \<Longrightarrow> distinct (map e_key es)"
proof -
  assume "derive_state E es = Inr s"
  then obtain v e rest where "fold_result (derive_step E es) (start_derivation e) es = Inr v" by (rule derived)
  moreover have "v_keys (start_derivation e) = []" by (simp add: start_derivation_def)
  ultimately have keys: "v_keys v = rev (map e_key es) \<and> distinct (v_keys v)"
    using fold_keys by (metis append_Nil2 distinct.simps(1))
  have "distinct (rev (map e_key es))"
    using keys [THEN conjunct2] unfolding keys [THEN conjunct1] .
  then show ?thesis by simp
qed

lemma txn_distinct_keys: "txn_ok E t \<Longrightarrow> distinct (map e_key (tx_events t))"
  using derived_distinct_keys by (cases "tx_events t = []") (auto simp: txn_ok_def)

lemma by_key_lookup:
  "distinct (map e_key es) \<Longrightarrow> e \<in> set es \<Longrightarrow> map_of (by_key es) (e_key e) = Some e"
  by (rule map_of_is_SomeI) (auto simp: by_key_def comp_def distinct_rev rev_map [symmetric])

end
