(* ===== verification/Ledger_Theorems.thy ===== *)
theory Ledger_Theorems
  imports Txn_Inv Lifecycle_Theorems
begin

text \<open>
  What the ledger promises of its bytes: canonical JSON is read back as it was written, a file
  holds exactly the validated events of its mission, appending extends the file and can be
  repeated, and the digest of the last event stands for the whole history.
\<close>

section \<open>Canonical JSON\<close>

text \<open>C28: canonical text is read back: every value that can be written is read from its canonical bytes as
  the same value with its keys in order.\<close>

theorem canonical_round_trip:
  assumes "wf_json v"
  shows "loads h (canonical_bytes v) = Some (canonical_copy v)"
  using assms by (rule loads_canonical)

theorem canonical_round_trip_witness:
  "loads (\<lambda>_. None) (canonical_bytes (JObj [(''b'', JArr [JInt (- 12), JStr [CHR 0x22, CHR 0x0A]]), (''a'', JNull)]))
     = Some (JObj [(''a'', JNull), (''b'', JArr [JInt (- 12), JStr [CHR 0x22, CHR 0x0A]])])"
proof -
  let ?v = "JObj [(''b'', JArr [JInt (- 12), JStr [CHR 0x22, CHR 0x0A]]), (''a'', JNull)]"
  have "wf_json ?v" by code_simp
  moreover have "canonical_copy ?v = JObj [(''a'', JNull), (''b'', JArr [JInt (- 12), JStr [CHR 0x22, CHR 0x0A]])]"
    by code_simp
  ultimately show ?thesis using canonical_round_trip [of ?v "\<lambda>_. None"] by simp
qed

text \<open>C29: every value the strict reader returns has UTF-8 strings and no repeated key, whatever text it reads.\<close>

theorem reader_returns_json:
  assumes "loads (parse_float E) raw = Some v" and "reader_ok E"
  shows "wf_json v"
  using loads_wf [OF assms(1)] assms(2) by (simp add: reader_ok_def)

theorem reader_returns_json_witness: "wf_json (JArr [JInt 7, JObj []])"
proof -
  have "loads (parse_float sample) ''[7 , {}]'' = Some (JArr [JInt 7, JObj []])" by code_simp
  then show ?thesis by (rule reader_returns_json) (simp add: reader_ok_def sample_def)
qed

section \<open>The bytes of a ledger\<close>

text \<open>C30: the bytes of a ledger are accepted exactly when they are the canonical records of a chain of
  validated events, and then these are the events that are read.\<close>

theorem ledger_bytes_exact:
  assumes "reader_ok E"
  shows "events_from_bytes E (Some mission) True content = Inr events \<longleftrightarrow>
    events \<noteq> [] \<and> content = canonical_jsonl (map event_json events) \<and> chained E mission None events"
  using written_read [OF _ assms, of mission True content events] read_written [of E mission events True] by auto

text \<open>A first transaction: two requests on a mission without a ledger.\<close>

definition sample_world :: world where
  "sample_world = \<lparr>w_read_only = False, w_clock = (\<lambda>n. int n + 1), w_fresh = (\<lambda>n. sample_uuid ''event''),
     w_publishes = True\<rparr>"

definition first_requests :: "json list" where
  "first_requests =
     map (\<lambda>e. request_json (e_kind e) (e_actor e) (e_key e) (e_payload e)) [created_event, compiled_event]"

definition new_txn :: txn where
  "new_txn = \<lparr>tx_mission = sample_uuid ''mission'', tx_events = [], tx_state = None, tx_content = []\<rparr>"

lemma new_txn: "open_txn sample (sample_uuid ''mission'') None = Inr new_txn"
  by code_simp

definition compiled_state :: mission where
  "compiled_state = (initial_state (sample_uuid ''mission'') (created_of (e_payload created_event)))
     \<lparr>x_status := Compiled, x_compiled := Some genesis_sha256, x_sequence := 2, x_head := genesis_sha256\<rparr>"

definition first_answer :: "(event \<times> bool) list \<times> txn" where
  "first_answer = projr (append_events sample sample_world new_txn first_requests)"

lemma first_append: "append_events sample sample_world new_txn first_requests = Inr first_answer"
  and first_events: "map e_kind (tx_events (snd first_answer)) = [''mission_created'', ''workflow_compiled'']"
    "map snd (fst first_answer) = [True, True]"
  and first_state: "tx_state (snd first_answer) = Some compiled_state"
    "map e_key (tx_events (snd first_answer)) = [''key-1'', ''key-2'']"
    "map e_time (tx_events (snd first_answer)) = [''1'', ''2'']"
  and first_created: "list_ex (\<lambda>e. e_key e = ''key-1'' \<and> e_kind e = ''mission_created'') (tx_events (snd first_answer))"
proof -
  have "case append_events sample sample_world new_txn first_requests of
      Inl x \<Rightarrow> False
    | Inr (rs, t) \<Rightarrow> map e_kind (tx_events t) = [''mission_created'', ''workflow_compiled''] \<and> map snd rs = [True, True]
        \<and> tx_state t = Some compiled_state \<and> map e_key (tx_events t) = [''key-1'', ''key-2'']
        \<and> map e_time (tx_events t) = [''1'', ''2'']
        \<and> list_ex (\<lambda>e. e_key e = ''key-1'' \<and> e_kind e = ''mission_created'') (tx_events t)"
    by code_simp
  then show "append_events sample sample_world new_txn first_requests = Inr first_answer"
    "map e_kind (tx_events (snd first_answer)) = [''mission_created'', ''workflow_compiled'']"
    "map snd (fst first_answer) = [True, True]"
    "tx_state (snd first_answer) = Some compiled_state"
    "map e_key (tx_events (snd first_answer)) = [''key-1'', ''key-2'']"
    "map e_time (tx_events (snd first_answer)) = [''1'', ''2'']"
    "list_ex (\<lambda>e. e_key e = ''key-1'' \<and> e_kind e = ''mission_created'') (tx_events (snd first_answer))"
    by (auto simp: first_answer_def split: sum.splits)
qed

lemma first_json: "\<forall>j \<in> set first_requests. wf_json j"
  by code_simp

lemma sample_reader: "reader_ok sample"
  by (simp add: reader_ok_def sample_def)

lemma sample_clock_text: "clock_text sample"
  using utf8_ok_ascii_append [of "int_text i" "[]" for i] ascii_word by (simp add: clock_text_def sample_def)

lemma new_txn_ok: "txn_ok sample new_txn" "normalize_uuid (sample_uuid ''mission'') = Inr (tx_mission new_txn)"
  using open_txn_ok [OF new_txn sample_reader] by simp_all

lemma first_txn_ok: "txn_ok sample (snd first_answer)" "tx_mission (snd first_answer) = sample_uuid ''mission''"
proof -
  have "append_events sample sample_world new_txn first_requests = Inr (fst first_answer, snd first_answer)"
    using first_append by simp
  from append_events_ok [OF this new_txn_ok(1) first_json sample_clock_text]
  show "txn_ok sample (snd first_answer)" "tx_mission (snd first_answer) = sample_uuid ''mission''"
    by (auto simp: new_txn_def)
qed

lemma first_chained:
  "chained sample (sample_uuid ''mission'') None (tx_events (snd first_answer))" "tx_events (snd first_answer) \<noteq> []"
  using first_txn_ok first_events by (auto simp: txn_ok_def)

lemma first_bytes:
  "events_from_bytes sample (Some (sample_uuid ''mission'')) True
     (canonical_jsonl (map event_json (tx_events (snd first_answer)))) = Inr (tx_events (snd first_answer))"
  using first_chained by (intro read_written)

theorem ledger_bytes_exact_witness:
  "events_from_bytes sample (Some (sample_uuid ''mission'')) True
     (canonical_jsonl (map event_json (tx_events (snd first_answer)))) = Inr (tx_events (snd first_answer))"
  using ledger_bytes_exact [OF sample_reader] first_chained by blast

section \<open>Histories\<close>

lemma chained_nth:
  "chained E mission p es \<Longrightarrow> i < length es \<Longrightarrow>
     validate_event E mission (if i = 0 then p else Some (es ! (i - 1))) (event_json (es ! i)) = Inr ()"
proof (induction es arbitrary: p i)
  case (Cons e es)
  show ?case
  proof (cases i)
    case (Suc j)
    then show ?thesis using Cons.IH [of "Some e" j] Cons.prems by (cases j) auto
  qed (use Cons.prems in simp)
qed simp

text \<open>C31: a ledger that reads is one history: its events are numbered from one without a gap, each names the
  digest of the event before it, seals its own content and comes strictly later.\<close>

theorem ledger_is_one_history:
  assumes "events_from_bytes E (Some mission) True content = Inr events" and "reader_ok E" and "i < length events"
  shows "e_mission (events ! i) = mission \<and> e_sequence (events ! i) = int i + 1
    \<and> sha256 E (unsigned_json (events ! i)) = e_sha (events ! i)
    \<and> (if i = 0 then e_previous (events ! i) = genesis_sha256
       else e_previous (events ! i) = e_sha (events ! (i - 1))
         \<and> instant E (e_time (events ! (i - 1))) < instant E (e_time (events ! i)))"
proof -
  have chain: "chained E mission None events" using written_read(2) [OF assms(1,2)] .
  note v = validated_event [OF chained_nth [OF chain assms(3)]]
  show ?thesis
    using v chained_position [OF chain assms(3)] by (auto simp: head_of_def later_def next_sequence_def)
qed

theorem ledger_is_one_history_witness:
  "e_previous (tx_events (snd first_answer) ! 1) = e_sha (tx_events (snd first_answer) ! 0)"
proof -
  have "length (tx_events (snd first_answer)) = 2" using first_events(1) by (metis length_map length_Cons list.size(3) Suc_1 One_nat_def)
  then show ?thesis
    using ledger_is_one_history [OF first_bytes sample_reader, of 1] by simp
qed

text \<open>Events are determined by what is hashed, and their digest.\<close>

lemma unsigned_members: "same_members (unsigned_items e) (sort_key fst (unsigned_items e))"
  by (rule same_members_sort) (simp add: unsigned_items_def)

lemma unsigned_wf: "closed_event e \<Longrightarrow> wf_json (unsigned_json e)"
  by (auto simp: closed_event_def event_json_def unsigned_json_def)

lemma unsigned_inject:
  assumes "closed_event e" and "closed_event f"
    and "canonical_bytes (unsigned_json e) = canonical_bytes (unsigned_json f)" and "e_sha e = e_sha f"
  shows "e = f"
proof -
  have copy: "canonical_copy (unsigned_json e) = JObj (sort_key fst (unsigned_items e))" if "closed_event e" for e
  proof -
    have "map (\<lambda>(k, v). (k, canonical_copy v)) (unsigned_items e) = unsigned_items e"
      using that by (simp add: unsigned_items_def closed_event_def)
    then show ?thesis by (simp add: unsigned_json_def)
  qed
  have "event_of (JObj (unsigned_items e)) = event_of (JObj (unsigned_items f))"
    using canonical_bytes_inject [OF unsigned_wf unsigned_wf assms(3)] assms(1,2) copy
      event_of_same_members [OF unsigned_members] by metis
  moreover have "event_of (JObj (unsigned_items e)) = e\<lparr>e_sha := []\<rparr>" for e
    by (simp add: event_of_def unsigned_items_def sget_def iget_def field_def)
  ultimately have "e\<lparr>e_sha := []\<rparr> = f\<lparr>e_sha := []\<rparr>" by simp
  then show ?thesis using assms(4) by (cases e; cases f) simp
qed

text \<open>Two events whose hashed texts differ although their digests agree.\<close>

definition collision :: "prims \<Rightarrow> event \<Rightarrow> event \<Rightarrow> bool" where
  "collision E e f \<longleftrightarrow>
     canonical_bytes (unsigned_json e) \<noteq> canonical_bytes (unsigned_json f)
     \<and> hexdigest E (canonical_bytes (unsigned_json e)) = hexdigest E (canonical_bytes (unsigned_json f))"

lemma chains_agree:
  assumes "chained E m None es" and "chained E m' None fs" and "es \<noteq> []" and "fs \<noteq> []"
    and "e_sha (last es) = e_sha (last fs)"
  shows "es = fs \<or> (\<exists>e \<in> set es. \<exists>f \<in> set fs. collision E e f)"
  using assms
proof (induction es arbitrary: fs rule: rev_induct)
  case (snoc e es)
  obtain gs f where fs: "fs = gs @ [f]" using snoc.prems(4) by (cases fs rule: rev_cases) auto
  have e: "validate_event E m (last_of None es) (event_json e) = Inr ()" "closed_event e" "chained E m None es"
    and f: "validate_event E m' (last_of None gs) (event_json f) = Inr ()" "closed_event f" "chained E m' None gs"
    using snoc.prems(1,2) fs by simp_all
  have sha: "e_sha e = e_sha f" using snoc.prems(5) fs by simp
  note ve = validated_event [OF e(1)] and vf = validated_event [OF f(1)]
  show ?case
  proof (cases "canonical_bytes (unsigned_json e) = canonical_bytes (unsigned_json f)")
    case False
    then have "collision E e f" using ve(12) vf(12) sha by (simp add: collision_def sha256_def)
    then show ?thesis using fs by auto
  next
    case True
    then have eq: "e = f" using unsigned_inject e(2) f(2) sha by blast
    have "next_sequence (last_of None es) = int (length es) + 1" if "chained E m None es" for es m
    proof (cases es rule: rev_cases)
      case (snoc ds d)
      then show ?thesis using chained_position [OF that, of "length ds"] by (simp add: last_of_def next_sequence_def)
    qed (simp add: next_sequence_def)
    then have "length es = length gs" using ve(4) vf(4) eq e(3) f(3) by (metis add_right_cancel of_nat_eq_iff)
    show ?thesis
    proof (cases "es = []")
      case True
      then show ?thesis using \<open>length es = length gs\<close> eq fs by simp
    next
      case False
      then have "gs \<noteq> []" using \<open>length es = length gs\<close> by auto
      have "e_sha (last es) = e_sha (last gs)"
        using ve(10) vf(10) eq False \<open>gs \<noteq> []\<close> by (simp add: last_of_def head_of_def)
      from snoc.IH [OF e(3) f(3) False \<open>gs \<noteq> []\<close> this] show ?thesis using eq fs by auto
    qed
  qed
qed simp

text \<open>C32: the digest of the last event stands for the whole ledger: two ledgers with the same head have the
  same bytes, or they exhibit two different texts with the same SHA-256 digest.\<close>

theorem head_stands_for_history:
  assumes "events_from_bytes E (Some mission) True content = Inr events"
    and "events_from_bytes E (Some mission') True content' = Inr events'" and "reader_ok E"
    and "e_sha (last events) = e_sha (last events')"
  shows "content = content' \<or> (\<exists>e \<in> set events. \<exists>f \<in> set events'. collision E e f)"
  using written_read [OF assms(1,3)] written_read [OF assms(2,3)] chains_agree [OF _ _ _ _ assms(4)] by metis

theorem head_stands_for_history_witness:
  "\<exists>e \<in> set (tx_events (snd first_answer)). \<exists>f \<in> set (tx_events (snd first_answer)). collision sample e f"
proof -
  let ?m = "sample_uuid ''mission''"
  have "length (tx_events (snd first_answer)) = 2"
    using first_events(1) by (metis One_nat_def Suc_1 length_Cons length_map list.size(3))
  then obtain a b where ab: "tx_events (snd first_answer) = [a, b]"
    by (auto simp: length_Suc_conv numeral_2_eq_2)
  then have chain: "chained sample ?m None [a, b]" using first_chained by simp
  then have one: "events_from_bytes sample (Some ?m) True (canonical_jsonl (map event_json [a])) = Inr [a]"
    and two: "events_from_bytes sample (Some ?m) True (canonical_jsonl (map event_json [a, b])) = Inr [a, b]"
    by (auto intro!: read_written simp del: list.map)
  have "e_sha (last [a]) = e_sha (last [a, b])"
    using chain by (auto dest!: validated_event(12) simp: sha256_def sample_def)
  moreover have "canonical_jsonl (map event_json [a]) \<noteq> canonical_jsonl (map event_json [a, b])"
    using one two by auto
  ultimately show ?thesis using head_stands_for_history [OF one two sample_reader] ab by auto
qed

section \<open>Appending\<close>

text \<open>C33: after an append the file alone gives the transaction back: opening the new bytes yields the same
  events, the same derived state and the same content.\<close>

theorem append_reopens:
  assumes "open_txn E mission file = Inr t" and "append_events E w t js = Inr (rs, t')"
    and "\<forall>j \<in> set js. wf_json j" and "reader_ok E" and "clock_text E"
  shows "open_txn E mission (ledger_file t') = Inr t'"
proof -
  note t = open_txn_ok [OF assms(1,4)]
  from append_events_ok [OF assms(2) t(1) assms(3,5)]
  have "txn_ok E t'" "tx_mission t' = tx_mission t" by blast+
  then show ?thesis using open_written t(3) by simp
qed

theorem append_reopens_witness:
  "open_txn sample (sample_uuid ''mission'') (Some (tx_content (snd first_answer))) = Inr (snd first_answer)"
  using append_reopens [OF new_txn, of sample_world first_requests "fst first_answer" "snd first_answer"]
    first_append first_json sample_reader sample_clock_text first_chained(2) by (simp add: ledger_file_def)

text \<open>C34: an append only adds: the old bytes stay a prefix, every request is answered by an event of the
  ledger with its key and content, and exactly the answers marked as appended are the new events.\<close>

theorem append_only_extends:
  assumes "open_txn E mission file = Inr t" and "append_events E w t js = Inr (rs, t')"
    and "\<forall>j \<in> set js. wf_json j" and "reader_ok E" and "clock_text E"
  shows "\<exists>qs. normalize_requests E js = Inr qs \<and> list_all2 answers qs rs
    \<and> (\<forall>r \<in> set rs. fst r \<in> set (tx_events t'))
    \<and> tx_events t' = tx_events t @ map fst (filter snd rs)
    \<and> tx_content t' = tx_content t @ canonical_jsonl (map (event_json \<circ> fst) (filter snd rs))"
proof -
  note t = open_txn_ok [OF assms(1,4)]
  from append_events_ok [OF assms(2) t(1) assms(3,5)] obtain qs where qs: "normalize_requests E js = Inr qs"
    "txn_ok E t'" "list_all2 answers qs rs" "tx_events t' = tx_events t @ map fst (filter snd rs)"
    "\<forall>r \<in> set rs. fst r \<in> set (tx_events t')" by blast
  moreover have "tx_content t' = tx_content t @ canonical_jsonl (map (event_json \<circ> fst) (filter snd rs))"
    using t(1) qs(2,4) by (simp add: txn_ok_def canonical_jsonl_append)
  ultimately show ?thesis by blast
qed

theorem append_only_extends_witness:
  "list_all (\<lambda>r. fst r \<in> set (tx_events (snd first_answer))) (fst first_answer)"
  using append_only_extends [OF new_txn, of sample_world first_requests "fst first_answer" "snd first_answer"]
    first_append first_json sample_reader sample_clock_text by (auto simp: list_all_iff)

lemma replay_loop:
  "list_all2 answers qs rs \<Longrightarrow> \<forall>r \<in> set rs. map_of known (e_key (fst r)) = Some (fst r) \<Longrightarrow>
     append_loop E w t known new p qs = Inr (map (\<lambda>r. (fst r, False)) rs, new)"
  by (induction qs rs rule: list_all2_induct) (auto simp: answers_def)

text \<open>C35: appends can be repeated: sending the same requests again, in any later world, returns the same
  events, marks none of them as new and leaves the ledger as it is.\<close>

theorem append_is_idempotent:
  assumes "open_txn E mission file = Inr t" and "append_events E w t js = Inr (rs, t')"
    and "\<forall>j \<in> set js. wf_json j" and "reader_ok E" and "clock_text E" and "\<not> w_read_only w'"
  shows "append_events E w' t' js = Inr (map (\<lambda>r. (fst r, False)) rs, t')"
proof -
  note t = open_txn_ok [OF assms(1,4)]
  from append_events_ok [OF assms(2) t(1) assms(3,5)] obtain qs where qs: "normalize_requests E js = Inr qs"
    "txn_ok E t'" "list_all2 answers qs rs" "\<forall>r \<in> set rs. fst r \<in> set (tx_events t')" by blast
  have "\<forall>r \<in> set rs. map_of (by_key (tx_events t')) (e_key (fst r)) = Some (fst r)"
    using by_key_lookup [OF txn_distinct_keys [OF qs(2)]] qs(4) by blast
  then show ?thesis
    using replay_loop [OF qs(3)] assms(6) qs(1) by (simp add: append_events_def append_normalized_def)
qed

theorem append_is_idempotent_witness:
  "append_events sample sample_world (snd first_answer) first_requests
     = Inr (map (\<lambda>r. (fst r, False)) (fst first_answer), snd first_answer)"
  using append_is_idempotent [OF new_txn, of sample_world first_requests "fst first_answer" "snd first_answer" sample_world]
    first_append first_json sample_reader sample_clock_text by (simp add: sample_world_def)

text \<open>C36: what an append refuses: a read-only snapshot, a known key with another content, a historical
  schema under a new key, and a new event for a mission that ended are conflicts.\<close>

theorem append_refusals:
  assumes "open_txn E mission file = Inr t" and "reader_ok E" and "normalize_requests E js = Inr (q # qs)"
    and "w_read_only w
      \<or> (\<exists>e \<in> set (tx_events t). e_key e = q_key q \<and> \<not> same_request e q)
      \<or> q_key q \<notin> e_key ` set (tx_events t)
        \<and> (legacy_admission_request q \<or> (\<exists>s. tx_state t = Some s \<and> ended (x_status s)))"
  shows "append_events E w t js = Inl MissionConflict"
proof (cases "w_read_only w")
  case False
  have distinct: "distinct (map e_key (tx_events t))"
    using txn_distinct_keys open_txn_ok(1) [OF assms(1,2)] by blast
  show ?thesis
  proof (cases "\<exists>e \<in> set (tx_events t). e_key e = q_key q \<and> \<not> same_request e q")
    case True
    then obtain e where "e \<in> set (tx_events t)" "e_key e = q_key q" "\<not> same_request e q" by blast
    then have "map_of (by_key (tx_events t)) (q_key q) = Some e" using by_key_lookup [OF distinct] by metis
    then show ?thesis
      using \<open>\<not> same_request e q\<close> False assms(3) by (simp add: append_events_def append_normalized_def)
  next
    case same: False
    then have "map_of (by_key (tx_events t)) (q_key q) = None"
      using assms(4) False by (auto simp: map_of_eq_None_iff by_key_def image_image)
    moreover have "admit_request E w t [] p q = Inl MissionConflict" for p
      using assms(4) False same
      by (auto simp: admit_request_def require_admission_schema_def require_authority_schema_def require_def)
    ultimately show ?thesis using False assms(3) by (simp add: append_events_def append_normalized_def)
  qed
qed (simp add: append_events_def)

theorem append_refusals_witness:
  "append_events sample sample_world (snd first_answer)
     [request_json ''workflow_compiled'' ''CONTROL'' ''key-1'' (JObj [(''compiled_digest'', digest_json)])]
     = Inl MissionConflict"
proof -
  let ?js = "[request_json ''workflow_compiled'' ''CONTROL'' ''key-1'' (JObj [(''compiled_digest'', digest_json)])]"
  let ?q = "\<lparr>q_kind = ''workflow_compiled'', q_actor = ''CONTROL'', q_key = ''key-1'',
    q_payload = JObj [(''compiled_digest'', digest_json)]\<rparr>"
  obtain e where "e \<in> set (tx_events (snd first_answer))" "e_key e = ''key-1''" "e_kind e = ''mission_created''"
    using first_created by (auto simp: list_ex_iff)
  then have "\<exists>e \<in> set (tx_events (snd first_answer)). e_key e = q_key ?q \<and> \<not> same_request e ?q"
    by (intro bexI [of _ e]) (simp_all add: same_request_def)
  moreover have "normalize_requests sample ?js = Inr [?q]" by code_simp
  moreover have "open_txn sample (sample_uuid ''mission'') (ledger_file (snd first_answer)) = Inr (snd first_answer)"
    using open_written first_txn_ok(1) new_txn_ok(2) first_txn_ok(2) by (simp add: new_txn_def)
  ultimately show ?thesis using append_refusals sample_reader by blast
qed

end
