(* ===== verification/Admission_Client.thy ===== *)
theory Admission_Client
  imports Transaction "HOL-Library.Product_Lexorder"
begin

text \<open>
  The admission client of scripts/fleet_admission.py: it normalizes the requests of a batch,
  resolves their parents against the current state, and appends the reservation, commit, launch,
  start and terminal events of an admission inside one transaction.
\<close>

section \<open>Requests\<close>

record admission_query =
  n_key :: string
  n_kind :: run_kind
  n_recipient :: string
  n_capability :: string
  n_effect :: string
  n_task :: string
  n_parent :: "string option"
  n_parent_run :: "string option"
  n_budget :: int
  n_writer :: bool

definition request_required_fields :: "string list" where
  "request_required_fields =
     [''request_key'', ''run_kind'', ''recipient_instance'', ''capability'', ''effect_sha256'', ''task_sha256'',
      ''delegated_budget'', ''writer'']"

definition request_optional_fields :: "string list" where
  "request_optional_fields = [''parent_admission_id'', ''parent_run_id'']"

definition request_fields_ok :: "json \<Rightarrow> bool" where
  "request_fields_ok j \<longleftrightarrow>
     list_all (has_field j) request_required_fields
     \<and> list_all (\<lambda>k. k \<in> set (request_required_fields @ request_optional_fields)) (map fst (obj_items j))"

text \<open>
  \<open>normalize_uuid(str(value))\<close> for an optional member: None for an absent or null member.  The
  text of a container has brackets and is never a UUID.
\<close>

fun id_text :: "json \<Rightarrow> string" where
  "id_text (JStr s) = s"
| "id_text (JInt i) = int_text i"
| "id_text (JBool b) = (if b then ''True'' else ''False'')"
| "id_text _ = ''[]''"

definition optional_uuid :: "json \<Rightarrow> string \<Rightarrow> string option result" where
  "optional_uuid j k =
     (if field j k = JNull then Inr None
      else (case normalize_uuid (id_text (field j k)) of Inl x \<Rightarrow> Inl x | Inr u \<Rightarrow> Inr (Some u)))"

definition admission_check :: "bool \<Rightarrow> unit result" where
  "admission_check ok = require ok AdmissionError"

definition check_query :: "json \<Rightarrow> unit result" where
  "check_query j = all_checks
     [admission_check (request_fields_ok j),
      admission_check (is_str (field j ''request_key'') \<and> safe_key (sget j ''request_key'')),
      (if is_arr (field j ''run_kind'') \<or> is_obj (field j ''run_kind'') then Inl TypeError
       else admission_check (v_in [''lead'', ''specialist''] (field j ''run_kind''))),
      admission_check (v_feature (field j ''recipient_instance'')), admission_check (v_feature (field j ''capability'')),
      admission_check (v_sha (field j ''effect_sha256'')), admission_check (v_sha (field j ''task_sha256'')),
      admission_check (v_uint (field j ''delegated_budget'')), admission_check (is_bool (field j ''writer''))]"

definition query_of :: "json \<Rightarrow> string option \<Rightarrow> string option \<Rightarrow> admission_query" where
  "query_of j parent run =
     \<lparr>n_key = sget j ''request_key'', n_kind = run_kind_of (sget j ''run_kind''),
      n_recipient = sget j ''recipient_instance'', n_capability = sget j ''capability'',
      n_effect = sget j ''effect_sha256'', n_task = sget j ''task_sha256'', n_parent = parent, n_parent_run = run,
      n_budget = iget j ''delegated_budget'', n_writer = bget j ''writer''\<rparr>"

definition normalize_request :: "json \<Rightarrow> admission_query result" where
  "normalize_request r =
     (if \<not> is_obj r then Inl AdmissionError
      else
        (let j = canonical_copy r in
         case check_query j of
           Inl x \<Rightarrow> Inl x
         | Inr _ \<Rightarrow>
        (case optional_uuid j ''parent_admission_id'' of
           Inl x \<Rightarrow> Inl x
         | Inr parent \<Rightarrow>
        (case optional_uuid j ''parent_run_id'' of
           Inl x \<Rightarrow> Inl x
         | Inr run \<Rightarrow>
             (let q = query_of j parent run in
              if n_kind q = Lead \<and> (parent \<noteq> None \<or> run \<noteq> None \<or> n_budget q \<noteq> 0) then Inl AdmissionError
              else Inr q)))))"

fun normalize_admissions :: "json list \<Rightarrow> admission_query list result" where
  "normalize_admissions [] = Inr []"
| "normalize_admissions (j # js) =
     (case normalize_request j of
        Inl x \<Rightarrow> Inl x
      | Inr q \<Rightarrow> (case normalize_admissions js of Inl x \<Rightarrow> Inl x | Inr qs \<Rightarrow> Inr (q # qs)))"

section \<open>Building the admissions of a batch\<close>

text \<open>A request with its deterministic identities (\<open>deterministic_ids\<close>).\<close>

record base = admission_query +
  b_id :: string
  b_run :: string
  b_delegation :: "string option"

definition deterministic_ids ::
  "prims \<Rightarrow> string \<Rightarrow> string \<Rightarrow> string \<Rightarrow> (string \<times> string \<times> string option) result" where
  "deterministic_ids E mission key kind =
     (case normalize_uuid mission of
        Inl x \<Rightarrow> Inl x
      | Inr mid \<Rightarrow>
          if \<not> safe_key key then Inl AdmissionError
          else if kind \<notin> {''lead'', ''specialist''} then Inl AdmissionError
          else
            (let k = run_kind_of kind in
             Inr (admission_uuid E mid k key, run_uuid E mid k key, delegation_uuid E mid k key)))"

definition with_identities :: "admission_query \<Rightarrow> string \<times> string \<times> string option \<Rightarrow> base" where
  "with_identities q ids =
     (case ids of (aid, rid, did) \<Rightarrow> admission_query.extend q (base.fields aid rid did))"

fun bases :: "prims \<Rightarrow> string \<Rightarrow> string list \<Rightarrow> admission_query list \<Rightarrow> base list result" where
  "bases E mission seen [] = Inr []"
| "bases E mission seen (q # qs) =
     (if n_key q \<in> set seen then Inl AdmissionError
      else
        (case deterministic_ids E mission (n_key q) (kind_name (n_kind q)) of
           Inl x \<Rightarrow> Inl x
         | Inr ids \<Rightarrow>
        (case bases E mission (n_key q # seen) qs of
           Inl x \<Rightarrow> Inl x
         | Inr bs \<Rightarrow> Inr (with_identities q ids # bs))))"

definition prospective_bases :: "base list \<Rightarrow> base dict" where
  "prospective_bases bs = fold (\<lambda>b d. dput (b_id b) b d) bs dempty"

text \<open>The admission a specialist without a parent hangs under: the Lead, durable or of this batch.\<close>

definition default_parent ::
  "admission_state \<Rightarrow> base dict \<Rightarrow> base \<Rightarrow> string option \<times> string option" where
  "default_parent t prospective b =
     (case s_lead_admission t of
        Some lead \<Rightarrow> (Some lead, n_parent_run b)
      | None \<Rightarrow>
          (case filter (\<lambda>x. n_kind x = Lead) (dvals prospective) of
             [lead] \<Rightarrow> (Some (b_id lead), n_parent_run b)
           | _ \<Rightarrow> (None, if s_lead_run t \<noteq> None \<and> n_parent_run b = None then s_lead_run t else n_parent_run b)))"

text \<open>Kind and run of a parent: of this batch first, else stored.\<close>

definition parent_facts :: "admission_state \<Rightarrow> base dict \<Rightarrow> string option \<Rightarrow> (run_kind \<times> string) option" where
  "parent_facts t prospective pid =
     (case pid of
        None \<Rightarrow> None
      | Some k \<Rightarrow>
          (case dget prospective k of
             Some p \<Rightarrow> Some (n_kind p, b_run p)
           | None \<Rightarrow> map_option (\<lambda>a. (a_run_kind a, a_run_id a)) (dget (s_admissions t) k)))"

definition resolved_parent ::
  "admission_state \<Rightarrow> string \<Rightarrow> base dict \<Rightarrow> base \<Rightarrow> string option \<times> string option \<times> run_kind option" where
  "resolved_parent t actor prospective b =
     (let (pid, run) =
            (if actor = ''CONTROL'' \<and> n_kind b = Specialist \<and> n_parent b = None
             then default_parent t prospective b else (n_parent b, n_parent_run b))
      in case parent_facts t prospective pid of
           None \<Rightarrow> (pid, run, None)
         | Some (kind, prun) \<Rightarrow> (pid, if run = None then Some prun else run, Some kind))"

text \<open>What an admission costs, and who pays: nobody, its specialist parent, or the mission.\<close>

definition costs :: "base \<Rightarrow> run_kind option \<Rightarrow> int \<times> int \<times> int" where
  "costs b parent =
     (if n_kind b = Lead then (0, 0, 0)
      else
        (let cost = 1 + n_budget b in
         if parent = Some Specialist then (cost, 0, cost) else (cost, cost, 0)))"

definition build_admission ::
  "prims \<Rightarrow> admission_state \<Rightarrow> string \<Rightarrow> base dict \<Rightarrow> base \<Rightarrow> admission_request" where
  "build_admission E t actor prospective b =
     (let (pid, run, kind) = resolved_parent t actor prospective b;
          (cost, global, parent) = costs b kind;
          a = \<lparr>a_id = b_id b, a_delegation_id = b_delegation b, a_run_id = b_run b, a_run_kind = n_kind b,
               a_request_key = n_key b, a_request_digest = [], a_recipient = n_recipient b,
               a_capability = n_capability b, a_parent = pid, a_parent_run = run, a_budget = n_budget b,
               a_cost = cost, a_global_debit = global, a_parent_debit = parent, a_writer = n_writer b,
               a_effect = Some (n_effect b), a_task = Some (n_task b)\<rparr>
      in a\<lparr>a_request_digest := sha256 E (request_binding a)\<rparr>)"

definition build_admissions ::
  "prims \<Rightarrow> string \<Rightarrow> admission_query list \<Rightarrow> admission_state \<Rightarrow> string \<Rightarrow> admission_request list result" where
  "build_admissions E mission qs t actor =
     (case bases E mission [] qs of
        Inl x \<Rightarrow> Inl x
      | Inr bs \<Rightarrow> Inr (sort_key a_id (map (build_admission E t actor (prospective_bases bs)) bs)))"

text \<open>\<open>_request_batch_sha256\<close>: the batch as the caller asked for it.\<close>

definition query_json :: "admission_query \<Rightarrow> json" where
  "query_json q = JObj
     [(''request_key'', JStr (n_key q)), (''run_kind'', JStr (kind_name (n_kind q))),
      (''recipient_instance'', JStr (n_recipient q)), (''capability'', JStr (n_capability q)),
      (''effect_sha256'', JStr (n_effect q)), (''task_sha256'', JStr (n_task q)),
      (''parent_admission_id'', jopt (n_parent q)), (''parent_run_id'', jopt (n_parent_run q)),
      (''delegated_budget'', JInt (n_budget q)), (''writer'', JBool (n_writer q))]"

definition request_batch_sha256 :: "prims \<Rightarrow> admission_query list \<Rightarrow> string" where
  "request_batch_sha256 E qs =
     sha256 E (JArr (map query_json (sort_key (\<lambda>q. (kind_name (n_kind q), n_key q)) qs)))"

section \<open>Reservation\<close>

record reservation =
  rp_batch_id :: string
  rp_batch_sha :: string
  rp_admissions :: "admission list"
  rp_event :: event
  rp_appended :: bool

text \<open>\<open>derived["admissions"][id]\<close> for every admission of an event.\<close>

fun durable_admissions :: "admission dict \<Rightarrow> string list \<Rightarrow> admission list result" where
  "durable_admissions d [] = Inr []"
| "durable_admissions d (k # ks) =
     (case dget d k of
        None \<Rightarrow> Inl KeyError
      | Some a \<Rightarrow> (case durable_admissions d ks of Inl x \<Rightarrow> Inl x | Inr as \<Rightarrow> Inr (a # as)))"

definition event_admission_ids :: "event \<Rightarrow> string list" where
  "event_admission_ids e = map (\<lambda>x. sget x ''admission_id'') (arr_of (field (e_payload e) ''admissions''))"

definition answer_reservation ::
  "mission \<Rightarrow> string \<Rightarrow> string \<Rightarrow> event \<Rightarrow> bool \<Rightarrow> reservation result" where
  "answer_reservation s batch sha e appended =
     (case durable_admissions (s_admissions (x_admissions s)) (event_admission_ids e) of
        Inl x \<Rightarrow> Inl x
      | Inr as \<Rightarrow> Inr \<lparr>rp_batch_id = batch, rp_batch_sha = sha, rp_admissions = as, rp_event = e,
                      rp_appended = appended\<rparr>)"

definition batch_uuid :: "prims \<Rightarrow> string \<Rightarrow> string \<Rightarrow> string" where
  "batch_uuid E mission key = uuid5 E mission (''admission-batch:'' @ key)"

definition reserve_payload :: "string \<Rightarrow> string \<Rightarrow> string \<Rightarrow> admission_request list \<Rightarrow> json" where
  "reserve_payload batch sha request_sha as = JObj
     [(''batch_id'', JStr batch), (''batch_sha256'', JStr sha), (''request_sha256'', JStr request_sha),
      (''admissions'', JArr (map admission_json as))]"

text \<open>The event that already has the key was this reservation.\<close>

definition same_reservation :: "event \<Rightarrow> string \<Rightarrow> string \<Rightarrow> string \<Rightarrow> bool" where
  "same_reservation e actor batch request_sha \<longleftrightarrow>
     e_kind e = ''delegations_reserved'' \<and> e_actor e = actor
     \<and> field (e_payload e) ''batch_id'' = JStr batch \<and> field (e_payload e) ''request_sha256'' = JStr request_sha"

definition check_names :: "string \<Rightarrow> string \<Rightarrow> unit result" where
  "check_names key actor = all_checks [admission_check (safe_key key), admission_check (safe_actor actor)]"

definition event_with_key :: "txn \<Rightarrow> string \<Rightarrow> event option" where
  "event_with_key t key = find (\<lambda>e. e_key e = key) (tx_events t)"

text \<open>A reservation under a new key.\<close>

definition reserve_new ::
  "prims \<Rightarrow> world \<Rightarrow> txn \<Rightarrow> mission \<Rightarrow> admission_query list \<Rightarrow> string \<Rightarrow> string
   \<Rightarrow> (reservation \<times> txn) result" where
  "reserve_new E w t s qs key actor =
     (let batch = batch_uuid E (tx_mission t) key in
      case build_admissions E (tx_mission t) qs (x_admissions s) actor of
        Inl x \<Rightarrow> Inl x
      | Inr as \<Rightarrow>
     (let sha = batch_digest E as in
      case append_event E w t ''delegations_reserved'' actor key
             (reserve_payload batch sha (request_batch_sha256 E qs) as) of
        Inl x \<Rightarrow> Inl x
      | Inr ((e, appended), t') \<Rightarrow>
     (case tx_state t' of
        None \<Rightarrow> Inl AdmissionError
      | Some s' \<Rightarrow>
     (case answer_reservation s' batch sha e appended of
        Inl x \<Rightarrow> Inl x
      | Inr r \<Rightarrow> Inr (r, t')))))"

definition reserve_in ::
  "prims \<Rightarrow> world \<Rightarrow> admission_query list \<Rightarrow> string \<Rightarrow> string \<Rightarrow> txn \<Rightarrow> (reservation \<times> txn) result" where
  "reserve_in E w qs key actor t =
     (let batch = batch_uuid E (tx_mission t) key in
      case tx_state t of
        None \<Rightarrow> Inl AdmissionError
      | Some s \<Rightarrow>
     (case event_with_key t key of
        None \<Rightarrow> reserve_new E w t s qs key actor
      | Some prior \<Rightarrow>
          if \<not> same_reservation prior actor batch (request_batch_sha256 E qs) then Inl MissionConflict
          else
            (case answer_reservation s batch (sget (e_payload prior) ''batch_sha256'') prior False of
               Inl x \<Rightarrow> Inl x
             | Inr r \<Rightarrow> Inr (r, t))))"

definition reserve_many ::
  "prims \<Rightarrow> world \<Rightarrow> string \<Rightarrow> string option \<Rightarrow> json list \<Rightarrow> string \<Rightarrow> string
   \<Rightarrow> (reservation \<times> txn) result" where
  "reserve_many E w mission ledger requests key actor =
     (case normalize_uuid mission of
        Inl x \<Rightarrow> Inl x
      | Inr mid \<Rightarrow>
     (case check_names key actor of
        Inl x \<Rightarrow> Inl x
      | Inr _ \<Rightarrow>
     (case normalize_admissions requests of
        Inl x \<Rightarrow> Inl x
      | Inr qs \<Rightarrow>
          if qs = [] then Inl AdmissionError
          else in_transaction E mid ledger (reserve_in E w qs key actor))))"

end
