(* ===== verification/Client_Steps.thy ===== *)
theory Client_Steps
  imports Admission_Client
begin

text \<open>
  The life of one admission as its client drives it (scripts/fleet_admission.py): freezing the
  policy, commit and its verification, launch authorization, start, finalization and prelaunch
  abort.  Each operation checks its arguments, opens the ledger and appends one event.
\<close>

section \<open>Arguments\<close>

text \<open>The bindings that most operations take; the identities are normalized first.\<close>

record binding =
  g_admission :: string
  g_digest :: string
  g_effect :: string
  g_recipient :: string
  g_writer :: bool
  g_run :: string

definition normalize_binding :: "binding \<Rightarrow> binding result" where
  "normalize_binding b =
     (case normalize_uuid (g_admission b) of
        Inl x \<Rightarrow> Inl x
      | Inr aid \<Rightarrow>
     (case normalize_uuid (g_run b) of
        Inl x \<Rightarrow> Inl x
      | Inr rid \<Rightarrow> Inr (b\<lparr>g_admission := aid, g_run := rid\<rparr>)))"

text \<open>
  The common start of an operation: normalize the identities, run the checks, go on with the
  normalized mission and binding.
\<close>

definition with_binding ::
  "string \<Rightarrow> binding \<Rightarrow> unit result list \<Rightarrow> (string \<Rightarrow> binding \<Rightarrow> 'a result) \<Rightarrow> 'a result" where
  "with_binding mission b checks f =
     (case normalize_uuid mission of
        Inl x \<Rightarrow> Inl x
      | Inr mid \<Rightarrow>
     (case normalize_binding b of
        Inl x \<Rightarrow> Inl x
      | Inr g \<Rightarrow>
     (case all_checks checks of
        Inl x \<Rightarrow> Inl x
      | Inr _ \<Rightarrow> f mid g)))"

definition sha_check :: "string \<Rightarrow> unit result" where
  "sha_check s = admission_check (is_sha256 s)"

definition component_check :: "string \<Rightarrow> unit result" where
  "component_check s = admission_check (safe_feature s)"

definition binding_items :: "binding \<Rightarrow> (string \<times> json) list" where
  "binding_items g =
     [(''request_digest'', JStr (g_digest g)), (''effect_sha256'', JStr (g_effect g)),
      (''recipient_instance'', JStr (g_recipient g)), (''writer'', JBool (g_writer g)),
      (''run_id'', JStr (g_run g))]"

definition find_admission :: "txn \<Rightarrow> string \<Rightarrow> admission option" where
  "find_admission t k =
     (case tx_state t of None \<Rightarrow> None | Some s \<Rightarrow> dget (s_admissions (x_admissions s)) k)"

definition txn_head :: "txn \<Rightarrow> string" where
  "txn_head t = head_of (last_event (tx_events t))"

section \<open>The policy\<close>

definition policy_payload :: "string \<Rightarrow> string \<Rightarrow> string \<Rightarrow> int \<Rightarrow> int \<Rightarrow> json" where
  "policy_payload workflow plan_sha deadline credits limit = JObj
     [(''workflow_digest'', JStr workflow), (''compiled_digest'', JStr plan_sha),
      (''deadline_at'', JStr deadline), (''delegation_credits'', JInt credits),
      (''max_active_delegations'', JInt limit)]"

definition freeze_policy ::
  "prims \<Rightarrow> world \<Rightarrow> string \<Rightarrow> string option \<Rightarrow> string \<Rightarrow> string \<Rightarrow> string \<Rightarrow> int \<Rightarrow> int
   \<Rightarrow> string \<Rightarrow> string \<Rightarrow> ((event \<times> bool) \<times> txn) result" where
  "freeze_policy E w mission ledger workflow plan_sha deadline credits limit key actor =
     (case all_checks
        [sha_check workflow, sha_check plan_sha, check (parse_iso E deadline \<noteq> None),
         admission_check (0 \<le> credits), admission_check (0 \<le> limit), admission_check (1 \<le> limit),
         check_names key actor] of
        Inl x \<Rightarrow> Inl x
      | Inr _ \<Rightarrow>
          ledger_append E w mission ledger ''mission_admission_policy_frozen'' actor key
            (policy_payload workflow plan_sha deadline credits limit))"

section \<open>Commit\<close>

record commit_answer =
  ct_admission :: string
  ct_commit_id :: string
  ct_event :: event
  ct_head :: string
  ct_appended :: bool

definition commit_payload :: "prims \<Rightarrow> string \<Rightarrow> admission \<Rightarrow> binding \<Rightarrow> json" where
  "commit_payload E mission a g = JObj
     ([(''admission_id'', JStr (g_admission g)), (''commit_id'', JStr (commit_uuid E mission (g_admission g))),
       (''reservation_event_sha256'', JStr (a_reservation_event a))] @ binding_items g)"

definition commit_in ::
  "prims \<Rightarrow> world \<Rightarrow> binding \<Rightarrow> string \<Rightarrow> string \<Rightarrow> txn \<Rightarrow> (commit_answer \<times> txn) result" where
  "commit_in E w g key actor t =
     (case find_admission t (g_admission g) of
        None \<Rightarrow> Inl AdmissionError
      | Some a \<Rightarrow>
     (case append_event E w t ''delegation_committed'' actor key (commit_payload E (tx_mission t) a g) of
        Inl x \<Rightarrow> Inl x
      | Inr ((e, appended), t') \<Rightarrow>
          Inr (\<lparr>ct_admission = g_admission g, ct_commit_id = commit_uuid E (tx_mission t) (g_admission g),
                ct_event = e, ct_head = txn_head t', ct_appended = appended\<rparr>, t')))"

definition commit_admission ::
  "prims \<Rightarrow> world \<Rightarrow> string \<Rightarrow> string option \<Rightarrow> binding \<Rightarrow> string \<Rightarrow> string
   \<Rightarrow> (commit_answer \<times> txn) result" where
  "commit_admission E w mission ledger b key actor =
     with_binding mission b
       [sha_check (g_digest b), sha_check (g_effect b), component_check (g_recipient b), check_names key actor]
       (\<lambda>mid g. in_transaction E mid ledger (commit_in E w g key actor))"

section \<open>Verification of a commit\<close>

record commit_proof =
  cp_mission :: string
  cp_commit_id :: string
  cp_event_sha :: string
  cp_head :: string
  cp_binding :: binding

text \<open>
  The stored commit differs from the expected binding.  A historical commit has no
  \<open>effect_sha256\<close>, and subscripting it raises once the members before it agree.
\<close>

definition commit_differs :: "committed_payload \<Rightarrow> binding \<Rightarrow> bool result" where
  "commit_differs p g =
     (if cm_request_digest p \<noteq> g_digest g then Inr True
      else
        (case cm_effect p of
           None \<Rightarrow> Inl KeyError
         | Some effect \<Rightarrow>
             Inr (effect \<noteq> g_effect g \<or> cm_recipient p \<noteq> g_recipient g
                  \<or> cm_writer p \<noteq> g_writer g \<or> cm_run_id p \<noteq> g_run g)))"

definition check_commit :: "admission_state \<Rightarrow> string \<Rightarrow> binding \<Rightarrow> committed_payload result" where
  "check_commit t commit_sha g =
     (case dget (s_admissions t) (g_admission g) of
        None \<Rightarrow> Inl MissionConflict
      | Some a \<Rightarrow>
          if a_phase a \<noteq> Committed then Inl MissionConflict
          else
            (case a_commit a of
               None \<Rightarrow> Inl MissionConflict
             | Some (p, ev) \<Rightarrow>
                 if ev \<noteq> commit_sha then Inl MissionConflict
                 else
                   (case commit_differs p g of
                      Inl x \<Rightarrow> Inl x
                    | Inr differs \<Rightarrow> if differs then Inl MissionConflict else Inr p)))"

definition verify_in ::
  "prims \<Rightarrow> int \<Rightarrow> string \<Rightarrow> string \<Rightarrow> binding \<Rightarrow> txn \<Rightarrow> commit_proof result" where
  "verify_in E now commit_sha head g t =
     (if txn_head t \<noteq> head then Inl MissionConflict
      else
        (case tx_state t of
           None \<Rightarrow> Inl MissionConflict
         | Some s \<Rightarrow>
        (case check_commit (x_admissions s) commit_sha g of
           Inl x \<Rightarrow> Inl x
         | Inr p \<Rightarrow>
        (case s_policy (x_admissions s) of
           None \<Rightarrow> Inl MissionConflict
         | Some (po, _) \<Rightarrow>
             if instant E (po_deadline_at po) \<le> now then Inl MissionConflict
             else Inr \<lparr>cp_mission = tx_mission t, cp_commit_id = cm_commit_id p, cp_event_sha = commit_sha,
                       cp_head = head, cp_binding = g\<rparr>))))"

definition verify_commit ::
  "prims \<Rightarrow> int \<Rightarrow> string \<Rightarrow> string option \<Rightarrow> string \<Rightarrow> string \<Rightarrow> binding \<Rightarrow> commit_proof result" where
  "verify_commit E now mission ledger commit_sha head b =
     with_binding mission b
       [sha_check commit_sha, sha_check head, sha_check (g_digest b), sha_check (g_effect b),
        component_check (g_recipient b)]
       (\<lambda>mid g. in_transaction E mid ledger (verify_in E now commit_sha head g))"

section \<open>Launch and start\<close>

definition launch_payload :: "string \<Rightarrow> string option \<Rightarrow> binding \<Rightarrow> json" where
  "launch_payload commit_sha approval g = JObj
     ([(''admission_id'', JStr (g_admission g)), (''commit_event_sha256'', JStr commit_sha)] @ binding_items g
      @ [(''approval_event_sha256'', jopt approval)])"

definition authorize_launch ::
  "prims \<Rightarrow> world \<Rightarrow> string \<Rightarrow> string option \<Rightarrow> string \<Rightarrow> string option \<Rightarrow> binding \<Rightarrow> string \<Rightarrow> string
   \<Rightarrow> ((event \<times> bool) \<times> txn) result" where
  "authorize_launch E w mission ledger commit_sha approval b key actor =
     with_binding mission b
       [sha_check commit_sha, sha_check (g_digest b), sha_check (g_effect b),
        (case approval of None \<Rightarrow> Inr () | Some s \<Rightarrow> sha_check s),
        component_check (g_recipient b), check_names key actor]
       (\<lambda>mid g. in_transaction E mid ledger
          (\<lambda>t. append_event E w t ''delegation_launch_authorized'' actor key
                 (launch_payload commit_sha approval g)))"

definition start_payload :: "string \<Rightarrow> binding \<Rightarrow> json" where
  "start_payload auth g = JObj
     ([(''admission_id'', JStr (g_admission g)), (''authorization_event_sha256'', JStr auth)] @ binding_items g)"

text \<open>The stored authorization has this event and exactly this binding.\<close>

definition launch_matches :: "admission \<Rightarrow> string \<Rightarrow> binding \<Rightarrow> bool" where
  "launch_matches a auth g \<longleftrightarrow>
     (case a_launch a of
        None \<Rightarrow> False
      | Some (p, ev, _) \<Rightarrow>
          ev = auth \<and> la_request_digest p = g_digest g \<and> la_effect p = g_effect g
          \<and> la_recipient p = g_recipient g \<and> la_writer p = g_writer g \<and> la_run_id p = g_run g)"

definition start_in ::
  "prims \<Rightarrow> world \<Rightarrow> string \<Rightarrow> binding \<Rightarrow> string \<Rightarrow> string \<Rightarrow> txn \<Rightarrow> ((event \<times> bool) \<times> txn) result" where
  "start_in E w auth g key actor t =
     (if event_with_key t key = None
         \<and> (case find_admission t (g_admission g) of
              None \<Rightarrow> True
            | Some a \<Rightarrow> a_phase a \<noteq> Authorized \<or> \<not> launch_matches a auth g)
      then Inl MissionConflict
      else append_event E w t ''delegation_started'' actor key (start_payload auth g))"

definition mark_started ::
  "prims \<Rightarrow> world \<Rightarrow> string \<Rightarrow> string option \<Rightarrow> string \<Rightarrow> binding \<Rightarrow> string \<Rightarrow> string
   \<Rightarrow> ((event \<times> bool) \<times> txn) result" where
  "mark_started E w mission ledger auth b key actor =
     with_binding mission b
       [sha_check auth, sha_check (g_digest b), sha_check (g_effect b), component_check (g_recipient b),
        check_names key actor]
       (\<lambda>mid g. in_transaction E mid ledger (start_in E w auth g key actor))"

section \<open>Finalization\<close>

definition evidence_fields :: "string list" where
  "evidence_fields = [''schema_version'', ''source_event_sha256'', ''run_id'', ''task_sha256'', ''status'']"

text \<open>
  The checks of the evidence, in order; the value is its run.  A status that is no string is a
  TypeError where it cannot be hashed.
\<close>

definition check_evidence :: "json \<Rightarrow> string result" where
  "check_evidence v =
     (case all_checks
        [admission_check (has_exactly v evidence_fields), admission_check (field v ''schema_version'' = JInt 1),
         admission_check (v_sha (field v ''source_event_sha256''))] of
        Inl x \<Rightarrow> Inl x
      | Inr _ \<Rightarrow>
     (case normalize_uuid (id_text (field v ''run_id'')) of
        Inl x \<Rightarrow> Inl x
      | Inr run \<Rightarrow>
     (case all_checks
        [admission_check (field v ''run_id'' = JStr run), admission_check (v_sha (field v ''task_sha256'')),
         (if is_arr (field v ''status'') \<or> is_obj (field v ''status'') then Inl TypeError
          else admission_check (v_in terminal_names (field v ''status'')))] of
        Inl x \<Rightarrow> Inl x
      | Inr _ \<Rightarrow> Inr run)))"

definition evidence_sha :: "prims \<Rightarrow> string \<Rightarrow> string \<Rightarrow> string \<Rightarrow> bool \<Rightarrow> json \<Rightarrow> string" where
  "evidence_sha E mission admission recipient writer v = sha256 E (JObj
     [(''mission_id'', JStr mission), (''admission_id'', JStr admission),
      (''recipient_instance'', JStr recipient), (''writer'', JBool writer), (''terminal_evidence'', v)])"

definition final_payload ::
  "prims \<Rightarrow> string \<Rightarrow> string \<Rightarrow> string \<Rightarrow> string \<Rightarrow> bool \<Rightarrow> json \<Rightarrow> string \<Rightarrow> json" where
  "final_payload E mission admission run recipient writer v reason = JObj
     [(''admission_id'', JStr admission), (''run_id'', JStr run), (''recipient_instance'', JStr recipient),
      (''writer'', JBool writer), (''terminal_evidence'', v),
      (''terminal_evidence_sha256'', JStr (evidence_sha E mission admission recipient writer v)),
      (''status'', field v ''status''), (''reason'', JStr reason)]"

definition finalize ::
  "prims \<Rightarrow> world \<Rightarrow> string \<Rightarrow> string option \<Rightarrow> string \<Rightarrow> string \<Rightarrow> bool \<Rightarrow> json \<Rightarrow> string \<Rightarrow> string \<Rightarrow> string
   \<Rightarrow> ((event \<times> bool) \<times> txn) result" where
  "finalize E w mission ledger admission recipient writer evidence reason key actor =
     (case normalize_uuid mission of
        Inl x \<Rightarrow> Inl x
      | Inr mid \<Rightarrow>
     (case normalize_uuid admission of
        Inl x \<Rightarrow> Inl x
      | Inr aid \<Rightarrow>
     (case all_checks [component_check recipient, admission_check (is_obj evidence)] of
        Inl x \<Rightarrow> Inl x
      | Inr _ \<Rightarrow>
     (let v = canonical_copy evidence in
      case check_evidence v of
        Inl x \<Rightarrow> Inl x
      | Inr run \<Rightarrow>
     (case all_checks [admission_check (reason \<noteq> []), check_names key actor] of
        Inl x \<Rightarrow> Inl x
      | Inr _ \<Rightarrow>
          ledger_append E w mid ledger ''delegation_finalized'' actor key
            (final_payload E mid aid run recipient writer v reason))))))"

section \<open>Prelaunch abort\<close>

definition abort_payload :: "string \<Rightarrow> string \<Rightarrow> binding \<Rightarrow> json" where
  "abort_payload task reason g = JObj
     ([(''admission_id'', JStr (g_admission g)), (''task_sha256'', JStr task), (''reason'', JStr reason)]
      @ binding_items g)"

definition abort_prelaunch ::
  "prims \<Rightarrow> world \<Rightarrow> string \<Rightarrow> string option \<Rightarrow> string \<Rightarrow> binding \<Rightarrow> string \<Rightarrow> string \<Rightarrow> string
   \<Rightarrow> ((event \<times> bool) \<times> txn) result" where
  "abort_prelaunch E w mission ledger task b reason key actor =
     with_binding mission b
       [sha_check (g_digest b), sha_check (g_effect b), sha_check task, component_check (g_recipient b),
        admission_check (reason \<noteq> []), check_names key actor]
       (\<lambda>mid g. ledger_append E w mid ledger ''delegation_reservation_aborted'' actor key
          (abort_payload task reason g))"

end
