(* ===== verification/Binding_Inv.thy ===== *)
theory Binding_Inv
  imports Lifecycle_Theorems
begin

text \<open>
  The proofs stored on an admission stay true of it: its commit and its launch authorization
  name the admission, its reservation and exactly the request that was reserved.
\<close>

section \<open>What a stored proof says\<close>

definition commit_kept :: "admission \<Rightarrow> bool" where
  "commit_kept a \<longleftrightarrow>
     (\<forall>p ev. a_commit a = Some (p, ev) \<longrightarrow> cm_admission p = a_id a \<and> commit_bound a p)"

definition launch_kept :: "admission \<Rightarrow> bool" where
  "launch_kept a \<longleftrightarrow>
     (\<forall>p ev prev. a_launch a = Some (p, ev, prev) \<longrightarrow> la_admission p = a_id a \<and> launch_bound a p)"

definition proofs_kept :: "string \<Rightarrow> admission \<Rightarrow> bool" where
  "proofs_kept k a \<longleftrightarrow>
     a_id a = k \<and> commit_kept a \<and> launch_kept a \<and> (a_phase a = Reserved \<longrightarrow> a_commit a = None)"

definition bindings :: "admission_state \<Rightarrow> bool" where
  "bindings t \<longleftrightarrow> (\<forall>k a. dget (s_admissions t) k = Some a \<longrightarrow> proofs_kept k a)"

lemma bindingsD: "bindings t \<Longrightarrow> dget (s_admissions t) k = Some a \<Longrightarrow> proofs_kept k a"
  by (simp add: bindings_def)

text \<open>A later version of an admission with the same request and the same proofs.\<close>

definition same_proofs :: "admission \<Rightarrow> admission \<Rightarrow> bool" where
  "same_proofs a b \<longleftrightarrow>
     admission_request.truncate a = admission_request.truncate b \<and> a_reservation_event a = a_reservation_event b
     \<and> a_commit a = a_commit b \<and> a_launch a = a_launch b \<and> (a_phase b = Reserved \<longrightarrow> a_phase a = Reserved)"

lemma same_proofs_kept: "same_proofs a b \<Longrightarrow> proofs_kept k a \<Longrightarrow> proofs_kept k b"
  by (auto simp: same_proofs_def proofs_kept_def commit_kept_def launch_kept_def commit_bound_def launch_bound_def
      admission_request.truncate_def split: option.splits)

lemma same_proofs_charge: "same_proofs a (charge c a)"
  by (simp add: same_proofs_def charge_def)

lemma stored_proofs: "proofs_kept (a_id a) (stored_admission lane ev ps a)"
  by (simp add: proofs_kept_def commit_kept_def launch_kept_def stored_admission_def
      admission_request.defs admission.defs)

lemma bindings_put:
  "bindings t \<Longrightarrow> dget (s_admissions t) k = Some a \<Longrightarrow> same_proofs a b \<Longrightarrow>
     s_admissions t' = dput k b (s_admissions t) \<Longrightarrow> bindings t'"
  by (auto simp: bindings_def intro: same_proofs_kept)

lemma bindings_same: "bindings t \<Longrightarrow> s_admissions t' = s_admissions t \<Longrightarrow> bindings t'"
  by (simp add: bindings_def)

lemma release_admissions: "s_admissions (release_admission b t) = dput (a_id b) (b\<lparr>a_active := False\<rparr>) (s_admissions t)"
  by (auto simp: release_admission_def deactivate)

section \<open>The reducer keeps them\<close>

lemma committed_bindings:
  assumes "bindings (x_admissions s)" and "reduce_committed E s m p = Inr t'"
  shows "bindings t'"
proof -
  from assms(2) obtain a where a: "dget (s_admissions (x_admissions s)) (cm_admission p) = Some a"
    "a_phase a = Reserved" "commit_bound a p"
    and t': "s_admissions t' = dput (a_id a) (a\<lparr>a_phase := Committed, a_commit := Some (p, m_sha m)\<rparr>)
        (s_admissions (x_admissions s))"
    by (auto simp: reduce_committed_def guard_simps Let_def)
  have old: "a_id a = cm_admission p" "launch_kept a" "a_commit a = None"
    using bindingsD [OF assms(1) a(1)] a(2) by (simp_all add: proofs_kept_def)
  have "a_launch a = None"
    using old(2,3) by (cases "a_launch a") (auto simp: launch_kept_def launch_bound_def)
  then have "proofs_kept (a_id a) (a\<lparr>a_phase := Committed, a_commit := Some (p, m_sha m)\<rparr>)"
    using a(3) old(1) by (simp add: proofs_kept_def commit_kept_def launch_kept_def commit_bound_def)
  then show ?thesis using assms(1) t' by (auto simp: bindings_def)
qed

lemma authorized_bindings:
  assumes "bindings (x_admissions s)" and "reduce_authorized E s m p = Inr t'"
  shows "bindings t'"
proof -
  from assms(2) obtain a where a: "dget (s_admissions (x_admissions s)) (la_admission p) = Some a"
    "launch_bound a p"
    and t': "s_admissions t' = dput (a_id a) (a\<lparr>a_phase := Authorized, a_launch := Some (p, m_sha m, m_previous m)\<rparr>)
        (s_admissions (x_admissions s))"
    by (auto simp: reduce_authorized_def guard_simps Let_def)
  have old: "a_id a = la_admission p" "commit_kept a"
    using bindingsD [OF assms(1) a(1)] by (simp_all add: proofs_kept_def)
  then have "proofs_kept (a_id a) (a\<lparr>a_phase := Authorized, a_launch := Some (p, m_sha m, m_previous m)\<rparr>)"
    using a(2) by (simp add: proofs_kept_def commit_kept_def launch_kept_def commit_bound_def launch_bound_def)
  then show ?thesis using assms(1) t' by (auto simp: bindings_def)
qed

text \<open>Every other step stores a later version of an admission, or none.\<close>

lemma later_bindings:
  assumes "bindings t" and "dget (s_admissions t) k = Some a" and "same_proofs a b"
    and "s_admissions t' = dput (a_id a) b (s_admissions t)"
  shows "bindings t'"
  using bindings_put [OF assms(1-3)] bindingsD [OF assms(1,2)] assms(4) by (simp add: proofs_kept_def)

lemma started_bindings:
  assumes "bindings (x_admissions s)" and "reduce_started E s m p = Inr t'"
  shows "bindings t'"
proof -
  from assms(2) obtain a where a: "dget (s_admissions (x_admissions s)) (st_admission p) = Some a"
    and t': "t' = start_admission a m (x_admissions s)"
    by (cases "st_proof p")
      (auto simp: reduce_started_def reduce_current_start_def reduce_legacy_start_def guard_simps Let_def
        split: prod.splits)
  show ?thesis
    by (rule later_bindings [OF assms(1) a, where b = "a\<lparr>a_phase := Started, a_started_event := Some (m_sha m)\<rparr>"])
      (simp_all add: t' start_admission_def same_proofs_def)
qed

lemma finalized_bindings:
  assumes "bindings (x_admissions s)" and "reduce_finalized E s m p = Inr t'"
  shows "bindings t'"
proof -
  from assms(2) obtain a where a: "dget (s_admissions (x_admissions s)) (fi_admission p) = Some a"
    and t': "t' = release_admission (a\<lparr>a_phase := Finalized, a_terminal := Some (Inl p, m_sha m)\<rparr>) (x_admissions s)"
    by (auto simp: reduce_finalized_def guard_simps Let_def)
  show ?thesis
    by (rule later_bindings [OF assms(1) a, where b = "a\<lparr>a_phase := Finalized, a_terminal := Some (Inl p, m_sha m),
        a_active := False\<rparr>"])
      (simp_all add: t' release_admissions same_proofs_def)
qed

lemma aborted_bindings:
  assumes "bindings (x_admissions s)" and "reduce_aborted s m p = Inr t'"
  shows "bindings t'"
proof -
  from assms(2) obtain a where a: "dget (s_admissions (x_admissions s)) (ab_admission p) = Some a"
    and t': "s_admissions t' = dput (a_id a)
      (a\<lparr>a_phase := Aborted, a_terminal := Some (Inr p, m_sha m), a_active := False\<rparr>) (s_admissions (x_admissions s))"
    by (auto simp: reduce_aborted_def guard_simps Let_def release_admissions)
  show ?thesis
    by (rule later_bindings [OF assms(1) a, where b = "a\<lparr>a_phase := Aborted, a_terminal := Some (Inr p, m_sha m),
        a_active := False\<rparr>"])
      (simp_all add: t' same_proofs_def)
qed

lemma reserved_bindings:
  assumes "bindings (x_admissions s)" and "batch_ok (rv_admissions p)" and "reserve_admissions E s m p = Inr t'"
  shows "bindings t'"
proof -
  obtain lane ev po g ds where t': "t' = commit_batch lane ev po p g ds (x_admissions s)"
    using reserve_move [OF assms(2,3)] by blast
  show ?thesis
    unfolding bindings_def
  proof (intro allI impI)
    fix k a assume "dget (s_admissions t') k = Some a"
    then consider (new) b where "batch_map a_id (rv_admissions p) k = Some b" "a = stored_admission lane ev ds b"
      | (old) b c where "dget (s_admissions (x_admissions s)) k = Some b" "a = charge c b"
      by (auto simp: t' batch_fields [OF assms(2)] split: option.splits)
    then show "proofs_kept k a"
    proof cases
      case new
      then show ?thesis using stored_proofs batch_map_SomeD by metis
    next
      case old
      then show ?thesis using same_proofs_kept [OF same_proofs_charge] bindingsD [OF assms(1)] by metis
    qed
  qed
qed

lemma admission_bindings:
  assumes "bindings (x_admissions s)" and "payload_ok (Admission e)" and "reduce_admission E s m e = Inr t'"
  shows "bindings t'"
  using assms
  by (cases e)
    (auto simp: reduce_policy_def Let_def guard_simps intro: committed_bindings authorized_bindings started_bindings
      finalized_bindings aborted_bindings reserved_bindings bindings_same split: if_splits)

text \<open>A run event stores at most a result on one admission.\<close>

definition result_stored :: "admission_state \<Rightarrow> admission_state \<Rightarrow> bool" where
  "result_stored t t' \<longleftrightarrow>
     s_admissions t' = s_admissions t
     \<or> (\<exists>k a r. dget (s_admissions t) k = Some a \<and> s_admissions t' = dput k (a\<lparr>a_result := r\<rparr>) (s_admissions t))"

lemma result_storedI:
  "s_admissions t' = s_admissions t \<Longrightarrow> result_stored t t'"
  "dget (s_admissions t) k = Some a \<Longrightarrow> s_admissions t' = dput k (a\<lparr>a_result := r\<rparr>) (s_admissions t) \<Longrightarrow>
     result_stored t t'"
  by (auto simp: result_stored_def)

lemma record_stored:
  "dget (s_admissions t) k = Some a \<Longrightarrow> s_admissions u = s_admissions t \<Longrightarrow> result_stored t (record_result k a r m u)"
  by (rule result_storedI(2)) (simp_all add: record_result_def)

lemma attach_stored:
  "attach_result u m r k = Inr t' \<Longrightarrow> s_admissions u = s_admissions t \<Longrightarrow> result_stored t t'"
  by (auto simp: attach_result_def guard_simps intro: record_stored)

lemma owned_stored:
  assumes "(case own of Some (By_admission k) \<Rightarrow> attach_result u m r k | _ \<Rightarrow> Inr u') = Inr t'"
    and "s_admissions u = s_admissions t" and "s_admissions u' = s_admissions t"
  shows "result_stored t t'"
proof (cases "\<exists>k. own = Some (By_admission k)")
  case True
  then show ?thesis using assms(1,2) attach_stored by auto
next
  case False
  then have "u' = t'" using assms(1) by (cases own rule: option.exhaust; cases "the own") auto
  then show ?thesis using assms(3) by (auto intro: result_storedI(1))
qed

lemma lead_result_stored:
  assumes "reduce_lead_result s m r = Inr t'"
  shows "result_stored (x_admissions s) t'"
  using assms unfolding reduce_lead_result_def Let_def guard_simps
  by (elim exE conjE) (erule owned_stored, simp_all)

lemma synthesis_stored: "reduce_synthesis s m k r = Inr t' \<Longrightarrow> result_stored (x_admissions s) t'"
  by (auto simp: reduce_synthesis_def Let_def guard_simps intro!: record_stored)

lemma delegation_result_stored:
  assumes "reduce_result s m d r = Inr t'"
  shows "result_stored (x_admissions s) t'"
proof -
  let ?t = "x_admissions s"
  let ?u = "?t\<lparr>s_results := dput d r (s_results ?t)\<rparr>"
  obtain g where g: "dget (s_delegations ?t) d = Some g"
    using assms by (cases "dget (s_delegations ?t) d") (simp_all add: reduce_result_def Let_def)
  have run: "rr_run_id r = rg_run_id g" and fresh: "\<not> dhas (s_results ?t) d"
    using assms g by (simp_all add: reduce_result_def Let_def split: if_splits)
  let ?v = "if dget (s_recipients ?t) (rg_recipient g) = Some d
      then ?u\<lparr>s_recipients := ddel (rg_recipient g) (s_recipients ?t)\<rparr> else ?u"
  have v: "s_admissions ?v = s_admissions ?t" by simp
  have "(case dget (s_run_owners ?t) (rr_run_id r) of
      Some (By_admission k) \<Rightarrow> attach_result ?u m r k | _ \<Rightarrow> Inr ?v) = Inr t'"
    using assms run fresh by (simp only: reduce_result_def Let_def g option.case simp_thms if_False
        if_distrib [of Inr, symmetric])
  then show ?thesis using owned_stored [OF _ _ v] by simp
qed

lemma dispatch_stored:
  assumes "reduce_lead_dispatched s r = Inr t'"
  shows "result_stored (x_admissions s) t'"
proof (rule result_storedI(1))
  from assms obtain run where "normalize_uuid r = Inr run"
    by (auto simp: reduce_lead_dispatched_def guard_simps)
  then show "s_admissions t' = s_admissions (x_admissions s)"
    using assms by (cases "dget (s_run_owners (x_admissions s)) run")
      (auto simp: reduce_lead_dispatched_def Let_def guard_simps)
qed

lemma registered_stored: "reduce_registered s g = Inr t' \<Longrightarrow> result_stored (x_admissions s) t'"
  unfolding reduce_registered_def Let_def guard_simps
  by (rule result_storedI(1), cases "dget (s_run_owners (x_admissions s)) (rg_run_id g)";
      simp only: option.case guard_simps; elim exE conjE; drule sym; simp)

lemma run_stored: "reduce_run s m e = Inr t' \<Longrightarrow> result_stored (x_admissions s) t'"
  by (cases e)
    (auto simp: lead_result_stored synthesis_stored delegation_result_stored dispatch_stored registered_stored
      reduce_completion_request_def reduce_cancel_def Let_def guard_simps intro: result_storedI(1))

lemma run_bindings:
  assumes "bindings (x_admissions s)" and "reduce_run s m e = Inr t'"
  shows "bindings t'"
  using run_stored [OF assms(2)] unfolding result_stored_def
proof (elim disjE exE conjE)
  fix k a r
  assume a: "dget (s_admissions (x_admissions s)) k = Some a"
    and t': "s_admissions t' = dput k (a\<lparr>a_result := r\<rparr>) (s_admissions (x_admissions s))"
  have "same_proofs a (a\<lparr>a_result := r\<rparr>)" by (simp add: same_proofs_def)
  then show ?thesis by (intro bindings_put [OF assms(1) a _ t'])
qed (rule bindings_same [OF assms(1)])

lemma reduce_bindings:
  assumes "bindings (x_admissions s)" and "payload_ok p" and "reduce E s m lr p = Inr s'"
  shows "bindings (x_admissions s')"
proof (cases p)
  case (Lifecycle e)
  then show ?thesis using assms by (simp add: lifecycle_admissions)
next
  case (Admission e)
  then show ?thesis using assms by (auto intro: admission_bindings split: sum.splits)
next
  case (Run e)
  then show ?thesis using assms by (auto intro: run_bindings split: sum.splits)
qed (use assms in \<open>auto split: sum.splits\<close>)

interpretation proving: preserved "derive_step E events" "\<lambda>v. bindings (x_admissions (v_state v))" for E events
proof
  fix s e s'
  assume inv: "bindings (x_admissions (v_state s))" and step: "derive_step E events s e = Inr s'"
  from derive_stepD(2) [OF step] obtain u where
    "reduce E (v_state s) (meta_of e) (last_request events (e_sequence e)) (decode_payload (e_kind e) (e_payload e)) = Inr u"
    "v_state s' = counted (meta_of e) u" by blast
  then show "bindings (x_admissions (v_state s'))"
    using reduce_bindings [OF inv validated_payload_ok [OF derive_stepD(1) [OF step]]] by simp
qed

lemma derived_bindings: "derive_state E events = Inr s \<Longrightarrow> bindings (x_admissions s)"
proof (erule derived)
  fix v e es
  assume "fold_result (derive_step E events) (start_derivation e) events = Inr v" "s = v_state v"
  moreover have "bindings (x_admissions (v_state (start_derivation e)))"
    by (simp add: bindings_def empty_admission_state_def dict.get_empty)
  ultimately show ?thesis using proving.fold_inv by blast
qed

end
