(* ===== verification/Client_Inv.thy ===== *)
theory Client_Inv
  imports Client_Steps Binding_Inv Txn_Inv
begin

text \<open>
  What the admission client relies on: a payload it builds is decoded as the data it was built
  from, an appended event is the last one of a ledger that derives, and the reservation it built
  is the one the reducer stores.
\<close>

section \<open>Reading canonical objects\<close>

lemma field_copy:
  assumes "distinct (map fst kvs)"
  shows "field (canonical_copy (JObj kvs)) k = canonical_copy (field (JObj kvs) k)"
proof -
  let ?m = "map (\<lambda>(k, v). (k, canonical_copy v)) kvs"
  have "distinct (map fst ?m)" using assms by (simp add: comp_def case_prod_beta)
  then have "map_of (sort_key fst ?m) = map_of ?m"
    by (rule same_members_map_of [OF same_members_sort, symmetric])
  moreover have "map_of ?m k = map_option canonical_copy (map_of kvs k)" by (simp add: map_of_map)
  ultimately show ?thesis by (simp add: field_def split: option.splits)
qed

lemma has_field_copy: "has_field (canonical_copy (JObj kvs)) k = has_field (JObj kvs) k"
  by (force simp: has_field_def)

lemma copy_atoms [simp]: "canonical_copy (jopt x) = jopt x"
  by (cases x) (simp_all add: jopt_def)

text \<open>The members of a canonical object, as the readers see them.\<close>

lemma get_copy:
  assumes "distinct (map fst kvs)"
  shows "sget (canonical_copy (JObj kvs)) k = str_of (canonical_copy (field (JObj kvs) k))"
    and "oget (canonical_copy (JObj kvs)) k = ostr_of (canonical_copy (field (JObj kvs) k))"
    and "iget (canonical_copy (JObj kvs)) k = int_of (canonical_copy (field (JObj kvs) k))"
    and "bget (canonical_copy (JObj kvs)) k = bool_of (canonical_copy (field (JObj kvs) k))"
    and "sopt (canonical_copy (JObj kvs)) k =
      (if has_field (JObj kvs) k then ostr_of (canonical_copy (field (JObj kvs) k)) else None)"
  by (simp_all only: sget_def oget_def iget_def bget_def sopt_def field_copy [OF assms] has_field_copy)

lemma kind_name_inverse [simp]: "run_kind_of (kind_name k) = k"
  by (cases k) simp_all

lemma admission_json_obj: "admission_json a = JObj (obj_items (admission_json a))"
  by (simp add: admission_json_def)

lemma distinct_admission_json: "distinct (map fst (obj_items (admission_json a)))"
  by (cases "a_effect a"; cases "a_task a") (simp_all add: admission_json_def request_binding_def optional_field_def)

lemma admission_of_copy: "admission_of (canonical_copy (admission_json a)) = admission_request.truncate a"
proof -
  obtain kvs where j: "admission_json a = JObj kvs" by (simp add: admission_json_def)
  then have d: "distinct (map fst kvs)" using distinct_admission_json [of a] by simp
  show ?thesis
    unfolding admission_of_def j get_copy [OF d] unfolding j [symmetric]
    by (cases "a_effect a"; cases "a_task a")
      (simp_all add: admission_json_def request_binding_def optional_field_def field_def has_field_def
       admission_request.truncate_def kind_name_inverse [simplified])
qed

lemma truncate_request [simp]: "admission_request.truncate (a :: admission_request) = a"
  by (simp add: admission_request.truncate_def)

lemma reserved_of_copy:
  "reserved_of (canonical_copy (reserve_payload batch sha request_sha as)) =
     \<lparr>rv_batch_id = batch, rv_batch_sha = sha, rv_request_sha = Some request_sha, rv_admissions = as\<rparr>"
proof -
  let ?kvs = "[(''batch_id'', JStr batch), (''batch_sha256'', JStr sha), (''request_sha256'', JStr request_sha),
      (''admissions'', JArr (map admission_json as))]"
  have d: "distinct (map fst ?kvs)" by simp
  have "map (admission_of \<circ> canonical_copy \<circ> admission_json) as = as"
    by (rule map_idI) (simp add: admission_of_copy)
  then show ?thesis
    unfolding reserved_of_def reserve_payload_def get_copy [OF d] field_copy [OF d]
    by (simp add: field_def has_field_def comp_def)
qed

section \<open>One appended event\<close>

lemma append_event_ok:
  assumes "append_event E w t kind actor key p = Inr ((e, appended), t')"
  obtains q where "normalize_event_request E (request_json kind actor key p) = Inr q"
    and "q_kind q = kind" "q_actor q = actor" "q_key q = key" "q_payload q = canonical_copy p"
    and "append_normalized E w t [q] = Inr ([(e, appended)], t')"
proof -
  let ?j = "request_json kind actor key p"
  from assms obtain q where q: "normalize_event_request E ?j = Inr q"
    and "first_result (append_events E w t [request_json kind actor key (q_payload q)]) = Inr ((e, appended), t')"
    by (auto simp: append_event_def split: sum.splits)
  then obtain rs q' where q': "normalize_event_request E (request_json kind actor key (q_payload q)) = Inr q'"
    "append_normalized E w t [q'] = Inr (rs, t')" "hd rs = (e, appended)"
    by (auto simp: first_result_def append_events_def split: sum.splits if_splits)
  have fields: "q_kind q = kind" "q_actor q = actor" "q_key q = key" "q_payload q = canonical_copy p"
    using q by (auto simp: normalize_event_request_def request_json_def sget_def field_def split: sum.splits)
  moreover have "q_kind q' = kind" "q_actor q' = actor" "q_key q' = key" "q_payload q' = canonical_copy (q_payload q)"
    using q'(1) by (auto simp: normalize_event_request_def request_json_def sget_def field_def split: sum.splits)
  ultimately have "q' = q" by simp
  moreover have "rs = [(e, appended)]"
    using q'(2,3) by (auto simp: append_normalized_def split: sum.splits if_splits option.splits prod.splits)
  ultimately show thesis using that [OF q fields] q'(2) by simp
qed

lemma append_event_new:
  assumes "append_event E w t kind actor key p = Inr ((e, True), t')"
  obtains s where "e_kind e = kind" "e_actor e = actor" "e_key e = key" "e_payload e = canonical_copy p"
    and "tx_events t' = tx_events t @ [e]" "tx_state t' = Some s" "tx_mission t' = tx_mission t"
    and "derive_state E (tx_events t @ [e]) = Inr s"
proof -
  obtain q where q: "q_kind q = kind" "q_actor q = actor" "q_key q = key" "q_payload q = canonical_copy p"
    and a: "append_normalized E w t [q] = Inr ([(e, True)], t')"
    using append_event_ok [OF assms] .
  from a obtain new where "admit_request E w t [] (last_event (tx_events t)) q = Inr e" "new = [e]"
    "append_loop E w t (by_key (tx_events t)) [] (last_event (tx_events t)) [q] = Inr ([(e, True)], new)"
    by (auto simp: append_normalized_def split: sum.splits if_splits option.splits)
  moreover from this obtain s where "derive_state E (tx_events t @ [e]) = Inr s" "tx_state t' = Some s"
    "tx_events t' = tx_events t @ [e]" "tx_mission t' = tx_mission t"
    using a by (auto simp: append_normalized_def split: sum.splits if_splits)
  moreover have "e = new_event E w t 0 (last_event (tx_events t)) q"
    using calculation(1) by (auto simp: admit_request_def Let_def split: sum.splits if_splits)
  ultimately show thesis using that q by simp
qed

section \<open>Identities\<close>

lemma remove_all_none:
  assumes "p \<notin> set s"
  shows "remove_all (p # ps) s = s"
  using assms
proof (induction s)
  case (Cons c s)
  then show ?case by (subst remove_all.simps) auto
qed (simp add: remove_all.simps)

lemma remove_dash: "remove_all ''-'' s = filter (\<lambda>c. c \<noteq> CHR ''-'') s"
proof (induction s)
  case (Cons c s)
  then show ?case by (subst remove_all.simps) simp
qed (simp add: remove_all.simps)

lemma hex_not_special:
  assumes "is_hex c"
  shows "c \<noteq> CHR ''u''" "c \<noteq> CHR ''-''" "c \<noteq> CHR 0x7B" "c \<noteq> CHR 0x7D" "to_lower c = c"
proof -
  have "\<not> is_upper c"
    using assms by (auto simp: is_hex_def is_digit_def is_upper_def less_eq_char_def)
  then show "to_lower c = c" by (simp add: to_lower_def)
qed (use assms in \<open>auto simp: is_hex_def is_digit_def\<close>)

lemma hyphenate_chars: "set (hyphenate h) \<subseteq> insert (CHR ''-'') (set h)"
  by (auto simp: hyphenate_def dest: in_set_takeD in_set_dropD)

lemma hyphenate_dashes:
  assumes "CHR ''-'' \<notin> set h"
  shows "filter (\<lambda>c. c \<noteq> CHR ''-'') (hyphenate h) = h"
proof -
  have keep: "filter (\<lambda>c. c \<noteq> CHR ''-'') xs = xs" if "set xs \<subseteq> set h" for xs
    using that assms by (intro filter_True) auto
  have piece: "filter (\<lambda>c. c \<noteq> CHR ''-'') (take k (drop n h)) = take k (drop n h)"
    "filter (\<lambda>c. c \<noteq> CHR ''-'') (drop n h) = drop n h" for k n
    by (rule keep, meson order_trans set_drop_subset set_take_subset)+
  have split: "drop n h = take k (drop n h) @ drop (n + k) h" for n k
    by (metis append_take_drop_id drop_drop add.commute)
  have "filter (\<lambda>c. c \<noteq> CHR ''-'') (hyphenate h)
      = take 8 h @ take 4 (drop 8 h) @ take 4 (drop 12 h) @ take 4 (drop 16 h) @ drop 20 h"
    using piece(1) [of 8 0] piece(1) [of 4 8] piece(1) [of 4 12] piece(1) [of 4 16] piece(2) [of 20]
    by (simp add: hyphenate_def)
  also have "\<dots> = h"
    using split [of 8 4] split [of 12 4] split [of 16 4] append_take_drop_id [of 8 h] by simp
  finally show ?thesis .
qed

text \<open>A normalized identity is its own normal form.\<close>

lemma normalize_idem:
  assumes "normalize_uuid s = Inr u"
  shows "normalize_uuid u = Inr u"
proof -
  from assms obtain h where h: "u = hyphenate h" "length h = 32" "list_all is_hex h"
    by (auto simp: normalize_uuid_def Let_def split: if_splits)
  have chars: "\<forall>c \<in> set u. c = CHR ''-'' \<or> is_hex c"
    using hyphenate_chars [of h] h(1,3) by (auto simp: list_all_iff)
  have plain: "c \<noteq> CHR ''u'' \<and> c \<noteq> CHR 0x7B \<and> c \<noteq> CHR 0x7D" if "c \<in> set u" for c
  proof (cases "c = CHR ''-''")
    case False
    then have "is_hex c" using chars that by blast
    then show ?thesis using hex_not_special by blast
  qed simp
  then have none: "CHR ''u'' \<notin> set u" by blast
  have brace: "dropWhile (\<lambda>c. c = CHR 0x7B \<or> c = CHR 0x7D) v = v" if "set v \<subseteq> set u" for v
    using that plain by (cases v) simp_all
  have "strip_braces u = u" by (simp add: strip_braces_def brace)
  moreover have "CHR ''-'' \<notin> set h" using h(3) hex_not_special(2) by (auto simp: list_all_iff)
  moreover have "map to_lower h = h" using h(3) hex_not_special(5) by (auto simp: list_all_iff intro: map_idI)
  ultimately show ?thesis
    using h none by (simp add: normalize_uuid_def remove_all_none remove_dash hyphenate_dashes)
qed

section \<open>Building a batch\<close>

lemma with_identities_simps [simp]:
  "n_key (with_identities q ids) = n_key q" "n_kind (with_identities q ids) = n_kind q"
  "n_recipient (with_identities q ids) = n_recipient q" "n_capability (with_identities q ids) = n_capability q"
  "n_effect (with_identities q ids) = n_effect q" "n_task (with_identities q ids) = n_task q"
  "n_parent (with_identities q ids) = n_parent q" "n_parent_run (with_identities q ids) = n_parent_run q"
  "n_budget (with_identities q ids) = n_budget q" "n_writer (with_identities q ids) = n_writer q"
  "b_id (with_identities q ids) = fst ids" "b_run (with_identities q ids) = fst (snd ids)"
  "b_delegation (with_identities q ids) = snd (snd ids)"
  by (simp_all add: with_identities_def admission_query.defs base.defs split: prod.splits)

lemma deterministic_ids_ok:
  assumes "deterministic_ids E mission key kind = Inr ids" and "normalize_uuid mission = Inr mission"
  shows "ids = (admission_uuid E mission (run_kind_of kind) key, run_uuid E mission (run_kind_of kind) key,
    delegation_uuid E mission (run_kind_of kind) key)"
  using assms by (auto simp: deterministic_ids_def Let_def guard_simps simp del: run_kind_of.simps)

text \<open>One base per request, with the identities the mission gives it.\<close>

definition based_on :: "prims \<Rightarrow> string \<Rightarrow> admission_query \<Rightarrow> base \<Rightarrow> bool" where
  "based_on E mission q b \<longleftrightarrow>
     b = with_identities q (admission_uuid E mission (n_kind q) (n_key q), run_uuid E mission (n_kind q) (n_key q),
           delegation_uuid E mission (n_kind q) (n_key q))"

lemma bases_ok:
  assumes "bases E mission seen qs = Inr bs" and "normalize_uuid mission = Inr mission"
  shows "list_all2 (based_on E mission) qs bs"
  using assms(1)
proof (induction qs arbitrary: seen bs)
  case (Cons q qs)
  then obtain ids bs' where "deterministic_ids E mission (n_key q) (kind_name (n_kind q)) = Inr ids"
    "bases E mission (n_key q # seen) qs = Inr bs'" "bs = with_identities q ids # bs'"
    by (auto simp: guard_simps)
  then show ?case
    using Cons.IH deterministic_ids_ok [OF _ assms(2)] by (fastforce simp: based_on_def simp del: run_kind_of.simps)
qed simp

text \<open>The admission asks for what the request asked for; a stated parent is kept.\<close>

definition asks :: "admission_query \<Rightarrow> 'a admission_request_scheme \<Rightarrow> bool" where
  "asks q a \<longleftrightarrow>
     a_request_key a = n_key q \<and> a_run_kind a = n_kind q \<and> a_recipient a = n_recipient q
     \<and> a_capability a = n_capability q \<and> a_effect a = Some (n_effect q) \<and> a_task a = Some (n_task q)
     \<and> a_budget a = n_budget q \<and> a_writer a = n_writer q
     \<and> (n_parent q \<noteq> None \<longrightarrow> a_parent a = n_parent q)
     \<and> (n_parent_run q \<noteq> None \<longrightarrow> a_parent_run a = n_parent_run q)"

lemma default_parent_run: "n_parent_run b \<noteq> None \<Longrightarrow> snd (default_parent t ps b) = n_parent_run b"
  by (auto simp: default_parent_def split: option.splits list.splits)

lemma resolved_parent_kept:
  "n_parent b \<noteq> None \<Longrightarrow> fst (resolved_parent t actor ps b) = n_parent b"
  "n_parent_run b \<noteq> None \<Longrightarrow> fst (snd (resolved_parent t actor ps b)) = n_parent_run b"
  using default_parent_run [of b t ps]
  by (auto simp: resolved_parent_def Let_def split: option.splits prod.splits if_splits)

lemma build_fields:
  assumes "resolved_parent t actor ps b = (pid, prun, kind)" and "costs b kind = (cost, global, debit)"
  shows "a_id (build_admission E t actor ps b) = b_id b" "a_run_id (build_admission E t actor ps b) = b_run b"
    "a_delegation_id (build_admission E t actor ps b) = b_delegation b"
    "a_run_kind (build_admission E t actor ps b) = n_kind b" "a_request_key (build_admission E t actor ps b) = n_key b"
    "a_recipient (build_admission E t actor ps b) = n_recipient b"
    "a_capability (build_admission E t actor ps b) = n_capability b"
    "a_effect (build_admission E t actor ps b) = Some (n_effect b)"
    "a_task (build_admission E t actor ps b) = Some (n_task b)"
    "a_budget (build_admission E t actor ps b) = n_budget b" "a_writer (build_admission E t actor ps b) = n_writer b"
    "a_parent (build_admission E t actor ps b) = pid" "a_parent_run (build_admission E t actor ps b) = prun"
    "a_cost (build_admission E t actor ps b) = cost" "a_global_debit (build_admission E t actor ps b) = global"
    "a_parent_debit (build_admission E t actor ps b) = debit"
    "a_request_digest (build_admission E t actor ps b) = sha256 E (request_binding (build_admission E t actor ps b))"
  using assms by (simp_all add: build_admission_def Let_def request_binding_def)

lemma build_asks: "based_on E mission q b \<Longrightarrow> asks q (build_admission E t actor ps b)"
  using resolved_parent_kept [of b t actor ps]
  by (cases "resolved_parent t actor ps b"; cases "costs b (snd (snd (resolved_parent t actor ps b)))")
    (simp add: asks_def build_fields based_on_def)

lemma build_admissions_ok:
  assumes "build_admissions E mission qs t actor = Inr as" and "normalize_uuid mission = Inr mission"
  obtains bs where "list_all2 (based_on E mission) qs bs"
    and "as = sort_key a_id (map (build_admission E t actor (prospective_bases bs)) bs)"
proof -
  from assms(1) obtain bs where "bases E mission [] qs = Inr bs"
    and as: "as = sort_key a_id (map (build_admission E t actor (prospective_bases bs)) bs)"
    by (auto simp: build_admissions_def split: sum.splits)
  from bases_ok [OF this(1) assms(2)] as show thesis by (rule that)
qed

section \<open>The reservation in the ledger\<close>

lemma decode_reserved:
  "decode_payload ''delegations_reserved'' p = Admission (Delegations_reserved (reserved_of p))"
  by (simp add: decode_payload_def decode_lifecycle_def decode_admission_def)

lemma reserve_exact:
  assumes "reserve_admissions E s m p = Inr t'"
  obtains lane po g ds where "t' = commit_batch lane (m_sha m) po p g ds (x_admissions s)"
  using assms by (auto simp: reserve_admissions_def guard_simps Let_def split: prod.splits)

lemma reserved_event_state:
  assumes "append_event E w t ''delegations_reserved'' actor key (reserve_payload batch sha request_sha as) = Inr ((e, True), t')"
    and "txn_ok E t" and "tx_state t = Some s"
  obtains s' lane ds where "tx_state t' = Some s'" "tx_mission t' = tx_mission t" "batch_ok as"
    and "e_payload e = canonical_copy (reserve_payload batch sha request_sha as)"
    and "reserve_admissions E s (meta_of e)
      \<lparr>rv_batch_id = batch, rv_batch_sha = sha, rv_request_sha = Some request_sha, rv_admissions = as\<rparr>
      = Inr (x_admissions s')"
    and "\<forall>a \<in> set as. dget (s_admissions (x_admissions s')) (a_id a) = Some (stored_admission lane (e_sha e) ds a)"
proof -
  obtain s' where e: "e_kind e = ''delegations_reserved''"
      "e_payload e = canonical_copy (reserve_payload batch sha request_sha as)"
    and t': "tx_state t' = Some s'" "tx_mission t' = tx_mission t"
    and derive: "derive_state E (tx_events t @ [e]) = Inr s'"
    by (rule append_event_new [OF assms(1)]) blast
  have before: "derive_state E (tx_events t) = Inr s" and seq: "sequenced (tx_events t)"
    using assms(2,3) chained_sequenced by (auto simp: txn_ok_def split: if_splits)
  let ?rv = "\<lparr>rv_batch_id = batch, rv_batch_sha = sha, rv_request_sha = Some request_sha, rv_admissions = as\<rparr>"
  obtain u where valid: "validate_payload E (e_kind e) (e_payload e) = Inr ()"
    and u: "reduce E s (meta_of e) (last_request (tx_events t @ [e]) (e_sequence e))
      (decode_payload (e_kind e) (e_payload e)) = Inr u" "s' = counted (meta_of e) u"
    using derive_snoc [OF derive before seq] .
  have ok: "batch_ok as"
    using validated_reserved [of E "e_payload e"] valid by (simp add: e reserved_of_copy del: canonical_copy.simps)
  obtain t2 where "reserve_admissions E s (meta_of e) ?rv = Inr t2" "x_admissions s' = t2"
    using u by (auto simp: e decode_reserved reserved_of_copy simp del: canonical_copy.simps split: sum.splits)
  then have res: "reserve_admissions E s (meta_of e) ?rv = Inr (x_admissions s')" by simp
  obtain lane po g ds where t2: "x_admissions s' = commit_batch lane (m_sha (meta_of e)) po ?rv g ds (x_admissions s)"
    using reserve_exact [OF res] .
  have "dget (s_admissions (x_admissions s')) (a_id a) = Some (stored_admission lane (e_sha e) ds a)" if "a \<in> set as" for a
    using batch_map_member [of a_id as a] that ok batch_fields(1) [of ?rv lane "m_sha (meta_of e)" po g ds "x_admissions s" "a_id a"]
    by (simp add: t2 batch_ok_def meta_of_def)
  then show thesis using that [OF t' ok e(2) res] by blast
qed

lemma stored_asks: "asks q (stored_admission lane ev ds a) = asks q a"
  by (simp add: asks_def stored_admission_def admission_request.defs admission.defs)

lemma stored_event: "a_reservation_event (stored_admission lane ev ds a) = ev"
  by (simp add: stored_admission_def admission_request.defs admission.defs)

lemma sget_copy_id: "sget (canonical_copy (admission_json a)) ''admission_id'' = a_id a"
  using arg_cong [OF admission_of_copy [of a], of a_id] by (simp add: admission_of_def admission_request.truncate_def)

lemma payload_ids:
  assumes "e_payload e = canonical_copy (reserve_payload batch sha request_sha as)"
  shows "event_admission_ids e = map a_id as"
proof -
  let ?kvs = "[(''batch_id'', JStr batch), (''batch_sha256'', JStr sha), (''request_sha256'', JStr request_sha),
      (''admissions'', JArr (map admission_json as))]"
  have "distinct (map fst ?kvs)" by simp
  then have "field (e_payload e) ''admissions'' = canonical_copy (field (JObj ?kvs) ''admissions'')"
    unfolding assms reserve_payload_def by (rule field_copy)
  then show ?thesis by (simp add: event_admission_ids_def field_def sget_copy_id)
qed

lemma durable_map:
  "durable_admissions d ks = Inr as \<longleftrightarrow> list_all2 (\<lambda>k a. dget d k = Some a) ks as"
  by (induction ks arbitrary: as) (auto simp: guard_simps list_all2_Cons1)

end
