(* ===== verification/Client_Match.thy ===== *)
theory Client_Match
  imports Client_Inv
begin

text \<open>
  The batch the client builds against the reducer that recomputes it: identities, digest,
  parents, runs and debits agree, so that only a conflict with the present state can refuse it.
\<close>

section \<open>The Lead slot\<close>

definition lead_slot :: "admission_state \<Rightarrow> bool" where
  "lead_slot t \<longleftrightarrow>
     (\<forall>k. s_lead_admission t = Some k \<longrightarrow> (\<exists>a. dget (s_admissions t) k = Some a \<and> a_run_kind a = Lead))"

lemma store_admissions_lead:
  "s_lead_admission (store_admissions lane ev ps as t) =
     (case filter (\<lambda>a. a_run_kind a = Lead) as of [] \<Rightarrow> s_lead_admission t | ls \<Rightarrow> Some (a_id (last ls)))"
proof (induction as arbitrary: t)
  case (Cons a as)
  then show ?case by (cases "a_run_kind a") (simp_all add: store_admission_def split: list.splits)
qed simp

lemma commit_batch_lead:
  "s_lead_admission (commit_batch lane ev po p g ds t) =
     (case filter (\<lambda>a. a_run_kind a = Lead) (rv_admissions p) of
        [] \<Rightarrow> s_lead_admission t | ls \<Rightarrow> Some (a_id (last ls)))"
  by (simp add: commit_batch_def Let_def store_admissions_lead split: list.splits)

lemma release_lead [simp]: "s_lead_admission (release_admission b t) = s_lead_admission t"
  by (simp add: release_admission_def)

lemma reserve_lead_slot:
  assumes "fits t po (rv_admissions p) g ds" and "lead_slot t"
  shows "lead_slot (commit_batch lane ev po p g ds t)"
  unfolding lead_slot_def
proof (intro allI impI)
  fix k
  let ?t = "commit_batch lane ev po p g ds t" and ?leads = "filter (\<lambda>a. a_run_kind a = Lead) (rv_admissions p)"
  assume k: "s_lead_admission ?t = Some k"
  show "\<exists>a. dget (s_admissions ?t) k = Some a \<and> a_run_kind a = Lead"
  proof (cases "?leads = []")
    case True
    then obtain a where "dget (s_admissions t) k = Some a" "a_run_kind a = Lead"
      using k assms(2) by (auto simp: commit_batch_lead lead_slot_def)
    moreover have "batch_map a_id (rv_admissions p) k = None"
      using assms(1) calculation by (auto simp: fits_def slots_free_def dhas_def batch_map_None)
    ultimately show ?thesis by (simp add: batch_simps [OF assms(1)])
  next
    case False
    have "last ?leads \<in> {a \<in> set (rv_admissions p). a_run_kind a = Lead}"
      using last_in_set [OF False] unfolding set_filter .
    then have "last ?leads \<in> set (rv_admissions p)" "a_run_kind (last ?leads) = Lead"
      by (simp_all only: mem_Collect_eq)
    moreover have "k = a_id (last ?leads)" using k False by (simp add: commit_batch_lead split: list.splits)
    ultimately show ?thesis
      using batch_map_member [of a_id "rv_admissions p" "last ?leads"] fits_batch_ok [OF assms(1)]
      by (simp add: batch_simps [OF assms(1)] batch_ok_def)
  qed
qed

lemma put_lead_slot:
  "lead_slot t \<Longrightarrow> dget (s_admissions t) k = Some a \<Longrightarrow> a_run_kind b = a_run_kind a \<Longrightarrow>
     s_lead_admission t' = s_lead_admission t \<Longrightarrow>
     (\<And>k'. dget (s_admissions t') k' = (if k = k' then Some b else dget (s_admissions t) k')) \<Longrightarrow> lead_slot t'"
  by (fastforce simp: lead_slot_def)

lemma move_lead_slot:
  assumes "move t t'" and "keyed t" and "lead_slot t"
  shows "lead_slot t'"
  using assms(1)
proof cases
  case (reserve po p g ds lane ev)
  then show ?thesis using reserve_lead_slot assms(3) by blast
next
  case (commit k a b)
  then show ?thesis
    using keyedD [OF assms(2) commit(2)] same_request_dataD(5) [OF commit(6)]
    by (intro put_lead_slot [OF assms(3) commit(2), of b]) simp_all
next
  case (advance k a b)
  then show ?thesis
    using same_request_dataD(5) [OF advance(3)] by (intro put_lead_slot [OF assms(3) advance(2), of b]) simp_all
next
  case (finalize k a b)
  then show ?thesis
    using keyedD [OF assms(2) finalize(2)] same_request_dataD(1,5) [OF finalize(5)]
    by (intro put_lead_slot [OF assms(3) finalize(2), of "b\<lparr>a_active := False\<rparr>"]) (simp_all add: release_fields)
next
  case (abort_reserved k a b)
  then show ?thesis
    using keyedD [OF assms(2) abort_reserved(2)] same_request_dataD(1,5) [OF abort_reserved(5)]
    by (intro put_lead_slot [OF assms(3) abort_reserved(2), of "b\<lparr>a_active := False\<rparr>"]) (simp_all add: release_fields)
next
  case (abort_committed k a b)
  then show ?thesis
    using keyedD [OF assms(2) abort_committed(2)] same_request_dataD(1,5) [OF abort_committed(5)]
    by (intro put_lead_slot [OF assms(3) abort_committed(2), of "b\<lparr>a_active := False\<rparr>"]) (simp_all add: release_fields)
next
  case (abort_unowned k a b)
  then show ?thesis
    using keyedD [OF assms(2) abort_unowned(2)] same_request_dataD(1,5) [OF abort_unowned(5)]
    by (intro put_lead_slot [OF assms(3) abort_unowned(2), of "b\<lparr>a_active := False\<rparr>"]) (simp_all add: release_fields)
qed (use assms(3) in \<open>simp_all add: lead_slot_def\<close>)

interpretation leads: admission_invariant lead_slot
proof
  show "lead_slot empty_admission_state" by (simp add: lead_slot_def empty_admission_state_def)
qed (rule move_lead_slot)

section \<open>Requests of the batch\<close>

lemma prospective_fold:
  "dget (fold (\<lambda>b d. dput (b_id b) b d) bs d) k = (case batch_map b_id (rev bs) k of Some b \<Rightarrow> Some b | None \<Rightarrow> dget d k)"
proof (induction bs arbitrary: d)
  case (Cons b bs)
  have "batch_map b_id (xs @ [b]) k = (case batch_map b_id xs k of Some c \<Rightarrow> Some c | None \<Rightarrow> if b_id b = k then Some b else None)"
    for xs by (induction xs) auto
  with Cons show ?case by (auto split: option.splits)
qed simp

lemma prospective_get:
  "dget (prospective_bases bs) k = batch_map b_id (rev bs) k"
  by (simp add: prospective_bases_def prospective_fold dict.get_empty split: option.splits)

lemma prospective_member:
  "dget (prospective_bases bs) k = Some b \<Longrightarrow> b \<in> set bs \<and> b_id b = k"
  using batch_map_SomeD [of b_id "rev bs" k b] by (simp add: prospective_get)

text \<open>
  A request the client can resolve: it states no run, its parent is stored, and a Lead asks for
  neither parent nor budget.
\<close>

definition resolvable :: "admission_state \<Rightarrow> 'a admission_query_scheme \<Rightarrow> bool" where
  "resolvable t q \<longleftrightarrow>
     n_parent_run q = None \<and> (\<forall>k. n_parent q = Some k \<longrightarrow> dhas (s_admissions t) k)
     \<and> (n_kind q = Lead \<longrightarrow> n_parent q = None \<and> n_budget q = 0)"

lemma based_resolvable: "based_on E mission q b \<Longrightarrow> resolvable t b = resolvable t q"
  by (simp add: based_on_def resolvable_def)

text \<open>
  A batch whose identities the reducer has accepted: the dictionary of the reducer and that of
  the client know the same members.
\<close>

definition agreed ::
  "prims \<Rightarrow> admission_state \<Rightarrow> string \<Rightarrow> base list \<Rightarrow> admission_request list \<Rightarrow> admission_request dict \<Rightarrow> bool" where
  "agreed E t actor bs as ps \<longleftrightarrow>
     set as = build_admission E t actor (prospective_bases bs) ` set bs \<and> distinct (map b_id bs)
     \<and> (\<forall>k. dget ps k = batch_map a_id as k) \<and> (\<forall>a \<in> set as. \<not> dhas (s_admissions t) (a_id a))"

lemma built_fields:
  "a_id (build_admission E t actor ps b) = b_id b" "a_run_id (build_admission E t actor ps b) = b_run b"
  "a_delegation_id (build_admission E t actor ps b) = b_delegation b"
  "a_run_kind (build_admission E t actor ps b) = n_kind b" "a_request_key (build_admission E t actor ps b) = n_key b"
  "a_budget (build_admission E t actor ps b) = n_budget b"
  "a_request_digest (build_admission E t actor ps b) = sha256 E (request_binding (build_admission E t actor ps b))"
  by (cases "resolved_parent t actor ps b"; cases "costs b (snd (snd (resolved_parent t actor ps b)))";
      simp add: build_fields)+

lemma agreed_lookup:
  assumes "agreed E t actor bs as ps"
  shows "dget ps k = map_option (build_admission E t actor (prospective_bases bs)) (dget (prospective_bases bs) k)"
proof (cases "dget (prospective_bases bs) k")
  case None
  then have "k \<notin> b_id ` set bs" by (simp add: prospective_get batch_map_None)
  then have "batch_map a_id as k = None" using assms by (auto simp: agreed_def batch_map_None built_fields)
  then show ?thesis using assms None by (simp add: agreed_def)
next
  case (Some b)
  note b = prospective_member [OF Some]
  let ?f = "build_admission E t actor (prospective_bases bs)"
  have set_as: "set as = ?f ` set bs" using assms unfolding agreed_def by (rule conjunct1)
  have "?f b \<in> set as" unfolding set_as using b by (intro imageI) (rule conjunct1)
  moreover have "a_id (?f b) = k" using b by (simp add: built_fields)
  ultimately have "k \<in> a_id ` set as" by blast
  then obtain a where a: "batch_map a_id as k = Some a" using batch_map_None [of a_id as k] by auto
  have "a \<in> ?f ` set bs" and k: "a_id a = k"
    using batch_map_SomeD [OF a] unfolding set_as [symmetric] by blast+
  then obtain c where "a = ?f c" "c \<in> set bs" by (elim imageE)
  moreover from this k have "b_id c = k" by (simp only: built_fields(1))
  moreover have "inj_on b_id (set bs)" using assms by (simp add: agreed_def distinct_map)
  ultimately have "c = b" using b by (metis inj_onD)
  then show ?thesis using assms a Some \<open>a = ?f c\<close> by (simp add: agreed_def)
qed

lemma parents_agree:
  assumes "agreed E t actor bs as ps"
  shows "parent_facts t (prospective_bases bs) pid
    = map_option (\<lambda>q. (parent_kind q, parent_run q)) (find_parent ps (s_admissions t) pid)"
  by (cases pid)
    (auto simp: parent_facts_def find_parent_def agreed_lookup [OF assms] built_fields option.map_comp comp_def
      split: option.splits)

section \<open>Debits\<close>

lemma check_parent_conflict:
  "check_parent t lane q a = Inl x \<Longrightarrow> a_parent_run a = Some (parent_run q) \<Longrightarrow> x = MissionConflict"
  by (auto simp: check_parent_def split: if_splits)

text \<open>Where the parent of a resolvable specialist comes from.\<close>

lemma resolved_cases:
  assumes "agreed E t actor bs as ps" and "b \<in> set bs" and "resolvable t b" and "n_kind b = Specialist" and "lead_slot t"
    and "resolved_parent t actor (prospective_bases bs) b = (pid, run, kind)"
  obtains (known) k q where "pid = Some k" "find_parent ps (s_admissions t) pid = Some q"
      "run = Some (parent_run q)" "kind = Some (parent_kind q)"
      "dhas (s_admissions t) k \<or> (\<exists>a. dget ps k = Some a \<and> a_run_kind a = Lead)"
    | (root) "pid = None" "run = (if actor = ''CONTROL'' then s_lead_run t else None)" "kind = None"
proof -
  let ?ps = "prospective_bases bs"
  let ?root = "if actor = ''CONTROL'' then s_lead_run t else None"
  obtain pid0 run0 where start: "(if actor = ''CONTROL'' \<and> n_parent b = None then default_parent t ?ps b
      else (n_parent b, n_parent_run b)) = (pid0, run0)"
    by (cases "if actor = ''CONTROL'' \<and> n_parent b = None then default_parent t ?ps b else (n_parent b, n_parent_run b)")
  have run0: "n_parent_run b = None" using assms(3) by (simp add: resolvable_def)
  have source: "(\<exists>k. pid0 = Some k \<and> run0 = None
        \<and> (dhas (s_admissions t) k \<or> (\<exists>a. dget ps k = Some a \<and> a_run_kind a = Lead)))
      \<or> pid0 = None \<and> run0 = ?root"
  proof (cases "actor = ''CONTROL'' \<and> n_parent b = None")
    case False
    then show ?thesis using start assms(3) run0 by (cases "n_parent b") (auto simp: resolvable_def)
  next
    case control: True
    then have d: "default_parent t ?ps b = (pid0, run0)" using start by simp
    show ?thesis
    proof (cases "s_lead_admission t")
      case (Some lead)
      then show ?thesis using d assms(5) run0 control by (auto simp: default_parent_def lead_slot_def dhas_def)
    next
      case no_lead: None
      show ?thesis
      proof (cases "\<exists>l. filter (\<lambda>x. n_kind x = Lead) (dvals ?ps) = [l]")
        case True
        then obtain l where l: "filter (\<lambda>x. n_kind x = Lead) (dvals ?ps) = [l]" by blast
        then have "l \<in> {x \<in> set (dvals ?ps). n_kind x = Lead}" unfolding set_filter [symmetric] by simp
        then have "l \<in> set (dvals ?ps)" "n_kind l = Lead" by (simp_all only: mem_Collect_eq)
        then obtain k where "dget ?ps k = Some l" "b_id l = k" using dict.set_vals prospective_member by metis
        then have "dget ps (b_id l) = Some (build_admission E t actor ?ps l)"
          using agreed_lookup [OF assms(1)] by simp
        moreover have "pid0 = Some (b_id l)" "run0 = None"
          using d no_lead l run0 by (simp_all add: default_parent_def)
        ultimately show ?thesis using \<open>n_kind l = Lead\<close> by (auto simp: built_fields)
      next
        case False
        then show ?thesis using d no_lead run0 control by (auto simp: default_parent_def split: list.splits if_splits)
      qed
    qed
  qed
  have res: "resolved_parent t actor ?ps b = (case parent_facts t ?ps pid0 of
      None \<Rightarrow> (pid0, run0, None) | Some (kd, pr) \<Rightarrow> (pid0, if run0 = None then Some pr else run0, Some kd))"
    using start assms(4) by (simp add: resolved_parent_def conj_commute)
  from source consider (stated) k where "pid0 = Some k" "run0 = None"
      "dhas (s_admissions t) k \<or> (\<exists>a. dget ps k = Some a \<and> a_run_kind a = Lead)"
    | (none) "pid0 = None" "run0 = ?root" by blast
  then show thesis
  proof cases
    case stated
    then obtain q where q: "find_parent ps (s_admissions t) pid0 = Some q"
      by (cases "dget ps k") (auto simp: find_parent_def dhas_def)
    then show thesis
      using res assms(6) stated known by (simp add: parents_agree [OF assms(1)])
  next
    case none
    then show thesis using res assms(6) root by (simp add: parent_facts_def)
  qed
qed

lemma lead_resolved:
  "resolvable t b \<Longrightarrow> n_kind b = Lead \<Longrightarrow> resolved_parent t actor ps b = (None, None, None)"
  by (simp add: resolvable_def resolved_parent_def parent_facts_def)

lemma built_debit:
  assumes "agreed E t actor bs as ps" and "b \<in> set bs" and "resolvable t b" and "lead_slot t"
    and "debit_of t actor ps (build_admission E t actor (prospective_bases bs) b) = Inl x"
    and lane: "actor = ''CONTROL'' \<or> actor = ''ASSURED''"
  shows "x = MissionConflict"
proof (cases "n_kind b")
  case Lead
  let ?a = "build_admission E t actor (prospective_bases bs) b"
  have r: "resolved_parent t actor (prospective_bases bs) b = (None, None, None)"
    using assms(3) Lead by (rule lead_resolved)
  have c: "costs b None = (0, 0, 0)" using Lead by (simp add: costs_def)
  have "n_budget b = 0" using assms(3) Lead by (simp add: resolvable_def)
  then have "debit_lead ?a = Inr No_debit" by (simp add: debit_lead_def build_fields [OF r c])
  then show ?thesis using assms(5) Lead by (simp add: debit_of_def built_fields)
next
  case Specialist
  let ?a = "build_admission E t actor (prospective_bases bs) b"
  obtain pid run kind where r: "resolved_parent t actor (prospective_bases bs) b = (pid, run, kind)"
    by (cases "resolved_parent t actor (prospective_bases bs) b")
  obtain cost global debit where c: "costs b kind = (cost, global, debit)" by (cases "costs b kind")
  have cost: "cost = 1 + n_budget b" "kind = Some Specialist \<Longrightarrow> global = 0 \<and> debit = cost"
      "kind \<noteq> Some Specialist \<Longrightarrow> global = cost \<and> debit = 0"
    using c Specialist by (auto simp: costs_def Let_def split: if_splits)
  note fields = build_fields [OF r c]
  from assms(1-3) Specialist assms(4) r show ?thesis
  proof (cases rule: resolved_cases)
    case (known k q)
    have conflict: "check_parent t actor q ?a = Inl y \<Longrightarrow> y = MissionConflict" for y
      by (erule check_parent_conflict) (simp add: fields known)
    show ?thesis
    proof (cases "parent_kind q")
      case Lead
      then show ?thesis
        using assms(5) conflict known(1,2) cost(1,3) known(4) Specialist
        by (cases "check_parent t actor q ?a")
          (auto simp: debit_of_def Let_def debit_root_def check_root_def fields)
    next
      case Specialist: Specialist
      then show ?thesis
        using assms(5) conflict known(1,2) cost(1,2) known(4) \<open>n_kind b = Specialist\<close>
        by (cases "check_parent t actor q ?a")
          (auto simp: debit_of_def Let_def debit_child_def fields)
    qed
  next
    case root
    have "check_root t actor None ?a = Inr ()"
      unfolding check_root_def fields root require_def using lane by (auto split: if_splits)
    then have "debit_of t actor ps ?a = Inr (Global_debit cost)"
      using cost Specialist root
      by (simp add: debit_of_def Let_def find_parent_def debit_root_def fields)
    then show ?thesis using assms(5) by simp
  qed
qed

lemma debits_error:
  "debits t lane ps as acc = Inl x \<Longrightarrow> \<exists>a \<in> set as. debit_of t lane ps a = Inl x"
  by (induction as arbitrary: acc) (auto split: sum.splits)

text \<open>No walk over parents comes back: the parents inside the batch are Leads.\<close>

lemma built_acyclic:
  assumes "agreed E t actor bs as ps" and "b \<in> set bs" and "\<forall>b \<in> set bs. resolvable t b" and "lead_slot t"
  shows "\<not> parent_cycle ps (a_parent (build_admission E t actor (prospective_bases bs) b)) []"
proof -
  let ?f = "build_admission E t actor (prospective_bases bs)"
  have lead_root: "a_parent (?f l) = None" if "l \<in> set bs" "n_kind l = Lead" for l
  proof -
    have r: "resolved_parent t actor (prospective_bases bs) l = (None, None, None)"
      using assms(3) that lead_resolved by blast
    obtain c g d where "costs l None = (c, g, d)" by (cases "costs l None")
    then show ?thesis using build_fields(12) [OF r] by blast
  qed
  have stop: "\<not> parent_cycle ps None seen" for seen by (simp add: parent_cycle.simps)
  show ?thesis
  proof (cases "n_kind b")
    case Lead
    then show ?thesis using lead_root [OF assms(2)] stop by simp
  next
    case Specialist
    obtain pid run kind where r: "resolved_parent t actor (prospective_bases bs) b = (pid, run, kind)"
      by (cases "resolved_parent t actor (prospective_bases bs) b")
    obtain c g d where c: "costs b kind = (c, g, d)" by (cases "costs b kind")
    have parent: "a_parent (?f b) = pid" by (rule build_fields(12) [OF r c])
    have "resolvable t b" using assms(2,3) by blast
    from assms(1,2) this Specialist assms(4) r show ?thesis
    proof (cases rule: resolved_cases)
      case (known k q)
      show ?thesis
      proof (cases "dget ps k")
        case None
        then show ?thesis by (simp add: parent known(1) parent_cycle.simps)
      next
        case (Some a)
        then obtain l where l: "dget (prospective_bases bs) k = Some l" "a = ?f l"
          using agreed_lookup [OF assms(1), of k] by (cases "dget (prospective_bases bs) k") auto
        then have "a \<in> set as" "a_id a = k"
          using assms(1) Some batch_map_SomeD [of a_id as k a] by (simp_all add: agreed_def)
        then have "\<not> dhas (s_admissions t) k" using assms(1) by (auto simp: agreed_def)
        then have "a_run_kind a = Lead" using known(5) Some by simp
        then have "a_parent a = None" using lead_root l prospective_member [OF l(1)] by (simp add: built_fields)
        then show ?thesis using Some stop by (subst parent_cycle.simps) (simp add: parent known(1))
      qed
    next
      case root
      then show ?thesis using stop by (simp add: parent)
    qed
  qed
qed

end
