(* ===== verification/Append_Live.thy ===== *)
theory Append_Live
  imports Client_Inv
begin

text \<open>
  When an append succeeds: a request with safe names and a valid payload under a fresh key,
  whose event the reducer accepts in the present state, is appended by a transaction that may
  write.  The digest and the clock of the library are asked to be what they are documented to be.
\<close>

section \<open>What the library promises\<close>

text \<open>
  \<open>hexdigest\<close> writes 64 lower-case hexadecimal digits, and \<open>fromisoformat\<close> reads what
  \<open>isoformat\<close> writes, for the instants from 1970 to the last one of the year 9999 that a
  datetime can hold.
\<close>

definition dated :: "int \<Rightarrow> bool" where
  "dated i \<longleftrightarrow> 0 \<le> i \<and> i < 253402300800000000"

definition library_ok :: "prims \<Rightarrow> bool" where
  "library_ok E \<longleftrightarrow> (\<forall>x. is_sha256 (hexdigest E x)) \<and> (\<forall>i. dated i \<longrightarrow> parse_iso E (format_iso E i) = Some i)"

lemma library_digest: "library_ok E \<Longrightarrow> is_sha256 (sha256 E j)"
  by (simp add: library_ok_def sha256_def)

lemma library_clock: "library_ok E \<Longrightarrow> dated i \<Longrightarrow> parse_iso E (format_iso E i) = Some i"
  by (simp add: library_ok_def)

section \<open>The new event is valid\<close>

definition request_names :: "request \<Rightarrow> bool" where
  "request_names q \<longleftrightarrow> safe_kind (q_kind q) \<and> safe_actor (q_actor q) \<and> safe_key (q_key q)"

lemma new_event_more [simp]:
  "e_id (new_event E w t n p q) = w_fresh w n"
  "e_sequence (new_event E w t n p q) = int (length (tx_events t)) + int n + 1"
  "e_previous (new_event E w t n p q) = head_of p"
  by (simp_all add: new_event_def seal_def)

lemma new_event_sha: "e_sha (new_event E w t n p q) = sha256 E (unsigned_json (new_event E w t n p q))"
  by (simp add: new_event_def seal_def unsigned_json_def unsigned_items_def)

lemma last_sequence:
  assumes "sequenced es"
  shows "next_sequence (last_event es) = int (length es) + 1"
proof (cases es rule: rev_cases)
  case (snoc fs f)
  have "map e_sequence (fs @ [f]) = map (\<lambda>n. int n + 1) [0..<length fs] @ [int (length fs) + 1]"
    using assms by (simp add: sequenced_def snoc)
  then show ?thesis by (simp add: last_event_def next_sequence_def snoc)
qed (simp add: last_event_def next_sequence_def)

text \<open>The instant of the next event: the clock, moved behind the event before it.\<close>

definition next_instant :: "prims \<Rightarrow> int \<Rightarrow> event option \<Rightarrow> int" where
  "next_instant E now p = (case p of None \<Rightarrow> now | Some q \<Rightarrow> max now (instant E (e_time q) + 1))"

lemma next_timestamp_instant: "next_timestamp E now p = format_iso E (next_instant E now p)"
  by (simp add: next_timestamp_def next_instant_def)

lemma next_timestamp_later:
  "library_ok E \<Longrightarrow> dated (next_instant E now p) \<Longrightarrow>
     parse_iso E (next_timestamp E now p) = Some (next_instant E now p) \<and> later E p (next_timestamp E now p)"
  by (cases p) (auto simp: next_timestamp_instant library_clock later_def instant_def [of E "format_iso E _"] next_instant_def)

lemma new_event_valid_at:
  assumes "library_ok E" and "next_sequence p = int (length (tx_events t)) + int n + 1" and "is_uuid (w_fresh w n)"
    and "is_uuid (tx_mission t)" and "request_names q" and "validate_payload E (q_kind q) (q_payload q) = Inr ()"
    and "q_kind q \<noteq> ''human_decision_requested''" and "dated (next_instant E (w_clock w n) p)"
  shows "validate_event E (tx_mission t) p (event_json (new_event E w t n p q)) = Inr ()"
proof -
  let ?e = "new_event E w t n p q"
  have fields: "has_exactly (event_json ?e) event_fields"
    by (simp add: has_exactly_def event_json_items event_keys has_field_def list_all_iff)
  have schema: "field (event_json ?e) ''schema_version'' = JInt 1"
    by (simp add: event_json_def unsigned_items_def field_def)
  have sha: "sha256 E (unsigned_json ?e) = e_sha ?e" "is_sha256 (e_sha ?e)"
    using library_digest [OF assms(1)] by (simp_all add: new_event_sha)
  have "is_obj (event_json ?e)" by (simp add: event_json_def)
  moreover have "valid_envelope (tx_mission t) (event_json ?e)"
    using fields schema assms(3,4) by (simp add: valid_envelope_def event_json_fields v_uuid_def sget_def)
  moreover have "valid_position E p (event_json ?e)"
    using next_timestamp_later [OF assms(1,8)] assms(2)
    by (simp add: valid_position_def event_json_fields v_time_def sget_def)
  moreover have "valid_request_names (event_json ?e)"
    using assms(5) by (simp add: valid_request_names_def event_json_fields request_names_def sget_def)
  moreover have "valid_digests E p (event_json ?e)"
    using sha by (simp add: valid_digests_def event_json_fields v_sha_def sget_def without_sha)
  moreover have "decision_identity E (tx_mission t) (event_json ?e)"
    using assms(7) by (simp add: decision_identity_def event_json_fields sget_def)
  ultimately show ?thesis
    using assms(6) by (simp add: validate_event_def event_json_fields sget_def)
qed

lemma new_event_valid:
  assumes "library_ok E" and "sequenced (tx_events t)" and "is_uuid (w_fresh w 0)" and "is_uuid (tx_mission t)"
    and "request_names q" and "validate_payload E (q_kind q) (q_payload q) = Inr ()"
    and "q_kind q \<noteq> ''human_decision_requested''"
    and "dated (next_instant E (w_clock w 0) (last_event (tx_events t)))"
  shows "validate_event E (tx_mission t) (last_event (tx_events t))
    (event_json (new_event E w t 0 (last_event (tx_events t)) q)) = Inr ()"
  by (rule new_event_valid_at) (use assms last_sequence [OF assms(2)] in simp_all)

section \<open>Extending a ledger by one event\<close>

text \<open>The terminal event ends the mission.\<close>

definition ends_terminal :: "derivation \<Rightarrow> bool" where
  "ends_terminal v \<longleftrightarrow> (v_terminal v \<longrightarrow> ended (x_status (v_state v)))"

interpretation ending: preserved "derive_step E events" ends_terminal for E events
proof
  fix v e v'
  assume step: "derive_step E events v e = Inr v'"
  obtain u where u: "reduce E (v_state v) (meta_of e) (last_request events (e_sequence e))
      (decode_payload (e_kind e) (e_payload e)) = Inr u" "v_state v' = counted (meta_of e) u"
    using derive_stepD(2) [OF step] by auto
  have "ended (x_status u)" if "e_kind e = ''mission_terminal''"
  proof -
    have "decode_payload (e_kind e) (e_payload e)
        = Lifecycle (Mission_terminal (terminal_of (sget (e_payload e) ''status'')) (sget (e_payload e) ''reason''))"
      using that decode_terminal by blast
    then show ?thesis using u(1) by (auto simp: reduce_terminal_def split: if_splits)
  qed
  then show "ends_terminal v'" using derive_stepD(5) [OF step] u(2) by (simp add: ends_terminal_def)
qed

lemma ended_iff: "ended st \<longleftrightarrow> (\<exists>x. st = Ended x)"
  by (cases st) auto

lemma derived_end:
  assumes "derive E es = Inr v"
  shows "set (v_keys v) = e_key ` set es" and "v_terminal v \<longleftrightarrow> ended (x_status (v_state v))"
proof -
  obtain e where v: "fold_result (derive_step E es) (start_derivation e) es = Inr v"
    using assms by (auto simp: derive_def split: list.splits if_splits sum.splits)
  have "v_keys (start_derivation e) = []" by simp
  then show "set (v_keys v) = e_key ` set es"
    using fold_keys [OF v, THEN conjunct1] by simp
  have "ends_terminal (start_derivation e)" by (simp add: ends_terminal_def)
  then have "ends_terminal v" using ending.fold_inv v by blast
  moreover have "quiet_end v" using quiet.fold_inv [OF start_quiet v] .
  ultimately show "v_terminal v \<longleftrightarrow> ended (x_status (v_state v))"
    by (auto simp: quiet_end_def Let_def ends_terminal_def ended_iff)
qed

lemma derive_one_more:
  assumes "derive_state E es = Inr s" and "sequenced es" and "\<not> ended (x_status s)"
    and "e_key e \<notin> e_key ` set es" and "validate_payload E (e_kind e) (e_payload e) = Inr ()"
    and "reduce E s (meta_of e) (last_request (es @ [e]) (e_sequence e)) (decode_payload (e_kind e) (e_payload e)) = Inr u"
  shows "derive_state E (es @ [e]) = Inr (counted (meta_of e) u)"
proof -
  obtain v where v: "derive E es = Inr v" "s = v_state v"
    using assms(1) by (auto simp: derive_state_def split: sum.splits)
  have "derive_step E (es @ [e]) v e = Inr \<lparr>v_state = counted (meta_of e) u,
      v_terminal = (e_kind e = ''mission_terminal''), v_keys = e_key e # v_keys v\<rparr>"
    using assms(3-6) derived_end [OF v(1)] v(2) by (simp add: derive_step_def)
  then show ?thesis
    using derive_extend [OF v(1) assms(2), of "[e]"] by (simp add: derive_state_def)
qed

section \<open>Appends that succeed\<close>

text \<open>
  The world of one append: it may write, the publication succeeds, the fresh identity is a UUID
  and the event falls into the time that can be written.
\<close>

definition world_ok :: "prims \<Rightarrow> world \<Rightarrow> txn \<Rightarrow> bool" where
  "world_ok E w t \<longleftrightarrow> \<not> w_read_only w \<and> w_publishes w \<and> is_uuid (w_fresh w 0)
     \<and> dated (next_instant E (w_clock w 0) (last_event (tx_events t)))"

definition plain_request :: "prims \<Rightarrow> string \<Rightarrow> string \<Rightarrow> string \<Rightarrow> json \<Rightarrow> bool" where
  "plain_request E kind actor key p \<longleftrightarrow>
     safe_kind kind \<and> safe_actor actor \<and> safe_key key \<and> validate_payload E kind (canonical_copy p) = Inr ()
     \<and> kind \<noteq> ''human_decision_requested'' \<and> kind \<noteq> ''assurance_approved'' \<and> kind \<noteq> ''assurance_approval_renewed''
     \<and> \<not> legacy_admission_request \<lparr>q_kind = kind, q_actor = actor, q_key = key, q_payload = canonical_copy p\<rparr>"

definition next_event :: "prims \<Rightarrow> world \<Rightarrow> txn \<Rightarrow> string \<Rightarrow> string \<Rightarrow> string \<Rightarrow> json \<Rightarrow> event" where
  "next_event E w t kind actor key p =
     new_event E w t 0 (last_event (tx_events t))
       \<lparr>q_kind = kind, q_actor = actor, q_key = key, q_payload = canonical_copy p\<rparr>"

lemma next_event_fields [simp]:
  "e_kind (next_event E w t kind actor key p) = kind" "e_actor (next_event E w t kind actor key p) = actor"
  "e_key (next_event E w t kind actor key p) = key" "e_payload (next_event E w t kind actor key p) = canonical_copy p"
  by (simp_all add: next_event_def)

lemma plain_normalized:
  "plain_request E kind actor key p \<Longrightarrow> normalize_event_request E (request_json kind actor key p)
     = Inr \<lparr>q_kind = kind, q_actor = actor, q_key = key, q_payload = canonical_copy p\<rparr>"
  by (simp add: plain_request_def normalize_event_request_def request_json_def has_exactly_def has_field_def
      valid_request_names_def sget_def field_def check_def require_def all_checks.simps)

lemma append_event_succeeds:
  assumes "library_ok E" and "world_ok E w t" and "txn_ok E t" and "tx_state t = Some s" and "is_uuid (tx_mission t)"
    and "plain_request E kind actor key p" and "key \<notin> e_key ` set (tx_events t)" and "\<not> ended (x_status s)"
    and "reduce E s (meta_of (next_event E w t kind actor key p))
      (last_request (tx_events t @ [next_event E w t kind actor key p]) (e_sequence (next_event E w t kind actor key p)))
      (decode_payload kind (canonical_copy p)) = Inr u"
  shows "\<exists>t'. append_event E w t kind actor key p = Inr ((next_event E w t kind actor key p, True), t')
    \<and> tx_events t' = tx_events t @ [next_event E w t kind actor key p]
    \<and> tx_state t' = Some (counted (meta_of (next_event E w t kind actor key p)) u)"
proof -
  let ?e = "next_event E w t kind actor key p"
  let ?q = "\<lparr>q_kind = kind, q_actor = actor, q_key = key, q_payload = canonical_copy p\<rparr>"
  have norm: "normalize_event_request E (request_json kind actor key p) = Inr ?q"
    using plain_normalized [OF assms(6)] .
  moreover have "plain_request E kind actor key (canonical_copy p)"
    using assms(6) by (simp add: plain_request_def del: canonical_copy.simps)
  then have norm': "normalize_event_request E (request_json kind actor key (canonical_copy p)) = Inr ?q"
    using plain_normalized by (metis canonical_copy_idem)
  have derived: "derive_state E (tx_events t) = Inr s" and seq: "sequenced (tx_events t)"
    using assms(3,4) chained_sequenced by (auto simp: txn_ok_def split: if_splits)
  have valid: "validate_event E (tx_mission t) (last_event (tx_events t)) (event_json ?e) = Inr ()"
    unfolding next_event_def
    by (rule new_event_valid) (use assms(1,2,5,6) seq in \<open>simp_all add: world_ok_def plain_request_def request_names_def\<close>)
  have admit: "admit_request E w t [] (last_event (tx_events t)) ?q = Inr ?e"
    using valid assms(4,6,8) by (simp add: admit_request_def require_admission_schema_def require_authority_schema_def
        require_def plain_request_def next_event_def)
  have fresh: "map_of (by_key (tx_events t)) key = None"
    using assms(7) by (auto simp: map_of_eq_None_iff by_key_def image_image)
  have "derive_state E (tx_events t @ [?e]) = Inr (counted (meta_of ?e) u)"
    using derive_one_more [OF derived seq assms(8), of ?e u] assms(6,7,9) by (simp add: plain_request_def)
  then show ?thesis
    using norm norm' admit fresh assms(2)
    by (simp add: append_event_def first_result_def append_events_def append_normalized_def world_ok_def)
qed

lemma append_event_txn_ok:
  assumes "append_event E w t kind actor key p = Inr (r, t')" and "txn_ok E t" and "wf_json p" and "clock_text E"
  shows "txn_ok E t'" and "tx_mission t' = tx_mission t"
proof -
  obtain q where q: "q_payload q = canonical_copy p" "append_normalized E w t [q] = Inr ([r], t')"
    using append_event_ok [of E w t kind actor key p "fst r" "snd r" t'] assms(1) by (metis prod.collapse)
  have "\<forall>q \<in> set [q]. writable q" using q(1) assms(3) by (simp add: writable_def del: canonical_copy.simps)
  from append_normalized_ok [OF q(2) assms(2) this assms(4)]
  show "txn_ok E t'" "tx_mission t' = tx_mission t" by blast+
qed

end
