(* ===== verification/Sample_Client.thy ===== *)
theory Sample_Client
  imports Append_Live Ledger_Theorems
begin

text \<open>
  A mission driven by the admission client: the policy, a reservation of two specialists and
  the commit of the first.  The states are written out, so that each step is one small
  evaluation; the examples of other theories reuse the facts.
\<close>

section \<open>The library of the sample\<close>

lemma read_decimal_value:
  "\<forall>c \<in> set cs. digit_char c \<Longrightarrow>
     read_decimal cs n = Some (foldl (\<lambda>n d. 10 * n + (int (of_char d) - 48)) n cs)"
proof (induction cs arbitrary: n)
  case (Cons c cs)
  then have "is_digit c" by (simp add: digit_char_def is_digit_def less_eq_char_def)
  moreover have "(of_char c :: int) = int (of_char c)" by (simp add: of_char_def)
  ultimately show ?case using Cons by simp
qed simp

lemma sample_library: "library_ok sample"
proof -
  have "parse_iso sample (int_text i) = Some i" if "dated i" for i
  proof -
    have i: "0 \<le> i" using that by (simp add: dated_def)
    then have "int_text i = decimal i" "decimal i \<noteq> []"
      using decimal_not_minus [OF i] by (auto simp: int_text_def)
    moreover have "read_decimal (decimal i) 0 = Some i"
      using read_decimal_value [OF digit_char_decimal [OF i], of 0] digits_value_decimal [OF i]
      by (simp add: digits_value_def)
    ultimately show ?thesis by (simp add: sample_def)
  qed
  moreover have "is_sha256 genesis_sha256" by code_simp
  ultimately show ?thesis by (simp add: library_ok_def sample_def)
qed

lemma sample_sha [simp]: "sha256 sample j = genesis_sha256"
  by (simp add: sha256_def sample_def)

definition late_world :: world where
  "late_world = sample_world\<lparr>w_clock := \<lambda>n. 20\<rparr>"

section \<open>One event after another\<close>

text \<open>An open transaction in a known state: its keys, and the instant of its next event.\<close>

definition stands :: "txn \<Rightarrow> mission \<Rightarrow> string list \<Rightarrow> int \<Rightarrow> bool" where
  "stands t s ks i \<longleftrightarrow>
     txn_ok sample t \<and> tx_mission t = sample_uuid ''mission'' \<and> tx_state t = Some s
     \<and> map e_key (tx_events t) = ks \<and> next_instant sample 20 (last_event (tx_events t)) = i"

definition step_meta :: "string list \<Rightarrow> int \<Rightarrow> string \<Rightarrow> meta" where
  "step_meta ks i key = \<lparr>m_sequence = int (length ks) + 1, m_time = int_text i, m_actor = ''CONTROL'',
     m_key = key, m_previous = genesis_sha256, m_sha = genesis_sha256\<rparr>"

lemma sample_mission: "is_uuid (sample_uuid ''mission'')"
  by code_simp

lemma sample_heads:
  assumes "txn_ok sample t"
  shows "head_of (last_event (tx_events t)) = genesis_sha256"
proof (cases "tx_events t" rule: rev_cases)
  case (snoc es e)
  have "chained sample (tx_mission t) None (es @ [e])" using assms snoc by (simp add: txn_ok_def)
  then have "validate_event sample (tx_mission t) (last_of None es) (event_json e) = Inr ()" by simp
  from validated_event(12) [OF this] show ?thesis by (simp add: snoc last_event_def head_of_def)
qed (simp add: last_event_def head_of_def)

lemma sample_step:
  assumes "stands t s ks i" and "dated i" and "plain_request sample kind ''CONTROL'' key p" and "key \<notin> set ks"
    and "\<not> ended (x_status s)" and "wf_json p"
    and "reduce sample s (step_meta ks i key)
      (last_request (tx_events t @ [next_event sample late_world t kind ''CONTROL'' key p]) (int (length ks) + 1))
      (decode_payload kind (canonical_copy p)) = Inr u"
  obtains t' e where "append_event sample late_world t kind ''CONTROL'' key p = Inr ((e, True), t')"
    and "stands t' (u\<lparr>x_sequence := int (length ks) + 1, x_head := genesis_sha256\<rparr>) (ks @ [key]) (max 20 (instant sample (int_text i) + 1))"
    and "e_payload e = canonical_copy p" and "e_sha e = genesis_sha256"
proof -
  let ?e = "next_event sample late_world t kind ''CONTROL'' key p"
  have t: "txn_ok sample t" "tx_mission t = sample_uuid ''mission''" "tx_state t = Some s"
    "map e_key (tx_events t) = ks" "next_instant sample 20 (last_event (tx_events t)) = i"
    using assms(1) by (simp_all add: stands_def)
  have len: "length (tx_events t) = length ks" using arg_cong [OF t(4), of length] by simp
  have sha: "e_sha ?e = genesis_sha256" by (simp add: next_event_def new_event_sha)
  have time: "e_time ?e = int_text i"
    using t(5) by (simp add: next_event_def next_timestamp_instant late_world_def sample_def)
  have seq: "e_sequence ?e = int (length ks) + 1" by (simp add: next_event_def len)
  have meta: "meta_of ?e = step_meta ks i key"
    using sha time seq sample_heads [OF t(1)] by (simp add: meta_of_def step_meta_def) (simp add: next_event_def)
  have world: "world_ok sample late_world t"
    using assms(2) t(5) by (simp add: world_ok_def late_world_def sample_world_def) code_simp
  have mission: "is_uuid (tx_mission t)" using sample_mission t(2) by simp
  have fresh: "key \<notin> e_key ` set (tx_events t)" using assms(4) t(4) by (metis set_map)
  obtain t' where t': "append_event sample late_world t kind ''CONTROL'' key p = Inr ((?e, True), t')"
      "tx_events t' = tx_events t @ [?e]" "tx_state t' = Some (counted (meta_of ?e) u)"
    using append_event_succeeds [OF sample_library world t(1,3) mission assms(3) fresh assms(5), of u] assms(7)
    by (auto simp: meta seq)
  have "txn_ok sample t'" "tx_mission t' = tx_mission t"
    using append_event_txn_ok [OF t'(1) t(1) assms(6) sample_clock_text] .
  then have "stands t' (u\<lparr>x_sequence := int (length ks) + 1, x_head := genesis_sha256\<rparr>) (ks @ [key])
      (max 20 (instant sample (int_text i) + 1))"
    using t t'(2,3) time by (simp add: stands_def meta counted_def step_meta_def last_event_def next_instant_def)
  then show thesis using that t'(1) sha by simp
qed

text \<open>An admission event that the reducer accepts moves a standing transaction on.\<close>

definition after :: "mission \<Rightarrow> string list \<Rightarrow> int \<Rightarrow> string \<Rightarrow> admission_event \<Rightarrow> mission" where
  "after s ks i key ev = projr (reduce sample s (step_meta ks i key) None (Admission ev))
     \<lparr>x_sequence := int (length ks) + 1, x_head := genesis_sha256\<rparr>"

text \<open>Only assurance events look at the last request.\<close>

lemma reduce_any_request: "reduce E s m lr (Admission e) = reduce E s m lr' (Admission e)"
  by simp

lemma sample_progress:
  assumes "stands t s ks i" and "dated i" and "plain_request sample kind ''CONTROL'' key p" and "key \<notin> set ks"
    and "\<not> ended (x_status s)" and "wf_json p" and "decode_payload kind (canonical_copy p) = Admission ev"
    and "\<not> isl (reduce sample s (step_meta ks i key) None (Admission ev))"
    and "max 20 (instant sample (int_text i) + 1) = j"
  obtains t' e where "append_event sample late_world t kind ''CONTROL'' key p = Inr ((e, True), t')"
    and "stands t' (after s ks i key ev) (ks @ [key]) j" and "e_payload e = canonical_copy p"
    and "e_sha e = genesis_sha256"
proof -
  obtain u where u: "reduce sample s (step_meta ks i key) None (Admission ev) = Inr u"
    using assms(8) by (cases "reduce sample s (step_meta ks i key) None (Admission ev)") auto
  then have "after s ks i key ev = u\<lparr>x_sequence := int (length ks) + 1, x_head := genesis_sha256\<rparr>"
    by (simp add: after_def)
  moreover have "reduce sample s (step_meta ks i key) lr (decode_payload kind (canonical_copy p)) = Inr u" for lr
    unfolding assms(7) reduce_any_request [of _ _ _ lr _ None] by (rule u)
  ultimately show thesis
    using sample_step [OF assms(1-6)] that unfolding assms(9) by metis
qed

lemma first_stands: "stands (snd first_answer) compiled_state [''key-1'', ''key-2''] 20"
proof -
  have "tx_events (snd first_answer) \<noteq> []" using first_state(2) by auto
  moreover from this have "e_time (last (tx_events (snd first_answer))) = ''2''"
    using arg_cong [OF first_state(3), of last] by (simp add: last_map)
  moreover have "instant sample ''2'' = 2" by code_simp
  ultimately show ?thesis
    using first_txn_ok first_state by (simp add: stands_def next_instant_def last_event_def)
qed

section \<open>The policy\<close>

text \<open>The states are the terms of \<open>after\<close>, evaluated where the small checks need them.\<close>

definition policy_frozen :: admission_event where
  "policy_frozen = Policy_frozen (policy_of (canonical_copy (e_payload policy_event)))"

definition policy_state :: mission where
  "policy_state = after compiled_state [''key-1'', ''key-2''] 20 ''key-3'' policy_frozen"

lemma policy_stands: "\<exists>t. stands t policy_state [''key-1'', ''key-2'', ''key-3''] 21"
proof -
  let ?k = "''mission_admission_policy_frozen''" and ?p = "e_payload policy_event"
  have decode: "decode_payload ?k (canonical_copy ?p) = Admission policy_frozen"
    by (simp add: decode_payload_def decode_lifecycle_def decode_admission_def policy_frozen_def del: canonical_copy.simps)
  have ok: "\<not> isl (reduce sample compiled_state (step_meta [''key-1'', ''key-2''] 20 ''key-3'') None (Admission policy_frozen))"
    and plain: "plain_request sample ?k ''CONTROL'' ''key-3'' ?p" and wf: "wf_json ?p" and open': "\<not> ended (x_status compiled_state)"
    and next_time: "max 20 (instant sample (int_text 20) + 1) = 21"
    by code_simp+
  obtain t where "stands t (after compiled_state [''key-1'', ''key-2''] 20 ''key-3'' policy_frozen) ([''key-1'', ''key-2''] @ [''key-3'']) 21"
    by (rule sample_progress [OF first_stands _ plain _ open' wf decode ok next_time]) (simp_all add: dated_def)
  then show ?thesis unfolding policy_state_def [symmetric] by auto
qed

section \<open>A reservation\<close>

definition wanted :: "string \<Rightarrow> string \<Rightarrow> int \<Rightarrow> bool \<Rightarrow> json" where
  "wanted key recipient budget writer = JObj
     [(''request_key'', JStr key), (''run_kind'', JStr ''specialist''), (''recipient_instance'', JStr recipient),
      (''capability'', JStr ''build''), (''effect_sha256'', digest_json), (''task_sha256'', digest_json),
      (''delegated_budget'', JInt budget), (''writer'', JBool writer)]"

definition wanted_batch :: "json list" where
  "wanted_batch = [wanted ''k1'' ''w1'' 2 True, wanted ''k2'' ''w2'' 0 False]"

definition queries :: "json list \<Rightarrow> admission_query list" where
  "queries js = projr (normalize_admissions js)"

definition built :: "json list \<Rightarrow> admission_request list" where
  "built js = projr (build_admissions sample (sample_uuid ''mission'') (queries js) (x_admissions policy_state) ''CONTROL'')"

definition batch_payload :: "json list \<Rightarrow> json" where
  "batch_payload js = reserve_payload (batch_uuid sample (sample_uuid ''mission'') ''batch-1'') genesis_sha256
     genesis_sha256 (built js)"

definition batch_event :: "json list \<Rightarrow> reserved_payload" where
  "batch_event js = \<lparr>rv_batch_id = batch_uuid sample (sample_uuid ''mission'') ''batch-1'', rv_batch_sha = genesis_sha256,
     rv_request_sha = Some genesis_sha256, rv_admissions = built js\<rparr>"

definition reserved_state :: mission where
  "reserved_state = after policy_state [''key-1'', ''key-2'', ''key-3''] 21 ''batch-1''
     (Delegations_reserved (batch_event wanted_batch))"

text \<open>What the small evaluations say of the batch.\<close>

lemma batch_facts:
  "normalize_admissions wanted_batch = Inr (queries wanted_batch)" "queries wanted_batch \<noteq> []"
  "build_admissions sample (sample_uuid ''mission'') (queries wanted_batch) (x_admissions policy_state) ''CONTROL''
     = Inr (built wanted_batch)"
  "plain_request sample ''delegations_reserved'' ''CONTROL'' ''batch-1'' (batch_payload wanted_batch)"
  "wf_json (batch_payload wanted_batch)"
  "\<not> isl (reduce sample policy_state (step_meta [''key-1'', ''key-2'', ''key-3''] 21 ''batch-1'') None
     (Admission (Delegations_reserved (batch_event wanted_batch))))"
  "\<not> isl (durable_admissions (s_admissions (x_admissions reserved_state)) (map a_id (built wanted_batch)))"
  "\<not> ended (x_status policy_state)" "max 20 (instant sample (int_text 21) + 1) = 22"
proof -
  have "\<not> isl (normalize_admissions wanted_batch)" by code_simp
  then show "normalize_admissions wanted_batch = Inr (queries wanted_batch)"
    by (cases "normalize_admissions wanted_batch") (simp_all add: queries_def)
  have "\<not> isl (build_admissions sample (sample_uuid ''mission'') (queries wanted_batch) (x_admissions policy_state) ''CONTROL'')"
    by code_simp
  then show "build_admissions sample (sample_uuid ''mission'') (queries wanted_batch) (x_admissions policy_state) ''CONTROL''
     = Inr (built wanted_batch)"
    by (cases "build_admissions sample (sample_uuid ''mission'') (queries wanted_batch) (x_admissions policy_state) ''CONTROL''")
      (simp_all add: built_def)
qed code_simp+

lemma no_event_with_key: "key \<notin> set (map e_key (tx_events t)) \<Longrightarrow> event_with_key t key = None"
  by (auto simp: event_with_key_def find_None_iff)

lemma batch_stands:
  assumes "stands t policy_state [''key-1'', ''key-2'', ''key-3''] 21"
  obtains r t' where "reserve_in sample late_world (queries wanted_batch) ''batch-1'' ''CONTROL'' t = Inr (r, t')"
    and "rp_appended r" and "stands t' reserved_state [''key-1'', ''key-2'', ''key-3'', ''batch-1''] 22"
proof -
  let ?k = "''delegations_reserved''" and ?p = "batch_payload wanted_batch" and ?b = "batch_event wanted_batch"
  let ?ks = "[''key-1'', ''key-2'', ''key-3'']"
  have t: "tx_mission t = sample_uuid ''mission''" "tx_state t = Some policy_state" "map e_key (tx_events t) = ?ks"
    using assms by (simp_all add: stands_def)
  have decode: "decode_payload ?k (canonical_copy ?p) = Admission (Delegations_reserved ?b)"
    unfolding decode_reserved batch_payload_def reserved_of_copy batch_event_def ..
  have "dated 21" "''batch-1'' \<notin> set ?ks" by (simp_all add: dated_def)
  then obtain t' e where app: "append_event sample late_world t ?k ''CONTROL'' ''batch-1'' ?p = Inr ((e, True), t')"
    and stands: "stands t' reserved_state (?ks @ [''batch-1'']) 22" and payload: "e_payload e = canonical_copy ?p"
    using sample_progress [OF assms _ batch_facts(4) _ batch_facts(8,5) decode batch_facts(6,9)]
    unfolding reserved_state_def by blast
  have t': "tx_state t' = Some reserved_state" using stands by (simp add: stands_def)
  obtain as where "durable_admissions (s_admissions (x_admissions reserved_state)) (event_admission_ids e) = Inr as"
    using batch_facts(7) payload_ids [OF payload [unfolded batch_payload_def]]
    by (cases "durable_admissions (s_admissions (x_admissions reserved_state)) (map a_id (built wanted_batch))") auto
  moreover have "event_with_key t ''batch-1'' = None" by (rule no_event_with_key) (simp add: t(3))
  ultimately have "reserve_in sample late_world (queries wanted_batch) ''batch-1'' ''CONTROL'' t = Inr
      (\<lparr>rp_batch_id = batch_uuid sample (sample_uuid ''mission'') ''batch-1'', rp_batch_sha = genesis_sha256,
        rp_admissions = as, rp_event = e, rp_appended = True\<rparr>, t')"
    using app t' t batch_facts(3)
    by (simp add: reserve_in_def reserve_new_def batch_payload_def batch_digest_def
      request_batch_sha256_def answer_reservation_def Let_def)
  then show thesis using that stands by simp
qed

section \<open>A commit\<close>

text \<open>The client names the identities as the library spells them.\<close>

definition first_binding :: binding where
  "first_binding =
     \<lparr>g_admission = sample_uuid ''a1'', g_digest = genesis_sha256, g_effect = genesis_sha256,
      g_recipient = ''w1'', g_writer = True, g_run = sample_uuid ''f1''\<rparr>"

definition commit_json :: json where
  "commit_json = JObj
     ([(''admission_id'', JStr (g_admission first_binding)),
       (''commit_id'', JStr (commit_uuid sample (sample_uuid ''mission'') (g_admission first_binding))),
       (''reservation_event_sha256'', JStr genesis_sha256)] @ binding_items first_binding)"

definition commit_event :: admission_event where
  "commit_event = Delegation_committed (committed_of (canonical_copy commit_json))"

definition committed_state :: mission where
  "committed_state = after reserved_state [''key-1'', ''key-2'', ''key-3'', ''batch-1''] 22 ''commit-1'' commit_event"

lemma commit_facts:
  "plain_request sample ''delegation_committed'' ''CONTROL'' ''commit-1'' commit_json" "wf_json commit_json"
  "\<not> isl (reduce sample reserved_state (step_meta [''key-1'', ''key-2'', ''key-3'', ''batch-1''] 22 ''commit-1'') None
     (Admission commit_event))"
  "\<not> ended (x_status reserved_state)"
  "map_option a_reservation_event (dget (s_admissions (x_admissions reserved_state)) (g_admission first_binding))
     = Some genesis_sha256"
  "max 20 (instant sample (int_text 22) + 1) = 23"
  by code_simp+

text \<open>Any caller who names this binding is shown the commit.\<close>

lemma verified_facts:
  "normalize_binding first_binding = Inr first_binding"
  "all_checks [sha_check genesis_sha256, sha_check genesis_sha256, sha_check (g_digest first_binding),
     sha_check (g_effect first_binding), component_check (g_recipient first_binding)] = Inr ()"
  "isl (check_commit (x_admissions committed_state) genesis_sha256 first_binding) = False"
  "map_option (\<lambda>(po, ev). instant sample (po_deadline_at po)) (s_policy (x_admissions committed_state)) = Some 999"
  by code_simp+

lemma commit_stands:
  assumes "stands t reserved_state [''key-1'', ''key-2'', ''key-3'', ''batch-1''] 22"
  obtains r t' where "commit_in sample late_world first_binding ''commit-1'' ''CONTROL'' t = Inr (r, t')"
    and "stands t' committed_state [''key-1'', ''key-2'', ''key-3'', ''batch-1'', ''commit-1''] 23"
proof -
  let ?ks = "[''key-1'', ''key-2'', ''key-3'', ''batch-1'']"
  have t: "tx_mission t = sample_uuid ''mission''" "tx_state t = Some reserved_state"
    using assms by (simp_all add: stands_def)
  obtain a where found: "find_admission t (g_admission first_binding) = Some a" and event: "a_reservation_event a = genesis_sha256"
    using commit_facts(5) t(2) by (auto simp: find_admission_def)
  have decode: "decode_payload ''delegation_committed'' (canonical_copy commit_json) = Admission commit_event"
    by (simp add: decode_payload_def decode_lifecycle_def decode_admission_def commit_event_def del: canonical_copy.simps)
  have "dated 22" "''commit-1'' \<notin> set ?ks" by (simp_all add: dated_def)
  then obtain t' e where "append_event sample late_world t ''delegation_committed'' ''CONTROL'' ''commit-1'' commit_json
        = Inr ((e, True), t')"
    and "stands t' committed_state (?ks @ [''commit-1'']) 23"
    using sample_progress [OF assms _ commit_facts(1) _ commit_facts(4,2) decode commit_facts(3,6)]
    unfolding committed_state_def by blast
  then show thesis using that found event t(1) by (simp add: commit_in_def commit_json_def commit_payload_def)
qed

lemma verified_stands:
  assumes "stands t committed_state ks i"
  shows "\<exists>pf. verify_commit sample 10 (sample_uuid ''mission'') (ledger_file t) genesis_sha256 genesis_sha256 first_binding = Inr pf"
proof -
  have t: "txn_ok sample t" "tx_mission t = sample_uuid ''mission''" "tx_state t = Some committed_state"
    using assms by (simp_all add: stands_def)
  have mission: "normalize_uuid (sample_uuid ''mission'') = Inr (sample_uuid ''mission'')"
    by (rule new_txn_ok(2) [simplified new_txn_def, simplified])
  have opened: "open_txn sample (sample_uuid ''mission'') (ledger_file t) = Inr t"
    using open_written [OF t(1)] mission by (simp add: t(2))
  obtain p where p: "check_commit (x_admissions committed_state) genesis_sha256 first_binding = Inr p"
    using verified_facts(3) by (cases "check_commit (x_admissions committed_state) genesis_sha256 first_binding") auto
  obtain po ev where po: "s_policy (x_admissions committed_state) = Some (po, ev)" "instant sample (po_deadline_at po) = 999"
    using verified_facts(4) by (cases "s_policy (x_admissions committed_state)") auto
  show ?thesis
    unfolding verify_commit_def with_binding_def
    by (simp add: mission verified_facts(1,2) in_transaction_def opened verify_in_def t(3) txn_head_def
      sample_heads [OF t(1)] p po)
qed

end
