(* ===== verification/Client_Theorems.thy ===== *)
theory Client_Theorems
  imports Client_Match Ledger_Theorems Sample_Client
begin

text \<open>
  What the admission client promises: a batch it reserves is stored as it was asked for, the
  batch it builds is the one the reducer recomputes, and a verified commit is the proof of a
  live admission at the head of the ledger.
\<close>

section \<open>Reservation\<close>

lemma reserve_appended:
  assumes "reserve_in E w qs key actor t = Inr (r, t')" and "rp_appended r"
  obtains s where "tx_state t = Some s" and "reserve_new E w t s qs key actor = Inr (r, t')"
  using assms by (auto simp: reserve_in_def Let_def answer_reservation_def split: option.splits sum.splits if_splits)

lemma reserve_new_ok:
  assumes "reserve_new E w t s qs key actor = Inr (r, t')" and "rp_appended r"
  obtains as s' where "build_admissions E (tx_mission t) qs (x_admissions s) actor = Inr as"
    and "append_event E w t ''delegations_reserved'' actor key
      (reserve_payload (batch_uuid E (tx_mission t) key) (batch_digest E as) (request_batch_sha256 E qs) as)
      = Inr ((rp_event r, True), t')"
    and "tx_state t' = Some s'"
    and "durable_admissions (s_admissions (x_admissions s')) (event_admission_ids (rp_event r)) = Inr (rp_admissions r)"
  using assms
  by (auto simp: reserve_new_def Let_def answer_reservation_def split: option.splits sum.splits prod.splits)

text \<open>C37: a batch that was reserved is in the ledger as it was asked for: every request of the batch has an
  active reserved admission with the identity the mission gives it and exactly its fields, bound to the event
  of the reservation, and the answer lists these admissions, one for each request.\<close>

theorem reserved_as_asked:
  assumes "reserve_many E w mission file requests key actor = Inr (r, t')" and "rp_appended r" and "reader_ok E"
  shows "\<exists>qs s. normalize_admissions requests = Inr qs \<and> tx_state t' = Some s
    \<and> length (rp_admissions r) = length qs
    \<and> (\<forall>q \<in> set qs. \<exists>a \<in> set (rp_admissions r).
          asks q a \<and> a_id a = admission_uuid E (tx_mission t') (n_kind q) (n_key q)
          \<and> a_run_id a = run_uuid E (tx_mission t') (n_kind q) (n_key q)
          \<and> dget (s_admissions (x_admissions s)) (a_id a) = Some a
          \<and> a_phase a = Reserved \<and> a_active a \<and> a_reservation_event a = e_sha (rp_event r))"
proof -
  from assms(1) obtain mid qs t where mid: "normalize_uuid mission = Inr mid"
    and qs: "normalize_admissions requests = Inr qs"
    and t: "open_txn E mid file = Inr t" and r: "reserve_in E w qs key actor t = Inr (r, t')"
    by (auto simp: reserve_many_def in_transaction_def guard_simps)
  have mission: "normalize_uuid (tx_mission t) = Inr (tx_mission t)" and ok: "txn_ok E t"
    using open_txn_ok(1,3) [OF t assms(3)] normalize_idem by blast+
  obtain s where s: "tx_state t = Some s" and new: "reserve_new E w t s qs key actor = Inr (r, t')"
    using reserve_appended [OF r assms(2)] .
  obtain as s' where as: "build_admissions E (tx_mission t) qs (x_admissions s) actor = Inr as"
    and app: "append_event E w t ''delegations_reserved'' actor key
      (reserve_payload (batch_uuid E (tx_mission t) key) (batch_digest E as) (request_batch_sha256 E qs) as)
      = Inr ((rp_event r, True), t')"
    and s': "tx_state t' = Some s'"
    and durable: "durable_admissions (s_admissions (x_admissions s')) (event_admission_ids (rp_event r)) = Inr (rp_admissions r)"
    using reserve_new_ok [OF new assms(2)] .
  obtain lane ds where mission': "tx_mission t' = tx_mission t"
    and payload: "e_payload (rp_event r) = canonical_copy
      (reserve_payload (batch_uuid E (tx_mission t) key) (batch_digest E as) (request_batch_sha256 E qs) as)"
    and stored: "\<forall>a \<in> set as. dget (s_admissions (x_admissions s')) (a_id a)
        = Some (stored_admission lane (e_sha (rp_event r)) ds a)"
    using reserved_event_state [OF app ok s] s' by (metis option.inject)
  have "list_all2 (\<lambda>a b. b = stored_admission lane (e_sha (rp_event r)) ds a) as (rp_admissions r)"
    using durable stored unfolding payload_ids [OF payload] durable_map
    by (auto simp: list_all2_map1 list_all2_conv_all_nth)
  then have answer: "rp_admissions r = map (stored_admission lane (e_sha (rp_event r)) ds) as"
    by (auto simp: list_all2_conv_all_nth intro!: nth_equalityI)
  obtain bs where bs: "list_all2 (based_on E (tx_mission t)) qs bs"
    and sorted: "as = sort_key a_id (map (build_admission E (x_admissions s) actor (prospective_bases bs)) bs)"
    using build_admissions_ok [OF as mission] .
  have "\<exists>a \<in> set as. asks q a \<and> a_id a = admission_uuid E (tx_mission t) (n_kind q) (n_key q)
      \<and> a_run_id a = run_uuid E (tx_mission t) (n_kind q) (n_key q)" if q: "q \<in> set qs" for q
  proof -
    obtain b where b: "b \<in> set bs" "based_on E (tx_mission t) q b"
      using bs q by (metis in_set_conv_nth list_all2_conv_all_nth)
    let ?a = "build_admission E (x_admissions s) actor (prospective_bases bs) b"
    have "asks q ?a" "a_id ?a = b_id b" "a_run_id ?a = b_run b"
      using build_asks [OF b(2)] build_fields(1,2) by (metis prod_cases3)+
    then show ?thesis using b by (intro bexI [of _ ?a]) (auto simp: sorted based_on_def)
  qed
  moreover have "length as = length qs" using list_all2_lengthD [OF bs] by (simp add: sorted)
  ultimately show ?thesis
    using qs s' stored by (force simp: answer mission' stored_asks stored_event)
qed

lemma sample_identity: "normalize_uuid (sample_uuid ''mission'') = Inr (sample_uuid ''mission'')"
  using new_txn_ok(2) by (simp add: new_txn_def)

lemma sample_reopens: "stands t s ks i \<Longrightarrow> open_txn sample (sample_uuid ''mission'') (ledger_file t) = Inr t"
  using open_written sample_identity by (auto simp: stands_def)

theorem reserved_as_asked_witness:
  "\<exists>file r t' s. reserve_many sample late_world (sample_uuid ''mission'') file wanted_batch ''batch-1'' ''CONTROL'' = Inr (r, t')
     \<and> tx_state t' = Some s \<and> length (rp_admissions r) = length (queries wanted_batch)
     \<and> list_all (\<lambda>q. \<exists>a \<in> set (rp_admissions r). asks q a \<and> a_phase a = Reserved \<and> a_active a
            \<and> dget (s_admissions (x_admissions s)) (a_id a) = Some a) (queries wanted_batch)"
proof -
  obtain t where t: "stands t policy_state [''key-1'', ''key-2'', ''key-3''] 21" using policy_stands by blast
  obtain r t' where r: "reserve_in sample late_world (queries wanted_batch) ''batch-1'' ''CONTROL'' t = Inr (r, t')"
    and new: "rp_appended r"
    using batch_stands [OF t] by blast
  have "check_names ''batch-1'' ''CONTROL'' = Inr ()" by code_simp
  then have reserve: "reserve_many sample late_world (sample_uuid ''mission'') (ledger_file t) wanted_batch ''batch-1'' ''CONTROL''
      = Inr (r, t')"
    using batch_facts(2) by (simp add: reserve_many_def in_transaction_def sample_identity sample_reopens [OF t] batch_facts(1) r)
  show ?thesis
    using reserved_as_asked [OF reserve new sample_reader] reserve batch_facts(1) by (auto simp: list_all_iff) blast
qed

section \<open>Verified commits\<close>

lemma verified_commit:
  assumes "check_commit t commit_sha g = Inr p" and "bindings t"
  obtains a where "dget (s_admissions t) (g_admission g) = Some a" "a_phase a = Committed" "a_id a = g_admission g"
    and "a_commit a = Some (p, commit_sha)" "a_request_digest a = g_digest g" "a_effect a = Some (g_effect g)"
    and "a_recipient a = g_recipient g" "a_writer a = g_writer g" "a_run_id a = g_run g"
proof -
  from assms(1) obtain a where a: "dget (s_admissions t) (g_admission g) = Some a" "a_phase a = Committed"
      "a_commit a = Some (p, commit_sha)" and same: "commit_differs p g = Inr False"
    by (auto simp: check_commit_def guard_simps split: option.splits)
  have "a_id a = g_admission g" "commit_bound a p"
    using bindingsD [OF assms(2) a(1)] a(3) by (simp_all add: proofs_kept_def commit_kept_def)
  moreover have "cm_request_digest p = g_digest g" "cm_effect p = Some (g_effect g)" "cm_recipient p = g_recipient g"
      "cm_writer p = g_writer g" "cm_run_id p = g_run g"
    using same by (auto simp: commit_differs_def split: option.splits if_splits)
  ultimately show thesis using that a by (simp add: commit_bound_def)
qed

text \<open>C38: a verified commit is the proof of a live admission: at the head the caller expects, and before the
  deadline, the admission is committed and active, owns its run, and was reserved with exactly the digest,
  effect, recipient, writer flag and run that the caller names.\<close>

theorem commit_proof_sound:
  assumes "verify_commit E now mission file commit_sha head b = Inr pf" and "reader_ok E"
  shows "\<exists>t s a po ev. open_txn E (cp_mission pf) file = Inr t \<and> tx_state t = Some s \<and> txn_head t = head
    \<and> dget (s_admissions (x_admissions s)) (g_admission (cp_binding pf)) = Some a
    \<and> a_phase a = Committed \<and> a_active a \<and> a_request_digest a = g_digest b \<and> a_effect a = Some (g_effect b)
    \<and> a_recipient a = g_recipient b \<and> a_writer a = g_writer b \<and> a_run_id a = g_run (cp_binding pf)
    \<and> dget (s_run_owners (x_admissions s)) (a_run_id a) = Some (By_admission (a_id a))
    \<and> s_policy (x_admissions s) = Some (po, ev) \<and> now < instant E (po_deadline_at po)"
proof -
  from assms(1) obtain mid g t where mid: "normalize_uuid mission = Inr mid" and g: "normalize_binding b = Inr g"
    and t: "open_txn E mid file = Inr t" and v: "verify_in E now commit_sha head g t = Inr pf"
    by (auto simp: verify_commit_def with_binding_def in_transaction_def guard_simps)
  have same: "g_digest g = g_digest b" "g_effect g = g_effect b" "g_recipient g = g_recipient b" "g_writer g = g_writer b"
    using g by (auto simp: normalize_binding_def guard_simps)
  from v obtain s p po ev where s: "tx_state t = Some s" and head: "txn_head t = head"
    and p: "check_commit (x_admissions s) commit_sha g = Inr p"
    and po: "s_policy (x_admissions s) = Some (po, ev)" "now < instant E (po_deadline_at po)"
    and pf: "cp_mission pf = tx_mission t" "cp_binding pf = g"
    by (auto simp: verify_in_def guard_simps split: prod.splits)
  note ok = open_txn_ok [OF t assms(2)]
  have derived: "derive_state E (tx_events t) = Inr s" using ok(1) s by (auto simp: txn_ok_def split: if_splits)
  obtain a where a: "dget (s_admissions (x_admissions s)) (g_admission g) = Some a" "a_phase a = Committed"
      "a_id a = g_admission g" "a_request_digest a = g_digest g" "a_effect a = Some (g_effect g)"
      "a_recipient a = g_recipient g" "a_writer a = g_writer g" "a_run_id a = g_run g"
    using verified_commit [OF p derived_bindings [OF derived]] .
  have "a_active a"
    using act.on_ledgers [OF derived] a(1,2) by (auto simp: activity_def shaped_def active_phase_def)
  moreover have "dget (s_run_owners (x_admissions s)) (a_run_id a) = Some (By_admission (a_id a))"
    using runs.on_ledgers [OF derived] ownedD [OF _ a(1)] a(2,3) by (simp add: run_holders_def owning_phase_def)
  moreover have "open_txn E (tx_mission t) file = Inr t"
    using t ok(3) normalize_idem [OF mid] by simp
  ultimately show ?thesis using a same s head po pf by metis
qed

theorem commit_proof_sound_witness:
  "\<exists>t pf s a. open_txn sample (cp_mission pf) (ledger_file t) = Inr t \<and> tx_state t = Some s
     \<and> verify_commit sample 10 (sample_uuid ''mission'') (ledger_file t) genesis_sha256 genesis_sha256 first_binding = Inr pf
     \<and> dget (s_admissions (x_admissions s)) (g_admission (cp_binding pf)) = Some a
     \<and> a_phase a = Committed \<and> a_active a \<and> a_recipient a = ''w1''"
proof -
  obtain t0 t1 t2 where "stands t0 policy_state [''key-1'', ''key-2'', ''key-3''] 21"
    and "stands t1 reserved_state [''key-1'', ''key-2'', ''key-3'', ''batch-1''] 22"
    and t2: "stands t2 committed_state [''key-1'', ''key-2'', ''key-3'', ''batch-1'', ''commit-1''] 23"
    using policy_stands batch_stands commit_stands by metis
  obtain pf where pf: "verify_commit sample 10 (sample_uuid ''mission'') (ledger_file t2) genesis_sha256 genesis_sha256 first_binding
      = Inr pf"
    using verified_stands [OF t2] by blast
  obtain t s a where "open_txn sample (cp_mission pf) (ledger_file t2) = Inr t" "tx_state t = Some s"
    and a: "dget (s_admissions (x_admissions s)) (g_admission (cp_binding pf)) = Some a" "a_phase a = Committed" "a_active a"
      "a_recipient a = ''w1''"
    using commit_proof_sound [OF pf sample_reader] by (auto simp: first_binding_def)
  moreover have "cp_mission pf = sample_uuid ''mission''"
    using pf t2 by (auto simp: verify_commit_def with_binding_def in_transaction_def verify_in_def sample_identity
      sample_reopens [OF t2] stands_def guard_simps split: prod.splits)
  ultimately have "open_txn sample (cp_mission pf) (ledger_file t2) = Inr t2" "tx_state t2 = Some s"
    using sample_reopens [OF t2] by simp_all
  then show ?thesis using pf a by blast
qed

section \<open>Refusals\<close>

lemma built_check:
  assumes "based_on E (x_id s) q b" and "check_admission E s ps (build_admission E t actor bs b) = Inl x"
  shows "x = MissionConflict"
proof -
  have "b_id b = admission_uuid E (x_id s) (n_kind b) (n_key b)" "b_run b = run_uuid E (x_id s) (n_kind b) (n_key b)"
    "b_delegation b = delegation_uuid E (x_id s) (n_kind b) (n_key b)"
    using assms(1) by (simp_all add: based_on_def)
  then show ?thesis
    using assms(2) built_fields [of E t actor bs b] by (simp add: check_admission_def Let_def split: if_splits)
qed

lemma check_admissions_error:
  "check_admissions E s ps as = Inl x \<Longrightarrow> \<exists>a \<in> set as. \<exists>ps'. check_admission E s ps' a = Inl x"
  by (induction as arbitrary: ps) (auto split: sum.splits)

lemma built_agreed:
  assumes "as = sort_key a_id (map (build_admission E (x_admissions s) actor (prospective_bases bs)) bs)"
    and "check_admissions E s dempty as = Inr ps"
  shows "agreed E (x_admissions s) actor bs as ps"
proof -
  let ?f = "build_admission E (x_admissions s) actor (prospective_bases bs)"
  have ok: "\<forall>a \<in> set as. fresh_admission E s a" "distinct (map a_id as)"
    using check_admissions_iff [of E s dempty as] assms(2) by blast+
  have same: "set (map a_id as) = set (map b_id bs)" "length as = length bs"
    by (simp_all add: assms(1) image_image built_fields)
  have "card (set (map b_id bs)) = length (map b_id bs)"
    using distinct_card [OF ok(2)] unfolding same(1) by (simp add: same(2))
  then have "distinct (map b_id bs)" by (rule card_distinct)
  moreover have "\<forall>k. dget ps k = batch_map a_id as k"
    using check_admissions_lookup [OF assms(2)] by (auto simp: dict.get_empty split: option.splits)
  moreover have "\<forall>a \<in> set as. \<not> dhas (s_admissions (x_admissions s)) (a_id a)"
    using ok(1) unfolding fresh_admission_def Let_def by blast
  moreover have "set as = ?f ` set bs" by (simp add: assms(1))
  ultimately show ?thesis unfolding agreed_def by blast
qed

text \<open>C39: the client and the reducer compute the same batch, in the lane of either actor: when the requests
  name stored parents, leave the run of the parent to the client, and give a Lead neither parent nor budget,
  the batch that is built is never malformed for the reducer.  A refusal is a conflict with the present
  state of the mission, or the error of a mission whose admission policy is not frozen yet.\<close>

theorem client_never_malformed:
  assumes "derive_state E events = Inr s" and "normalize_uuid (x_id s) = Inr (x_id s)"
    and "build_admissions E (x_id s) qs (x_admissions s) (m_actor m) = Inr as"
    and "\<forall>q \<in> set qs. resolvable (x_admissions s) q"
    and "reserve_admissions E s m
      \<lparr>rv_batch_id = batch, rv_batch_sha = batch_digest E as, rv_request_sha = sha, rv_admissions = as\<rparr> = Inl x"
  shows "x = MissionConflict \<or> (x = MissionStateError \<and> s_policy (x_admissions s) = None)"
proof -
  let ?t = "x_admissions s" and ?actor = "m_actor m"
  obtain bs where bs: "list_all2 (based_on E (x_id s)) qs bs"
    and as: "as = sort_key a_id (map (build_admission E ?t ?actor (prospective_bases bs)) bs)"
    using build_admissions_ok [OF assms(3,2)] .
  have lead: "lead_slot ?t" using leads.on_ledgers [OF assms(1)] .
  have each: "\<exists>q. based_on E (x_id s) q b \<and> resolvable ?t b" if "b \<in> set bs" for b
    using bs that assms(4) based_resolvable by (metis in_set_conv_nth list_all2_conv_all_nth)
  have built: "\<exists>b \<in> set bs. a = build_admission E ?t ?actor (prospective_bases bs) b" if "a \<in> set as" for a
    using that by (auto simp: as)
  have checks: "y = MissionConflict" if "check_admissions E s dempty as = Inl y" for y
    using check_admissions_error [OF that] built each built_check by metis
  have debit: "y = MissionConflict" if "check_admissions E s dempty as = Inr ps" "debits ?t ?actor ps as acc = Inl y"
      "?actor = ''CONTROL'' \<or> ?actor = ''ASSURED''" for ps acc y
    using debits_error [OF that(2)] built each built_debit [OF built_agreed [OF as that(1)] _ _ lead _ that(3)] by metis
  have acyclic: "\<not> list_ex (\<lambda>a. parent_cycle ps (a_parent a) []) as" if "check_admissions E s dempty as = Inr ps" for ps
  proof
    assume "list_ex (\<lambda>a. parent_cycle ps (a_parent a) []) as"
    then obtain a where "a \<in> set as" "parent_cycle ps (a_parent a) []" by (auto simp: list_ex_iff)
    moreover from this(1) obtain b where "b \<in> set bs" "a = build_admission E ?t ?actor (prospective_bases bs) b"
      using built by blast
    moreover have "\<forall>b \<in> set bs. resolvable ?t b" using each by blast
    ultimately show False using built_acyclic [OF built_agreed [OF as that] _ _ lead] by blast
  qed
  have lane: "lane = ?actor \<and> (?actor = ''CONTROL'' \<or> ?actor = ''ASSURED'')" if "require_lane E s m = Inr lane" for lane
    using that by (cases "x_status s") (auto simp: require_lane_def split: if_splits sum.splits)
  have refused: "require_lane E s m = Inl y \<Longrightarrow> y = MissionConflict"
      "require_deadline E s m = Inl y \<Longrightarrow> y = MissionConflict \<or> (y = MissionStateError \<and> s_policy ?t = None)"
      "check_limits ?t po as = Inl y \<Longrightarrow> y = MissionConflict" for y po
    by (auto simp: require_lane_def require_live_approval_def require_deadline_def check_limits_def Let_def
      split: option.splits if_splits sum.splits prod.splits)
  show ?thesis
    using assms(5) checks debit acyclic lane refused
    by (auto simp: reserve_admissions_def Let_def split: sum.splits if_splits prod.splits)
qed

definition costly_batch :: "json list" where
  "costly_batch = [wanted ''k1'' ''w1'' 9 True]"

lemma costly_facts:
  "build_admissions sample (x_id policy_state) (queries costly_batch) (x_admissions policy_state) ''CONTROL'' = Inr (built costly_batch)"
  "list_all (\<lambda>q. n_parent q = None \<and> n_parent_run q = None \<and> n_kind q = Specialist) (queries costly_batch)"
  "isl (reserve_admissions sample policy_state (step_meta [''key-1'', ''key-2'', ''key-3''] 21 ''batch-2'') (batch_event costly_batch))"
  "s_policy (x_admissions policy_state) \<noteq> None" "x_id policy_state = sample_uuid ''mission''"
  by code_simp+

theorem client_never_malformed_witness:
  "\<exists>t :: txn. derive_state sample (tx_events t) = Inr policy_state
    \<and> reserve_admissions sample policy_state (step_meta [''key-1'', ''key-2'', ''key-3''] 21 ''batch-2'') (batch_event costly_batch)
      = Inl MissionConflict"
proof -
  let ?m = "step_meta [''key-1'', ''key-2'', ''key-3''] 21 ''batch-2''"
  obtain t where "stands t policy_state [''key-1'', ''key-2'', ''key-3''] 21" using policy_stands by blast
  then have derived: "derive_state sample (tx_events t) = Inr policy_state"
    by (auto simp: stands_def txn_ok_def split: if_splits)
  obtain x where x: "reserve_admissions sample policy_state ?m (batch_event costly_batch) = Inl x"
    using costly_facts(3) by (cases "reserve_admissions sample policy_state ?m (batch_event costly_batch)") auto
  have event: "batch_event costly_batch = \<lparr>rv_batch_id = batch_uuid sample (sample_uuid ''mission'') ''batch-1'',
      rv_batch_sha = batch_digest sample (built costly_batch), rv_request_sha = Some genesis_sha256, rv_admissions = built costly_batch\<rparr>"
    by (simp add: batch_event_def batch_digest_def)
  have identity: "normalize_uuid (x_id policy_state) = Inr (x_id policy_state)"
    using sample_identity costly_facts(5) by simp
  have resolvable: "\<forall>q \<in> set (queries costly_batch). resolvable (x_admissions policy_state) q"
    using costly_facts(2) by (simp add: list_all_iff resolvable_def)
  have "x = MissionConflict"
    using client_never_malformed [OF derived identity _ resolvable x [unfolded event]] costly_facts(1,4)
    by (auto simp: step_meta_def)
  then show ?thesis using derived x by blast
qed


end
