(* ===== verification/Typed_Inv.thy ===== *)
theory Typed_Inv
  imports Decision_Theorems Client_Inv
begin

text \<open>
  Stored admissions keep the types their reservation was checked for: identities are UUIDs,
  digests are SHA-256, the recipient is a safe name and the lane is one of the two lanes.
\<close>

section \<open>Validated admissions\<close>

definition typed :: "'a admission_request_scheme \<Rightarrow> bool" where
  "typed a \<longleftrightarrow>
     is_uuid (a_id a) \<and> is_uuid (a_run_id a) \<and> is_sha256 (a_request_digest a) \<and> safe_feature (a_recipient a)
     \<and> list_all is_sha256 (case a_effect a of None \<Rightarrow> [] | Some e \<Rightarrow> [e])
     \<and> list_all is_sha256 (case a_task a of None \<Rightarrow> [] | Some e \<Rightarrow> [e])"

lemma has_exactly_field: "has_exactly x ks \<Longrightarrow> has_field x k \<Longrightarrow> k \<in> set ks"
  by (auto simp: has_exactly_def has_field_def list_all_iff)

lemma absent_legacy:
  assumes "has_exactly x legacy_admission_fields"
  shows "\<not> has_field x ''effect_sha256''" "\<not> has_field x ''task_sha256''"
  using has_exactly_field [OF assms, of "''effect_sha256''"] has_exactly_field [OF assms, of "''task_sha256''"]
  by (auto simp: legacy_admission_fields_def)

lemma sha_option: "v_sha (field x k) \<Longrightarrow> has_field x k \<Longrightarrow> \<exists>s. sopt x k = Some s \<and> is_sha256 s"
  by (cases "field x k") (simp_all add: v_sha_def sopt_def oget_def)

lemma valid_admission_typed:
  assumes "valid_admission current seen x = Inr u"
  shows "typed (admission_of x)"
proof -
  have x: "v_uuid (field x ''admission_id'')" "v_uuid (field x ''run_id'')" "v_sha (field x ''request_digest'')"
      "v_feature (field x ''recipient_instance'')" "list_ex (has_exactly x) (admission_schemas current)"
    and digests: "current \<Longrightarrow> v_sha (field x ''effect_sha256'')"
      "current \<Longrightarrow> has_field x ''task_sha256'' \<Longrightarrow> v_sha (field x ''task_sha256'')"
    using assms by (simp_all add: valid_admission_def)
  have "list_all is_sha256 (case sopt x k of None \<Rightarrow> [] | Some e \<Rightarrow> [e])"
    if "k = ''effect_sha256'' \<or> k = ''task_sha256''" for k
  proof (cases "has_field x k")
    case True
    then have "current" using that x(5) absent_legacy [of x] by (auto simp: admission_schemas_def split: if_splits)
    then show ?thesis using that True digests sha_option [of x k] by auto
  qed (simp add: sopt_def)
  then show ?thesis
    using x by (simp add: typed_def admission_of_def v_uuid_def v_sha_def v_feature_def sget_def)
qed

lemma valid_admissions_typed: "valid_admissions current seen xs = Inr u \<Longrightarrow> \<forall>a \<in> set (map admission_of xs). typed a"
  by (induction xs arbitrary: seen) (auto simp: guard_simps dest: valid_admission_typed)

lemma validated_typed:
  "validate_payload E ''delegations_reserved'' p = Inr u \<Longrightarrow> \<forall>a \<in> set (rv_admissions (reserved_of p)). typed a"
  by (auto simp: validate_payload_def registry_reserved valid_reserved_def reserved_of_def
      dest!: valid_admissions_typed split: if_splits)

section \<open>The invariant\<close>

definition typed_stored :: "admission \<Rightarrow> bool" where
  "typed_stored a \<longleftrightarrow> typed a \<and> (a_lane a = ''CONTROL'' \<or> a_lane a = ''ASSURED'')"

definition all_typed :: "admission_state \<Rightarrow> bool" where
  "all_typed t \<longleftrightarrow> (\<forall>k a. dget (s_admissions t) k = Some a \<longrightarrow> typed_stored a)"

lemma typed_truncate: "admission_request.truncate a = admission_request.truncate b \<Longrightarrow> typed a = typed b"
  by (simp add: typed_def admission_request.truncate_def)

lemma same_admission_typed: "same_admission a b \<Longrightarrow> typed_stored a \<Longrightarrow> typed_stored b"
  using typed_truncate by (auto simp: same_admission_def typed_stored_def)

lemma all_typed_evolves:
  assumes "all_typed t" and "evolves t t'" and "adds_none t t'"
  shows "all_typed t'"
  unfolding all_typed_def
proof (intro allI impI)
  fix k b assume b: "dget (s_admissions t') k = Some b"
  then obtain a where a: "dget (s_admissions t) k = Some a"
    using assms(3) by (cases "dget (s_admissions t) k") (auto simp: adds_none_def)
  then have "same_admission a b" using assms(2) b unfolding evolves_def by fastforce
  then show "typed_stored b" using assms(1) a same_admission_typed by (auto simp: all_typed_def)
qed

lemma stored_typed: "typed (stored_admission lane ev ds b) = typed b"
proof -
  have "a_request_digest (stored_admission lane ev ds b) = a_request_digest b"
    "a_effect (stored_admission lane ev ds b) = a_effect b" "a_task (stored_admission lane ev ds b) = a_task b"
    by (simp_all add: stored_admission_def admission_request.defs admission.defs)
  then show ?thesis by (simp only: typed_def stored_admission_fields)
qed

lemma reserved_lane:
  assumes "reserve_admissions E s m p = Inr t'"
  obtains lane po g ds where "t' = commit_batch lane (m_sha m) po p g ds (x_admissions s)"
    and "lane = ''CONTROL'' \<or> lane = ''ASSURED''"
proof -
  from assms obtain lane po g ds where "require_lane E s m = Inr lane"
    "t' = commit_batch lane (m_sha m) po p g ds (x_admissions s)"
    by (auto simp: reserve_admissions_def guard_simps Let_def split: prod.splits)
  moreover from this(1) have "lane = ''CONTROL'' \<or> lane = ''ASSURED''"
    by (cases "x_status s") (auto simp: require_lane_def split: if_splits sum.splits)
  ultimately show thesis using that by blast
qed

lemma reserved_typed:
  assumes "all_typed (x_admissions s)" and "\<forall>a \<in> set (rv_admissions p). typed a" and "batch_ok (rv_admissions p)"
    and "reserve_admissions E s m p = Inr t'"
  shows "all_typed t'"
proof -
  obtain lane po g ds where t': "t' = commit_batch lane (m_sha m) po p g ds (x_admissions s)"
    and lane: "lane = ''CONTROL'' \<or> lane = ''ASSURED''"
    using reserved_lane [OF assms(4)] .
  show ?thesis
    unfolding all_typed_def
  proof (intro allI impI)
    fix k a assume "dget (s_admissions t') k = Some a"
    then consider (new) b where "batch_map a_id (rv_admissions p) k = Some b" "a = stored_admission lane (m_sha m) ds b"
      | (old) b c where "dget (s_admissions (x_admissions s)) k = Some b" "a = charge c b"
      by (auto simp: t' batch_fields [OF assms(3)] split: option.splits)
    then show "typed_stored a"
    proof cases
      case new
      have "typed b" using batch_map_SomeD [OF new(1)] assms(2) by blast
      then have "typed a" unfolding new(2) by (simp only: stored_typed)
      moreover have "a_lane a = lane" by (simp add: new(2) stored_admission_def admission_request.defs admission.defs)
      ultimately show ?thesis using lane unfolding typed_stored_def by blast
    next
      case old
      then show ?thesis using assms(1) same_admission_typed [OF same_admission_charge] by (auto simp: all_typed_def)
    qed
  qed
qed

interpretation typing: preserved "derive_step E events"
  "\<lambda>v. keyed (x_admissions (v_state v)) \<and> all_typed (x_admissions (v_state v))" for E events
proof
  fix v e v'
  assume inv: "keyed (x_admissions (v_state v)) \<and> all_typed (x_admissions (v_state v))"
    and step: "derive_step E events v e = Inr v'"
  let ?p = "decode_payload (e_kind e) (e_payload e)"
  obtain u where u: "reduce E (v_state v) (meta_of e) (last_request events (e_sequence e)) ?p = Inr u"
    and v': "v_state v' = counted (meta_of e) u"
    using derive_stepD(2) [OF step] by blast
  note valid = derive_stepD(1) [OF step]
  have moves: "move\<^sup>*\<^sup>* (x_admissions (v_state v)) (x_admissions u)"
    using reduce_moves [OF _ validated_payload_ok [OF valid] u] inv by blast
  then have keyed: "keyed (x_admissions u)" and evolves: "evolves (x_admissions (v_state v)) (x_admissions u)"
    using moves_keyed moves_evolves inv by blast+
  have "all_typed (x_admissions u)"
  proof (cases "\<exists>q. ?p = Admission (Delegations_reserved q)")
    case True
    then obtain q where q: "?p = Admission (Delegations_reserved q)" by blast
    then have "e_kind e = ''delegations_reserved''" "q = reserved_of (e_payload e)" using decode_reservedD by blast+
    then have "\<forall>a \<in> set (rv_admissions q). typed a" "batch_ok (rv_admissions q)"
      using valid validated_typed validated_reserved by simp_all
    then show ?thesis using u inv q by (auto intro: reserved_typed split: sum.splits)
  next
    case False
    then have "adds_none (x_admissions (v_state v)) (x_admissions u)"
      using u inv by (cases ?p) (auto intro: run_adds_none admission_adds_none simp: lifecycle_admissions split: sum.splits)
    then show ?thesis using all_typed_evolves inv evolves by blast
  qed
  then show "keyed (x_admissions (v_state v')) \<and> all_typed (x_admissions (v_state v'))"
    using keyed by (simp add: v')
qed

lemma derived_typed: "derive_state E events = Inr s \<Longrightarrow> all_typed (x_admissions s)"
proof (erule derived)
  fix v e es
  assume "fold_result (derive_step E events) (start_derivation e) events = Inr v" "s = v_state v"
  moreover have "keyed (x_admissions (v_state (start_derivation e))) \<and> all_typed (x_admissions (v_state (start_derivation e)))"
    by (simp add: all_typed_def empty_admission_state_def dict.get_empty keyed_def)
  ultimately show ?thesis using typing.fold_inv by blast
qed

end
