(* ===== verification/Uuid.thy ===== *)
theory Uuid
  imports Client_Inv
begin

text \<open>
  Canonical UUIDs: what \<open>normalize_uuid\<close> returns is canonical, and a canonical identity is its
  own normal form.
\<close>

lemma hyphenate_groups:
  assumes "length h = 32"
  shows "length (hyphenate h) = 36" "hyphenate h ! 8 = CHR ''-''" "hyphenate h ! 13 = CHR ''-''"
    "hyphenate h ! 18 = CHR ''-''" "hyphenate h ! 23 = CHR ''-''"
    "take 8 (hyphenate h) = take 8 h" "take 4 (drop 9 (hyphenate h)) = take 4 (drop 8 h)"
    "take 4 (drop 14 (hyphenate h)) = take 4 (drop 12 h)" "take 4 (drop 19 (hyphenate h)) = take 4 (drop 16 h)"
    "drop 24 (hyphenate h) = drop 20 h"
  using assms by (simp_all add: hyphenate_def nth_append)

lemma normalized_uuid: "normalize_uuid s = Inr u \<Longrightarrow> is_uuid u"
proof -
  assume "normalize_uuid s = Inr u"
  then obtain h where h: "u = hyphenate h" "length h = 32" "list_all is_hex h"
    by (auto simp: normalize_uuid_def Let_def split: if_splits)
  then have "list_all is_hex (take k (drop n h))" "list_all is_hex (drop n h)" for k n
    by (auto simp: list_all_iff dest: in_set_takeD in_set_dropD)
  from this(1) [of 8 0] this(1) [of 4 8] this(1) [of 4 12] this(1) [of 4 16] this(2) [of 20]
  show ?thesis by (simp add: is_uuid_def h(1) hyphenate_groups [OF h(2)])
qed

lemma uuid_hyphenate:
  assumes "is_uuid u"
  obtains h where "u = hyphenate h" "length h = 32" "list_all is_hex h"
proof -
  let ?h = "take 8 u @ take 4 (drop 9 u) @ take 4 (drop 14 u) @ take 4 (drop 19 u) @ drop 24 u"
  have len: "length u = 36" and dash: "u ! 8 = CHR ''-''" "u ! 13 = CHR ''-''" "u ! 18 = CHR ''-''" "u ! 23 = CHR ''-''"
    using assms by (simp_all add: is_uuid_def)
  have drop_Cons: "drop n u = u ! n # drop (Suc n) u" if "n < 36" for n
    using that len by (simp add: Cons_nth_drop_Suc)
  have split: "drop n u = take k (drop n u) @ drop (n + k) u" for n k
    by (metis append_take_drop_id drop_drop add.commute)
  have "u = hyphenate ?h"
    using split [of 0 8] split [of 9 4] split [of 14 4] split [of 19 4]
      drop_Cons [of 8] drop_Cons [of 13] drop_Cons [of 18] drop_Cons [of 23] dash len
    by (simp add: hyphenate_def)
  moreover have "length ?h = 32" using len by simp
  moreover have "list_all is_hex ?h" using assms by (simp add: is_uuid_def)
  ultimately show thesis using that by blast
qed

lemma normalize_canonical: "is_uuid u \<Longrightarrow> normalize_uuid u = Inr u"
proof -
  assume "is_uuid u"
  then obtain h where h: "u = hyphenate h" "length h = 32" "list_all is_hex h" using uuid_hyphenate by blast
  have "normalize_uuid h = Inr u"
  proof -
    have none: "c \<noteq> CHR ''u'' \<and> c \<noteq> CHR ''-'' \<and> c \<noteq> CHR 0x7B \<and> c \<noteq> CHR 0x7D \<and> to_lower c = c" if "c \<in> set h" for c
      using h(3) that hex_not_special by (auto simp: list_all_iff)
    have brace: "dropWhile (\<lambda>c. c = CHR 0x7B \<or> c = CHR 0x7D) v = v" if "set v \<subseteq> set h" for v
      using that none by (cases v) auto
    have "strip_braces h = h" by (simp add: strip_braces_def brace)
    moreover have "CHR ''u'' \<notin> set h" using none by blast
    moreover have "filter (\<lambda>c. c \<noteq> CHR ''-'') h = h" using none by (intro filter_True) blast
    moreover have "map to_lower h = h" using none by (intro map_idI) blast
    ultimately show ?thesis using h by (simp add: normalize_uuid_def remove_all_none remove_dash)
  qed
  then show ?thesis by (rule normalize_idem)
qed

end
