(* ===== verification/Release.thy ===== *)
theory Release
  imports Typed_Inv Append_Live Uuid
begin

text \<open>
  Releasing admissions through the client: an active admission without active children is
  aborted before its launch or finalized after it, and some active admission always has no
  active child.  The last section composes the releases and the terminal event of a mission.
\<close>

section \<open>Leaves\<close>

text \<open>The distance of a stored admission from the root of its chain of parents.\<close>

inductive depth :: "admission dict \<Rightarrow> string \<Rightarrow> nat \<Rightarrow> bool" for d where
  at_root: "dget d k = Some a \<Longrightarrow> a_parent a = None \<Longrightarrow> depth d k 0"
| below: "dget d k = Some a \<Longrightarrow> a_parent a = Some p \<Longrightarrow> depth d p n \<Longrightarrow> depth d k (Suc n)"

inductive_cases depthE: "depth d k n"

lemma rooted_depth: "rooted d k \<Longrightarrow> \<exists>n. depth d k n"
  by (induction rule: rooted.induct) (auto intro: depth.intros)

lemma depth_unique: "depth d k n \<Longrightarrow> depth d k m \<Longrightarrow> n = m"
proof (induction arbitrary: m rule: depth.induct)
  case (at_root k a)
  from at_root(3) show ?case by (rule depthE) (use at_root(1,2) in auto)
next
  case (below k a p n)
  from below.prems obtain n' where "m = Suc n'" "depth d p n'"
    by (rule depthE) (use below.hyps(1,2) in simp_all)
  then show ?case using below.IH by simp
qed

lemma leaf_exists:
  assumes "all_rooted t" and "dget (s_admissions t) k = Some a" and "a_active a"
  obtains l b where "dget (s_admissions t) l = Some b" and "a_active b" and "\<not> has_active_child t l"
proof -
  let ?d = "s_admissions t"
  let ?live = "{l. \<exists>b. dget ?d l = Some b \<and> a_active b}"
  define f where "f l = (THE n. depth ?d l n)" for l
  have f: "depth ?d l (f l)" if "dget ?d l = Some b" for l b
  proof -
    have "\<exists>n. depth ?d l n" using assms(1) that rooted_depth by (auto simp: all_rooted_def)
    then have "\<exists>!n. depth ?d l n" using depth_unique by blast
    then show ?thesis unfolding f_def by (rule theI')
  qed
  have "?live \<subseteq> set (dkeys ?d)" by (force simp: dict.items_get [symmetric])
  then have fin: "finite ?live" by (rule finite_subset) simp
  then have img: "finite (f ` ?live)" by simp
  have "Max (f ` ?live) \<in> f ` ?live" using assms(2,3) by (intro Max_in [OF img]) blast
  then obtain l where "l \<in> ?live" "f l = Max (f ` ?live)" by (elim imageE) simp
  then have l: "l \<in> ?live" "\<forall>m \<in> ?live. f m \<le> f l" using Max_ge [OF img] by auto
  have "\<not> has_active_child t l"
  proof
    assume "has_active_child t l"
    then obtain m c where c: "dget ?d m = Some c" "a_active c" "a_parent c = Some l"
      by (auto simp: has_active_child_iff)
    obtain b where "dget ?d l = Some b" using l(1) by blast
    then have "depth ?d m (Suc (f l))" using c f by (auto intro: below)
    then have "f m = Suc (f l)" using f [OF c(1)] depth_unique by blast
    then show False using l(2) c by force
  qed
  then show thesis using l(1) that by blast
qed

section \<open>The request the client makes\<close>

lemma has_exactly_copy: "has_exactly (canonical_copy (JObj kvs)) ks = has_exactly (JObj kvs) ks"
proof -
  have "set (map fst (obj_items (canonical_copy (JObj kvs)))) = set (map fst kvs)"
    by (force simp: image_iff)
  then show ?thesis
    unfolding has_exactly_def list_all_iff using has_field_copy by (simp add: has_field_def image_iff)
qed

definition binding_of :: "admission \<Rightarrow> string \<Rightarrow> binding" where
  "binding_of a effect =
     \<lparr>g_admission = a_id a, g_digest = a_request_digest a, g_effect = effect, g_recipient = a_recipient a,
      g_writer = a_writer a, g_run = a_run_id a\<rparr>"

definition abort_of :: "admission \<Rightarrow> string \<Rightarrow> string \<Rightarrow> string \<Rightarrow> aborted_payload" where
  "abort_of a effect task reason =
     \<lparr>ab_admission = a_id a, ab_reason = reason,
      ab_binding = Some \<lparr>ab_run_id = a_run_id a, ab_request_digest = a_request_digest a, ab_effect = effect,
        ab_task = task, ab_recipient = a_recipient a, ab_writer = a_writer a\<rparr>\<rparr>"

lemma registry_aborted: "map_of (registry E) ''delegation_reservation_aborted'' = Some valid_aborted"
  by (simp add: registry_def lifecycle_registry_def run_registry_def admission_registry_def)

lemma registry_finalized: "map_of (registry E) ''delegation_finalized'' = Some valid_finalized"
  by (simp add: registry_def lifecycle_registry_def run_registry_def admission_registry_def)

lemma abort_request:
  fixes a :: admission
  assumes "typed a" and "is_sha256 effect" and "is_sha256 task" and "reason \<noteq> []" and "safe_actor actor" and "safe_key key"
  defines "p \<equiv> abort_payload task reason (binding_of a effect)"
  shows "plain_request E ''delegation_reservation_aborted'' actor key p"
    and "decode_payload ''delegation_reservation_aborted'' (canonical_copy p) = Admission (Reservation_aborted (abort_of a effect task reason))"
proof -
  let ?kvs = "[(''admission_id'', JStr (a_id a)), (''task_sha256'', JStr task), (''reason'', JStr reason)]
      @ binding_items (binding_of a effect)"
  have p: "p = JObj ?kvs" by (simp add: p_def abort_payload_def binding_of_def)
  have d: "distinct (map fst ?kvs)" by (simp add: binding_items_def)
  have obj: "is_obj (canonical_copy (JObj kvs))" for kvs by simp
  have valid: "valid_aborted (canonical_copy p) = Inr ()"
    using assms(1-4) unfolding valid_aborted_def p all_checks_ok
    by (simp del: canonical_copy.simps add: has_exactly_copy field_copy [OF d] has_field_copy)
      (simp add: binding_items_def binding_of_def typed_def field_def has_field_def has_exactly_def v_uuid_def v_sha_def
        v_feature_def v_nonempty_def)
  have "safe_kind ''delegation_reservation_aborted''" by (simp add: safe_kind_def is_lower_def less_eq_char_def)
  then show "plain_request E ''delegation_reservation_aborted'' actor key p"
    using valid assms(5,6) by (simp add: plain_request_def validate_payload_def registry_aborted
        legacy_admission_request_def p binding_items_def has_field_def)
  show "decode_payload ''delegation_reservation_aborted'' (canonical_copy p) = Admission (Reservation_aborted (abort_of a effect task reason))"
    unfolding p by (simp add: decode_payload_def decode_lifecycle_def decode_admission_def aborted_of_def abort_binding_of_def
        get_copy [OF d] has_field_copy abort_of_def del: canonical_copy.simps)
      (simp add: binding_items_def binding_of_def sget_def bget_def field_def has_field_def)
qed

lemma terminal_name_inverse [simp]: "terminal_of (terminal_name st) = st"
  by (cases st) simp_all

lemma terminal_name_member: "terminal_name st \<in> set terminal_names"
  by (cases st) (simp_all add: terminal_names_def)

definition evidence_for :: "admission \<Rightarrow> string \<Rightarrow> string \<Rightarrow> terminal_status \<Rightarrow> terminal_evidence" where
  "evidence_for a source task st =
     \<lparr>te_source_event = source, te_run_id = a_run_id a, te_task = task, te_status = st\<rparr>"

definition final_of :: "prims \<Rightarrow> string \<Rightarrow> admission \<Rightarrow> terminal_evidence \<Rightarrow> string \<Rightarrow> finalized_payload" where
  "final_of E mission a ev reason =
     \<lparr>fi_admission = a_id a, fi_status = te_status ev, fi_reason = reason,
      fi_binding = Some \<lparr>fb_run_id = a_run_id a, fb_recipient = a_recipient a, fb_writer = a_writer a,
        fb_evidence_sha = evidence_digest E mission (a_id a) (a_recipient a) (a_writer a) ev, fb_source = None,
        fb_evidence = Some ev\<rparr>\<rparr>"

lemma evidence_copied:
  "evidence_sha E mission k r w (canonical_copy (evidence_json ev)) = evidence_digest E mission k r w ev"
proof -
  let ?items = "\<lambda>v. JObj [(''mission_id'', JStr mission), (''admission_id'', JStr k), (''recipient_instance'', JStr r),
      (''writer'', JBool w), (''terminal_evidence'', v)]"
  have "canonical_copy (?items (canonical_copy v)) = canonical_copy (?items v)" for v
    by (simp add: canonical_copy_obj del: canonical_copy.simps)
  then have "canonical_bytes (?items (canonical_copy v)) = canonical_bytes (?items v)" for v
    by (metis canonical_bytes_copy)
  then show ?thesis by (simp only: evidence_sha_def evidence_digest_def sha256_def comp_def)
qed

lemma evidence_checked:
  fixes st :: terminal_status
  assumes "typed a" and "is_sha256 source" and "is_sha256 task"
  defines "v \<equiv> canonical_copy (evidence_json (evidence_for a source task st))"
  shows "check_evidence v = Inr (a_run_id a)" and "valid_evidence v = Inr ()"
    and "evidence_of v = evidence_for a source task st" and "field v ''status'' = JStr (terminal_name st)"
proof -
  let ?kvs = "[(''schema_version'', JInt 1), (''source_event_sha256'', JStr source), (''run_id'', JStr (a_run_id a)),
      (''task_sha256'', JStr task), (''status'', JStr (terminal_name st))]"
  have v: "v = canonical_copy (JObj ?kvs)" by (simp add: v_def evidence_json_def evidence_for_def)
  have d: "distinct (map fst ?kvs)" by simp
  have fields: "field v ''schema_version'' = JInt 1" "field v ''source_event_sha256'' = JStr source"
      "field v ''run_id'' = JStr (a_run_id a)" "field v ''task_sha256'' = JStr task" "field v ''status'' = JStr (terminal_name st)"
    by (simp_all add: v field_copy [OF d] field_def)
  then show "field v ''status'' = JStr (terminal_name st)" by blast
  have shape: "has_exactly v ks \<longleftrightarrow> has_exactly (JObj ?kvs) ks" for ks by (simp only: v has_exactly_copy)
  have obj: "is_obj v" by (simp add: v)
  have run: "is_uuid (a_run_id a)" using assms(1) by (simp add: typed_def)
  show "evidence_of v = evidence_for a source task st"
    by (simp add: evidence_of_def evidence_for_def sget_def fields del: terminal_of.simps)
  show "valid_evidence v = Inr ()"
    using assms(2,3) run terminal_name_member [of st]
    by (simp add: valid_evidence_def shape obj fields v_sha_def v_uuid_def v_in_def)
      (simp add: has_exactly_def has_field_def)
  show "check_evidence v = Inr (a_run_id a)"
    using assms(2,3) run terminal_name_member [of st] normalize_canonical [OF run]
    by (simp add: check_evidence_def shape fields v_sha_def v_in_def admission_check_def require_def all_checks.simps)
      (simp add: has_exactly_def has_field_def evidence_fields_def)
qed

lemma final_request:
  fixes a :: admission and st :: terminal_status and mission :: string
  assumes "library_ok E" and "typed a" and "is_sha256 source" and "is_sha256 task" and "reason \<noteq> []"
    and "safe_actor actor" and "safe_key key"
  defines "ev \<equiv> evidence_for a source task st"
  defines "p \<equiv> final_payload E mission (a_id a) (a_run_id a) (a_recipient a) (a_writer a) (canonical_copy (evidence_json ev)) reason"
  shows "plain_request E ''delegation_finalized'' actor key p"
    and "decode_payload ''delegation_finalized'' (canonical_copy p) = Admission (Delegation_finalized (final_of E mission a ev reason))"
proof -
  let ?v = "canonical_copy (evidence_json ev)"
  note ev = evidence_checked [OF assms(2-4), of st, folded ev_def]
  let ?sha = "evidence_digest E mission (a_id a) (a_recipient a) (a_writer a) ev"
  let ?kvs = "[(''admission_id'', JStr (a_id a)), (''run_id'', JStr (a_run_id a)),
      (''recipient_instance'', JStr (a_recipient a)), (''writer'', JBool (a_writer a)), (''terminal_evidence'', ?v),
      (''terminal_evidence_sha256'', JStr ?sha), (''status'', JStr (terminal_name st)), (''reason'', JStr reason)]"
  have p: "p = JObj ?kvs" by (simp only: p_def final_payload_def evidence_copied ev(4))
  have d: "distinct (map fst ?kvs)" by simp
  have read: "field (canonical_copy p) k = canonical_copy (field (JObj ?kvs) k)" for k
    unfolding p by (rule field_copy [OF d])
  have fields: "field (canonical_copy p) ''admission_id'' = JStr (a_id a)" "field (canonical_copy p) ''run_id'' = JStr (a_run_id a)"
      "field (canonical_copy p) ''recipient_instance'' = JStr (a_recipient a)" "field (canonical_copy p) ''writer'' = JBool (a_writer a)"
      "field (canonical_copy p) ''terminal_evidence'' = ?v" "field (canonical_copy p) ''terminal_evidence_sha256'' = JStr ?sha"
      "field (canonical_copy p) ''status'' = JStr (terminal_name st)" "field (canonical_copy p) ''reason'' = JStr reason"
    unfolding read by (simp_all add: field_def)
  have has: "has_field (canonical_copy p) k \<longleftrightarrow> k \<in> set (map fst ?kvs)" for k
    unfolding p has_field_copy by (simp add: has_field_def)
  have shape: "has_exactly (canonical_copy p) ks \<longleftrightarrow> has_exactly (JObj ?kvs) ks" for ks unfolding p by (rule has_exactly_copy)
  have sha: "is_sha256 ?sha" using library_digest [OF assms(1)] by (simp add: evidence_digest_def)
  have "list_ex (has_exactly (JObj ?kvs)) [final_fields, bound_final_fields, bound_final_fields @ [''terminal_source_sha256''],
        bound_final_fields @ [''terminal_evidence'']]"
    by (simp add: has_exactly_def has_field_def final_fields_def bound_final_fields_def)
  then have valid: "valid_finalized (canonical_copy p) = Inr ()"
    using assms(2,5) sha ev(2) terminal_name_member [of st]
    by (simp add: valid_finalized_def shape fields has typed_def v_uuid_def v_sha_def v_feature_def v_nonempty_def v_in_def
        del: canonical_copy.simps)
  have "is_obj (canonical_copy p)" unfolding p by simp
  moreover have "safe_kind ''delegation_finalized''" by (simp add: safe_kind_def is_lower_def less_eq_char_def)
  ultimately show "plain_request E ''delegation_finalized'' actor key p"
    using valid assms(6,7) by (simp add: plain_request_def validate_payload_def registry_finalized
        legacy_admission_request_def has del: canonical_copy.simps) 
  show "decode_payload ''delegation_finalized'' (canonical_copy p) = Admission (Delegation_finalized (final_of E mission a ev reason))"
    using ev(3) by (simp add: decode_payload_def decode_lifecycle_def decode_admission_def finalized_of_def final_binding_of_def
        sget_def bget_def fields has sopt_def final_of_def ev_def evidence_for_def del: canonical_copy.simps terminal_of.simps)
qed

section \<open>What a release does to the mission\<close>

text \<open>Only the admission named by \<open>k\<close> changes, and it stops being active.\<close>

definition released :: "admission_state \<Rightarrow> admission_state \<Rightarrow> string \<Rightarrow> bool" where
  "released t t' k \<longleftrightarrow>
     (\<exists>a b. dget (s_admissions t) k = Some a \<and> a_active a \<and> \<not> a_active b \<and> s_admissions t' = dput k b (s_admissions t))"

lemma releasedI:
  "s_admissions t' = dput k b (s_admissions t) \<Longrightarrow> dget (s_admissions t) k = Some a \<Longrightarrow> a_active a \<Longrightarrow> \<not> a_active b \<Longrightarrow>
     released t t' k"
  by (auto simp: released_def)

definition live :: "admission_state \<Rightarrow> int" where
  "live t = dict.total (\<lambda>a. if a_active a then 1 else 0) (s_admissions t)"

definition current_schema :: "admission_state \<Rightarrow> bool" where
  "current_schema t \<longleftrightarrow>
     list_all (\<lambda>a. \<not> a_active a \<or> (a_effect a \<noteq> None \<and> a_task a \<noteq> None)) (dvals (s_admissions t))"

lemma current_schema_iff:
  "current_schema t \<longleftrightarrow> (\<forall>k a. dget (s_admissions t) k = Some a \<longrightarrow> a_active a \<longrightarrow> a_effect a \<noteq> None \<and> a_task a \<noteq> None)"
  unfolding current_schema_def list_all_iff dict.all_val by blast

lemma released_live: "released t t' k \<Longrightarrow> live t' = live t - 1"
  by (auto simp: released_def live_def dict.total_put)

lemma released_current: "released t t' k \<Longrightarrow> current_schema t \<Longrightarrow> current_schema t'"
  by (auto simp: released_def current_schema_iff split: if_splits)

lemma live_none:
  assumes "live t = 0" and "dget (s_admissions t) k = Some a"
  shows "\<not> a_active a"
proof
  assume "a_active a"
  then have "1 \<le> live t"
    using dict.total_ge_member [OF assms(2), of "\<lambda>a. if a_active a then 1 else 0"] by (simp add: live_def)
  then show False using assms(1) by simp
qed

lemma live_some: "0 < live t \<Longrightarrow> \<exists>k a. dget (s_admissions t) k = Some a \<and> a_active a"
proof (rule ccontr)
  assume "0 < live t" and "\<nexists>k a. dget (s_admissions t) k = Some a \<and> a_active a"
  moreover from this(2) have "live t = 0" unfolding live_def by (intro dict.total_zero) auto
  ultimately show False by simp
qed

lemma abort_reduces:
  assumes "dget (s_admissions (x_admissions s)) (a_id a) = Some a" and "a_active a" and "a_phase a \<in> {Reserved, Committed}"
    and "a_lane a = m_actor m" and "a_effect a = Some effect" and "a_task a = Some task"
    and "\<not> has_active_child (x_admissions s) (a_id a)"
  shows "\<exists>t'. reduce_aborted s m (abort_of a effect task reason) = Inr t' \<and> released (x_admissions s) t' (a_id a)"
proof -
  let ?t = "x_admissions s" and ?a = "a\<lparr>a_phase := Aborted, a_terminal := Some (Inr (abort_of a effect task reason), m_sha m)\<rparr>"
  let ?t' = "if a_commit a = None then ?t\<lparr>s_run_claims := ddel (a_run_id a) (s_run_claims ?t)\<rparr>
      else if dget (s_run_owners ?t) (a_run_id a) = Some (By_admission (a_id a))
        then ?t\<lparr>s_run_owners := ddel (a_run_id a) (s_run_owners ?t)\<rparr> else ?t"
  have "abort_bound a (the (ab_binding (abort_of a effect task reason)))"
    using assms(5,6) by (simp add: abort_bound_def abort_of_def)
  then have "reduce_aborted s m (abort_of a effect task reason) = Inr (release_admission ?a ?t')"
    using assms by (simp add: reduce_aborted_def Let_def abort_of_def)
  moreover have "s_admissions (release_admission ?a ?t') = dput (a_id a) (?a\<lparr>a_active := False\<rparr>) (s_admissions ?t)"
    using assms(2) by (simp add: release_admissions)
  then have "released (x_admissions s) (release_admission ?a ?t') (a_id a)"
    by (rule releasedI [OF _ assms(1,2)]) simp
  ultimately show ?thesis by blast
qed

lemma final_reduces:
  assumes "dget (s_admissions (x_admissions s)) (a_id a) = Some a" and "a_active a"
    and "a_phase a \<in> {Committed, Authorized, Started}" and "a_lane a = m_actor m" and "a_task a = Some task"
    and "\<not> has_active_child (x_admissions s) (a_id a)"
  shows "\<exists>t'. reduce_finalized E s m (final_of E (x_id s) a (evidence_for a source task st) reason) = Inr t'
    \<and> released (x_admissions s) t' (a_id a)"
proof -
  let ?p = "final_of E (x_id s) a (evidence_for a source task st) reason"
  let ?a = "a\<lparr>a_phase := Finalized, a_terminal := Some (Inl ?p, m_sha m)\<rparr>"
  have "final_bound E (x_id s) a (fi_status ?p) (the (fi_binding ?p))"
    using assms(5) by (simp add: final_bound_def final_of_def evidence_for_def)
  moreover have "fi_admission ?p = a_id a" "fi_binding ?p \<noteq> None" by (simp_all add: final_of_def)
  ultimately have "reduce_finalized E s m ?p = Inr (release_admission ?a (x_admissions s))"
    using assms by (auto simp: reduce_finalized_def Let_def)
  moreover have "s_admissions (release_admission ?a (x_admissions s)) = dput (a_id a) (?a\<lparr>a_active := False\<rparr>) (s_admissions (x_admissions s))"
    using assms(2) by (simp add: release_admissions)
  then have "released (x_admissions s) (release_admission ?a (x_admissions s)) (a_id a)"
    by (rule releasedI [OF _ assms(1,2)]) simp
  ultimately show ?thesis by blast
qed

end
