(* ===== verification/Wind_Down.thy ===== *)
theory Wind_Down
  imports Release Sample_Client
begin

text \<open>
  Ending a mission: the client releases the active admissions one by one, each call on the ledger
  the call before it has left, and then records the terminal.
\<close>

section \<open>An open mission\<close>

lemma txn_mission:
  assumes "txn_ok E t" and "tx_state t = Some s"
  shows "derive_state E (tx_events t) = Inr s" and "x_id s = tx_mission t" and "is_uuid (tx_mission t)"
proof -
  show state: "derive_state E (tx_events t) = Inr s" using assms by (auto simp: txn_ok_def split: if_splits)
  then obtain v e es where es: "tx_events t = e # es"
    and v: "fold_result (derive_step E (tx_events t)) (start_derivation e) (tx_events t) = Inr v" "s = v_state v"
    by (rule derived) blast
  have "validate_event E (tx_mission t) None (event_json e) = Inr ()" using assms(1) es by (simp add: txn_ok_def)
  note first = validated_event(2,3) [OF this]
  have "keeps (start_derivation e) v" by (rule keeping.fold_rel [OF v(1)])
  then have "x_id s = e_mission e" by (simp add: keeps_def v(2) start_derivation_def initial_state_def)
  then show "x_id s = tx_mission t" "is_uuid (tx_mission t)" using first by simp_all
qed

text \<open>The terminal of a mission is set by its terminal event only.\<close>

definition terminal_set :: "derivation \<Rightarrow> bool" where
  "terminal_set v \<longleftrightarrow> (x_terminal (v_state v) = None \<or> v_terminal v)"

lemma reduce_terminal_kept:
  assumes "reduce E s m lr p = Inr u" and "\<And>st r. p \<noteq> Lifecycle (Mission_terminal st r)"
  shows "x_terminal u = x_terminal s"
proof (cases p)
  case (Lifecycle e)
  then show ?thesis
    using assms by (cases e)
      (auto simp: lifecycle_defs guard_simps enter_def Let_def split: option.splits if_splits sum.splits)
qed (use reduce_status [OF assms(1)] in auto)

interpretation ends_once: preserved "derive_step E events" terminal_set for E events
proof
  fix v e v'
  assume inv: "terminal_set v" and step: "derive_step E events v e = Inr v'"
  obtain u where u: "reduce E (v_state v) (meta_of e) (last_request events (e_sequence e))
      (decode_payload (e_kind e) (e_payload e)) = Inr u" "v_state v' = counted (meta_of e) u"
    using derive_stepD(2) [OF step] by auto
  show "terminal_set v'"
  proof (cases "e_kind e = ''mission_terminal''")
    case False
    then have "x_terminal u = x_terminal (v_state v)"
      using reduce_terminal_kept [OF u(1)] decode_terminal by blast
    then show ?thesis using inv derive_stepD(3) [OF step] u(2) by (simp add: terminal_set_def)
  qed (use derive_stepD(5) [OF step] in \<open>simp add: terminal_set_def\<close>)
qed

lemma open_terminal:
  assumes "derive_state E es = Inr s" and "\<not> ended (x_status s)"
  shows "x_terminal s = None"
proof -
  obtain v where v: "derive E es = Inr v" "s = v_state v"
    using assms(1) by (auto simp: derive_state_def split: sum.splits)
  then obtain e where f: "fold_result (derive_step E es) (start_derivation e) es = Inr v"
    by (auto simp: derive_def split: list.splits if_splits sum.splits)
  have "terminal_set (start_derivation e)" by (simp add: terminal_set_def start_derivation_def initial_state_def)
  then have "terminal_set v" using ends_once.fold_inv f by blast
  then show ?thesis using derived_end(2) [OF v(1)] assms(2) v(2) by (simp add: terminal_set_def)
qed

section \<open>One call of the client\<close>

lemma client_append:
  assumes "txn_ok E t" and "is_uuid (tx_mission t)"
  shows "ledger_append E w (tx_mission t) (ledger_file t) kind actor key p = append_event E w t kind actor key p"
  using open_written [OF assms(1) normalize_canonical [OF assms(2)]]
  by (simp add: ledger_append_def append_event_def in_transaction_def split: sum.split)

lemma append_progress:
  assumes "library_ok E" and "clock_text E" and "world_ok E w t" and "txn_ok E t" and "tx_state t = Some s"
    and "\<not> ended (x_status s)" and "plain_request E kind actor key p" and "key \<notin> e_key ` set (tx_events t)"
    and "wf_json p" and "decode_payload kind (canonical_copy p) = ev"
    and "\<And>m lr. m_actor m = actor \<Longrightarrow> \<exists>u. reduce E s m lr ev = Inr u \<and> Q u"
  obtains t' e u where "append_event E w t kind actor key p = Inr ((e, True), t')"
    and "tx_events t' = tx_events t @ [e]" and "tx_state t' = Some (counted (meta_of e) u)" and "Q u"
    and "txn_ok E t'" and "tx_mission t' = tx_mission t" and "e_key e = key"
    and "instant E (e_time e) = next_instant E (w_clock w 0) (last_event (tx_events t))"
proof -
  let ?e = "next_event E w t kind actor key p"
  have "m_actor (meta_of ?e) = actor" by (simp add: meta_of_def)
  then obtain u where u: "reduce E s (meta_of ?e) (last_request (tx_events t @ [?e]) (e_sequence ?e)) ev = Inr u" "Q u"
    using assms(11) by blast
  obtain t' where t': "append_event E w t kind actor key p = Inr ((?e, True), t')" "tx_events t' = tx_events t @ [?e]"
    "tx_state t' = Some (counted (meta_of ?e) u)"
    using append_event_succeeds [OF assms(1,3,4,5) txn_mission(3) [OF assms(4,5)] assms(7,8,6), of u] u(1) assms(10) by auto
  have ok: "txn_ok E t'" "tx_mission t' = tx_mission t"
    using append_event_txn_ok [OF t'(1) assms(4,9,2)] .
  have "dated (next_instant E (w_clock w 0) (last_event (tx_events t)))" using assms(3) by (simp add: world_ok_def)
  then have "instant E (e_time ?e) = next_instant E (w_clock w 0) (last_event (tx_events t))"
    using library_clock [OF assms(1)] by (simp add: next_event_def new_event_def seal_def next_timestamp_instant instant_def)
  then show thesis using that [OF t' u(2) ok] by simp
qed

section \<open>One release\<close>

text \<open>A call of the client that ended an admission: aborted before its launch, finalized after it.\<close>

inductive release :: "prims \<Rightarrow> world \<Rightarrow> string \<Rightarrow> txn \<Rightarrow> txn \<Rightarrow> bool" for E w key where
  before_launch: "abort_prelaunch E w (tx_mission t) (ledger_file t) task b reason key actor = Inr ((e, True), t') \<Longrightarrow>
    release E w key t t'"
| after_launch: "finalize E w (tx_mission t) (ledger_file t) k recipient writer evidence reason key actor
      = Inr ((e, True), t') \<Longrightarrow> release E w key t t'"

lemma ascii_feature: "safe_feature s \<Longrightarrow> ascii s"
  unfolding safe_feature_def by (erule ascii_head_tail; auto simp: ascii_classes)

lemma typed_text:
  assumes "typed a"
  shows "utf8_ok (a_id a)" "utf8_ok (a_run_id a)" "utf8_ok (a_request_digest a)" "utf8_ok (a_recipient a)"
  using assms by (simp_all add: typed_def ascii_utf8 ascii_uuid ascii_feature is_sha256_def ascii_hex)

lemma utf8_sha: "is_sha256 s \<Longrightarrow> utf8_ok s"
  by (simp add: is_sha256_def ascii_hex ascii_utf8)

lemma ascii_text: "\<forall>c \<in> set s. c \<le> CHR 0x7F \<Longrightarrow> utf8_ok s"
  by (intro ascii_utf8) (simp add: ascii_def ascii_char)

lemma abort_wf:
  "typed a \<Longrightarrow> is_sha256 effect \<Longrightarrow> is_sha256 task \<Longrightarrow> utf8_ok reason \<Longrightarrow> wf_json (abort_payload task reason (binding_of a effect))"
  by (simp add: abort_payload_def binding_items_def binding_of_def typed_text utf8_sha ascii_text less_eq_char_def)

lemma evidence_wf:
  "typed a \<Longrightarrow> is_sha256 source \<Longrightarrow> is_sha256 task \<Longrightarrow> wf_json (evidence_json (evidence_for a source task st))"
  by (cases st)
    (simp_all add: evidence_json_def evidence_for_def typed_text utf8_sha ascii_text less_eq_char_def)

lemma final_wf:
  assumes "library_ok E" and "typed a" and "is_sha256 source" and "is_sha256 task" and "utf8_ok reason"
  shows "wf_json (final_payload E mission (a_id a) (a_run_id a) (a_recipient a) (a_writer a)
    (canonical_copy (evidence_json (evidence_for a source task st))) reason)"
proof -
  have "utf8_ok (evidence_digest E mission (a_id a) (a_recipient a) (a_writer a) (evidence_for a source task st))"
    using library_digest [OF assms(1)] by (simp add: evidence_digest_def utf8_sha)
  moreover have "utf8_ok (terminal_name st)" by (cases st) (simp_all add: ascii_text less_eq_char_def)
  moreover have "wf_json (canonical_copy (evidence_json (evidence_for a source task st)))"
    using evidence_wf [OF assms(2-4)] by (simp del: canonical_copy.simps)
  ultimately show ?thesis
    using assms(5) typed_text [OF assms(2)]
    by (simp add: final_payload_def evidence_copied evidence_checked(4) [OF assms(2-4)] ascii_text less_eq_char_def
      del: canonical_copy.simps)
qed

lemma binding_canonical: "typed a \<Longrightarrow> normalize_binding (binding_of a effect) = Inr (binding_of a effect)"
  by (simp add: normalize_binding_def binding_of_def typed_def normalize_canonical)

lemma abort_call:
  assumes "txn_ok E t" and "is_uuid (tx_mission t)" and "typed a" and "is_sha256 effect" and "is_sha256 task"
    and "reason \<noteq> []" and "safe_actor actor" and "safe_key key"
  shows "abort_prelaunch E w (tx_mission t) (ledger_file t) task (binding_of a effect) reason key actor
    = append_event E w t ''delegation_reservation_aborted'' actor key (abort_payload task reason (binding_of a effect))"
  using assms(3-8) normalize_canonical [OF assms(2)] client_append [OF assms(1,2)] binding_canonical [OF assms(3)]
  by (simp add: abort_prelaunch_def with_binding_def all_checks.simps sha_check_def component_check_def check_names_def
      admission_check_def require_def binding_of_def typed_def)

lemma final_call:
  assumes "txn_ok E t" and "is_uuid (tx_mission t)" and "typed a" and "is_sha256 source" and "is_sha256 task"
    and "reason \<noteq> []" and "safe_actor actor" and "safe_key key"
  shows "finalize E w (tx_mission t) (ledger_file t) (a_id a) (a_recipient a) (a_writer a)
      (evidence_json (evidence_for a source task st)) reason key actor
    = append_event E w t ''delegation_finalized'' actor key
        (final_payload E (tx_mission t) (a_id a) (a_run_id a) (a_recipient a) (a_writer a)
          (canonical_copy (evidence_json (evidence_for a source task st))) reason)"
proof -
  have id: "normalize_uuid (a_id a) = Inr (a_id a)" using assms(3) by (simp add: typed_def normalize_canonical)
  have obj: "is_obj (evidence_json (evidence_for a source task st))" by (simp add: evidence_json_def)
  show ?thesis
    using assms(3,6-8) normalize_canonical [OF assms(2)] client_append [OF assms(1,2)] id obj
      evidence_checked(1) [OF assms(3-5), of st]
    by (simp add: finalize_def all_checks.simps component_check_def check_names_def admission_check_def require_def typed_def
        Let_def del: canonical_copy.simps)
qed

text \<open>The rest of the mission stays as it is.\<close>

definition same_rest :: "mission \<Rightarrow> mission \<Rightarrow> bool" where
  "same_rest s s' \<longleftrightarrow> x_status s' = x_status s \<and> x_herdr s' = x_herdr s \<and> x_id s' = x_id s"

text \<open>What one release has done to the transaction.\<close>

definition released_txn :: "prims \<Rightarrow> world \<Rightarrow> string \<Rightarrow> txn \<Rightarrow> mission \<Rightarrow> txn \<Rightarrow> bool" where
  "released_txn E w key t s t' \<longleftrightarrow>
     (\<exists>e s' l. tx_events t' = tx_events t @ [e] \<and> e_key e = key
        \<and> instant E (e_time e) = next_instant E (w_clock w 0) (last_event (tx_events t))
        \<and> tx_state t' = Some s' \<and> txn_ok E t' \<and> tx_mission t' = tx_mission t
        \<and> released (x_admissions s) (x_admissions s') l \<and> same_rest s s')"

lemma admission_reduces:
  assumes "\<exists>t'. reduce_admission E s m ev = Inr t' \<and> released (x_admissions s) t' l"
  shows "\<exists>u. reduce E s m lr (Admission ev) = Inr u \<and> (released (x_admissions s) (x_admissions u) l \<and> same_rest s u)"
  using assms by (auto simp: same_rest_def)

lemma genesis_digest: "is_sha256 genesis_sha256"
  by code_simp

lemma release_leaf:
  assumes "library_ok E" and "clock_text E" and "world_ok E w t" and "txn_ok E t" and "tx_state t = Some s"
    and "\<not> ended (x_status s)" and "safe_key key" and "key \<notin> e_key ` set (tx_events t)"
    and a: "dget (s_admissions (x_admissions s)) l = Some a" "a_active a" "\<not> has_active_child (x_admissions s) l"
    and "a_effect a = Some effect" and "a_task a = Some task"
  shows "\<exists>t'. release E w key t t' \<and> released_txn E w key t s t'"
proof -
  note mission = txn_mission [OF assms(4,5)]
  have id: "a_id a = l" using keyedD [OF derived_keyed [OF mission(1)] a(1)] .
  have typed: "typed a" "a_lane a = ''CONTROL'' \<or> a_lane a = ''ASSURED''"
    using derived_typed [OF mission(1)] a(1) by (simp_all add: all_typed_def typed_stored_def)
  then have shas: "is_sha256 effect" "is_sha256 task" using assms(12,13) by (simp_all add: typed_def)
  have "safe_actor ''CONTROL''" "safe_actor ''ASSURED''"
    by (simp_all add: safe_actor_def is_alnum_def is_lower_def is_upper_def less_eq_char_def)
  then have actor: "safe_actor (a_lane a)" using typed(2) by metis
  have reason: "''released'' \<noteq> []" "utf8_ok ''released''" by (simp_all add: ascii_text less_eq_char_def)
  have phase: "active_phase (a_phase a)"
    using act.on_ledgers [OF mission(1)] a(1,2) by (auto simp: activity_def shaped_def)
  show ?thesis
  proof (cases "a_phase a \<in> {Reserved, Committed}")
    case True
    let ?p = "abort_payload task ''released'' (binding_of a effect)"
    note request = abort_request [OF typed(1) shas reason(1) actor assms(7)]
    have step: "\<exists>u. reduce E s m lr (Admission (Reservation_aborted (abort_of a effect task ''released''))) = Inr u
        \<and> (released (x_admissions s) (x_admissions u) l \<and> same_rest s u)" if "m_actor m = a_lane a" for m lr
      by (rule admission_reduces) (use abort_reduces [of s a m effect task "''released''"] True a assms(12,13) that id in simp)
    obtain t' e u where app: "append_event E w t ''delegation_reservation_aborted'' (a_lane a) key ?p = Inr ((e, True), t')"
      and t': "tx_events t' = tx_events t @ [e]" "tx_state t' = Some (counted (meta_of e) u)"
        "released (x_admissions s) (x_admissions u) l \<and> same_rest s u" "txn_ok E t'" "tx_mission t' = tx_mission t"
        "e_key e = key" "instant E (e_time e) = next_instant E (w_clock w 0) (last_event (tx_events t))"
      using append_progress [OF assms(1-6) request(1) assms(8) abort_wf [OF typed(1) shas reason(2)] request(2) step] .
    have "release E w key t t'"
      by (rule before_launch [OF trans [OF abort_call [OF assms(4) mission(3) typed(1) shas reason(1) actor assms(7)] app]])
    moreover have "released_txn E w key t s t'"
      using t' by (auto simp: released_txn_def same_rest_def)
    ultimately show ?thesis by blast
  next
    case False
    then have late: "a_phase a \<in> {Committed, Authorized, Started}" using phase by (auto simp: active_phase_def)
    let ?ev = "evidence_for a genesis_sha256 task T_failed"
    let ?p = "final_payload E (tx_mission t) (a_id a) (a_run_id a) (a_recipient a) (a_writer a) (canonical_copy (evidence_json ?ev)) ''released''"
    note request = final_request [OF assms(1) typed(1) genesis_digest shas(2) reason(1) actor assms(7), where st = T_failed and mission = "tx_mission t"]
    have step: "\<exists>u. reduce E s m lr (Admission (Delegation_finalized (final_of E (tx_mission t) a ?ev ''released''))) = Inr u
        \<and> (released (x_admissions s) (x_admissions u) l \<and> same_rest s u)" if "m_actor m = a_lane a" for m lr
      by (rule admission_reduces)
        (use final_reduces [of s a m task E genesis_sha256 T_failed "''released''"] late a assms(13) that id mission(2) in simp)
    obtain t' e u where app: "append_event E w t ''delegation_finalized'' (a_lane a) key ?p = Inr ((e, True), t')"
      and t': "tx_events t' = tx_events t @ [e]" "tx_state t' = Some (counted (meta_of e) u)"
        "released (x_admissions s) (x_admissions u) l \<and> same_rest s u" "txn_ok E t'" "tx_mission t' = tx_mission t"
        "e_key e = key" "instant E (e_time e) = next_instant E (w_clock w 0) (last_event (tx_events t))"
      using append_progress [OF assms(1-6) request(1) assms(8) final_wf [OF assms(1) typed(1) genesis_digest shas(2) reason(2)]
          request(2) step] .
    have "release E w key t t'"
      by (rule after_launch [OF trans [OF final_call [OF assms(4) mission(3) typed(1) genesis_digest shas(2) reason(1)
          actor assms(7)] app]])
    moreover have "released_txn E w key t s t'"
      using t' by (auto simp: released_txn_def same_rest_def)
    ultimately show ?thesis by blast
  qed
qed

section \<open>All releases\<close>

text \<open>One release after another, each turn with its world and its idempotency key.\<close>

inductive releases :: "prims \<Rightarrow> (world \<times> string) list \<Rightarrow> txn \<Rightarrow> txn \<Rightarrow> bool" for E where
  finished: "releases E [] t t"
| turn: "release E w key t u \<Longrightarrow> releases E ts u t' \<Longrightarrow> releases E ((w, key) # ts) t t'"

text \<open>A world whose clock is not past \<open>c\<close>, and a ledger whose next event is not forced past \<open>c\<close>.\<close>

definition able :: "int \<Rightarrow> world \<Rightarrow> bool" where
  "able c w \<longleftrightarrow> \<not> w_read_only w \<and> w_publishes w \<and> is_uuid (w_fresh w 0) \<and> 0 \<le> w_clock w 0 \<and> w_clock w 0 \<le> c"

definition due :: "prims \<Rightarrow> int \<Rightarrow> txn \<Rightarrow> bool" where
  "due E c t \<longleftrightarrow> next_instant E 0 (last_event (tx_events t)) \<le> c"

lemma able_next:
  assumes "able c w" and "due E c t"
  shows "0 \<le> next_instant E (w_clock w 0) (last_event (tx_events t))"
    and "next_instant E (w_clock w 0) (last_event (tx_events t)) \<le> c"
  using assms by (auto simp: able_def due_def next_instant_def split: option.splits)

lemma able_world: "able c w \<Longrightarrow> due E c t \<Longrightarrow> dated c \<Longrightarrow> world_ok E w t"
  using able_next [of c w E t] by (auto simp: world_ok_def able_def dated_def)

lemma released_due: "released_txn E w key t s t' \<Longrightarrow> able c w \<Longrightarrow> due E c t \<Longrightarrow> due E (c + 1) t'"
  using able_next [of c w E t] by (auto simp: released_txn_def due_def last_event_def next_instant_def)

definition turns_ok :: "int \<Rightarrow> (world \<times> string) list \<Rightarrow> txn \<Rightarrow> bool" where
  "turns_ok c turns t \<longleftrightarrow>
     list_all (\<lambda>(w, key). able c w \<and> safe_key key \<and> key \<notin> e_key ` set (tx_events t)) turns \<and> distinct (map snd turns)"

lemma turns_next:
  assumes "turns_ok c ((w, key) # turns) t" and "released_txn E w key t s t'"
  shows "turns_ok (c + 1) turns t'"
proof -
  obtain e where "tx_events t' = tx_events t @ [e]" "e_key e = key" using assms(2) by (auto simp: released_txn_def)
  then have keys: "e_key ` set (tx_events t') = insert key (e_key ` set (tx_events t))" by simp
  have "able (c + 1) w' \<and> safe_key k \<and> k \<notin> e_key ` set (tx_events t')" if "(w', k) \<in> set turns" for w' k
  proof -
    have "k \<in> snd ` set turns" using image_eqI [OF _ that, of k snd] by simp
    moreover have "key \<notin> snd ` set turns" using assms(1) by (simp add: turns_ok_def)
    ultimately have "k \<noteq> key" by blast
    moreover have "able c w'" "safe_key k" "k \<notin> e_key ` set (tx_events t)"
      using assms(1) that by (auto simp: turns_ok_def list_all_iff)
    ultimately show ?thesis unfolding keys by (simp add: able_def)
  qed
  then show ?thesis using assms(1) unfolding turns_ok_def list_all_iff by auto
qed

lemma releases_all:
  assumes "library_ok E" and "clock_text E"
  shows "txn_ok E t \<Longrightarrow> tx_state t = Some s \<Longrightarrow> \<not> ended (x_status s) \<Longrightarrow> current_schema (x_admissions s) \<Longrightarrow>
    turns_ok c (turns @ [last_turn]) t \<Longrightarrow> int (length turns) = live (x_admissions s) \<Longrightarrow> due E c t \<Longrightarrow>
    0 \<le> c \<Longrightarrow> dated (c + int (length turns)) \<Longrightarrow>
    \<exists>u s'. releases E turns t u \<and> txn_ok E u \<and> tx_state u = Some s' \<and> tx_mission u = tx_mission t \<and> live (x_admissions s') = 0
      \<and> same_rest s s' \<and> due E (c + int (length turns)) u \<and> turns_ok (c + int (length turns)) [last_turn] u"
proof (induction turns arbitrary: c t s)
  case Nil
  then show ?case by (auto intro: finished simp: same_rest_def)
next
  case (Cons wk turns)
  obtain w key where wk: "wk = (w, key)" by (cases wk)
  have turn: "able c w" "safe_key key" "key \<notin> e_key ` set (tx_events t)"
    using Cons.prems(5) by (simp_all add: turns_ok_def wk)
  have "dated c" using Cons.prems(8,9) by (simp add: dated_def)
  then have world: "world_ok E w t" using able_world turn(1) Cons.prems(7) by blast
  have "0 < live (x_admissions s)" using Cons.prems(6) by simp
  then obtain k b where "dget (s_admissions (x_admissions s)) k = Some b" "a_active b" using live_some by blast
  then obtain l a where a: "dget (s_admissions (x_admissions s)) l = Some a" "a_active a" "\<not> has_active_child (x_admissions s) l"
    using leaf_exists chain.on_ledgers [OF txn_mission(1) [OF Cons.prems(1,2)]] by metis
  then obtain effect task where "a_effect a = Some effect" "a_task a = Some task"
    using Cons.prems(4) unfolding current_schema_iff by blast
  then obtain v where v: "release E w key t v" "released_txn E w key t s v"
    using release_leaf [OF assms world Cons.prems(1,2,3) turn(2,3) a] by blast
  then obtain sv m where sv: "tx_state v = Some sv" "txn_ok E v" "tx_mission v = tx_mission t"
      "released (x_admissions s) (x_admissions sv) m" "same_rest s sv"
    by (auto simp: released_txn_def)
  have "\<not> ended (x_status sv)" "current_schema (x_admissions sv)" "int (length turns) = live (x_admissions sv)"
    using Cons.prems(3,4,6) sv(4,5) released_current released_live by (simp_all add: same_rest_def)
  moreover have "turns_ok (c + 1) (turns @ [last_turn]) v" "due E (c + 1) v"
    using turns_next [OF _ v(2)] Cons.prems(5) released_due [OF v(2) turn(1) Cons.prems(7)] by (simp_all add: wk)
  moreover have "0 \<le> c + 1" "dated (c + 1 + int (length turns))" using Cons.prems(8,9) by (simp_all add: add.assoc)
  ultimately obtain u s' where u: "releases E turns v u" "txn_ok E u" "tx_state u = Some s'" "tx_mission u = tx_mission v"
      "live (x_admissions s') = 0" "same_rest sv s'" "due E (c + 1 + int (length turns)) u"
      "turns_ok (c + 1 + int (length turns)) [last_turn] u"
    using Cons.IH [OF sv(2,1)] by blast
  have "releases E (wk # turns) t u" unfolding wk by (rule releases.turn [OF v(1) u(1)])
  moreover have "same_rest s s'" using sv(5) u(6) by (simp add: same_rest_def)
  ultimately show ?case using u sv(3) by (auto simp: add.assoc)
qed

section \<open>The terminal\<close>

lemma quiet_admissions:
  assumes "derive_state E es = Inr s" and "live (x_admissions s) = 0"
  shows "no_active_admissions (x_admissions s)"
proof -
  let ?t = "x_admissions s"
  have none: "\<not> a_active a" if "dget (s_admissions ?t) k = Some a" for k a
    using live_none [OF assms(2) that] .
  have "dget (s_run_claims ?t) r = None" for r
  proof (cases "dget (s_run_claims ?t) r")
    case (Some k)
    then obtain a where a: "dget (s_admissions ?t) k = Some a" "a_phase a = Reserved"
      using runs.on_ledgers [OF assms(1)] by (auto simp: run_holders_def claimed_def holding_def)
    then have "a_active a"
      using act.on_ledgers [OF assms(1)] by (auto simp: activity_def shaped_def active_phase_def)
    with none a(1) show ?thesis by blast
  qed
  moreover have "s_writer ?t = None"
    using writer.on_ledgers [OF assms(1)] none by (cases "s_writer ?t") (auto simp: writer_slot_def)
  ultimately show ?thesis using none unfolding idle_iff idle_def by blast
qed

definition terminal_json :: "terminal_status \<Rightarrow> string \<Rightarrow> json" where
  "terminal_json st reason = JObj [(''status'', JStr (terminal_name st)), (''reason'', JStr reason)]"

lemma registry_terminal: "map_of (registry E) ''mission_terminal'' = Some valid_terminal"
  by (simp add: registry_def lifecycle_registry_def)

lemma terminal_request:
  assumes "reason \<noteq> []" and "safe_actor actor" and "safe_key key"
  shows "plain_request E ''mission_terminal'' actor key (terminal_json st reason)"
    and "decode_payload ''mission_terminal'' (canonical_copy (terminal_json st reason)) = Lifecycle (Mission_terminal st reason)"
proof -
  have fields: "field (canonical_copy (terminal_json st reason)) ''status'' = JStr (terminal_name st)"
      "field (canonical_copy (terminal_json st reason)) ''reason'' = JStr reason"
    unfolding terminal_json_def by (subst field_copy; simp add: field_def)+
  have shape: "has_exactly (canonical_copy (terminal_json st reason)) [''status'', ''reason'']"
    unfolding terminal_json_def has_exactly_copy by (simp add: has_exactly_def has_field_def)
  have obj: "is_obj (canonical_copy (terminal_json st reason))" by (simp add: terminal_json_def)
  have valid: "valid_terminal (canonical_copy (terminal_json st reason)) = Inr ()"
    using assms(1) terminal_name_member [of st]
    by (simp add: valid_terminal_def shape fields v_in_def v_nonempty_def del: canonical_copy.simps)
  have "safe_kind ''mission_terminal''" by (simp add: safe_kind_def is_lower_def less_eq_char_def)
  then show "plain_request E ''mission_terminal'' actor key (terminal_json st reason)"
    using valid obj assms(2,3) by (simp add: plain_request_def validate_payload_def registry_terminal
        legacy_admission_request_def del: canonical_copy.simps)
  show "decode_payload ''mission_terminal'' (canonical_copy (terminal_json st reason)) = Lifecycle (Mission_terminal st reason)"
    unfolding decode_terminal by (simp add: sget_def fields del: terminal_of.simps canonical_copy.simps)
qed

lemma terminal_wf: "utf8_ok reason \<Longrightarrow> wf_json (terminal_json st reason)"
  by (cases st) (simp_all add: terminal_json_def ascii_text less_eq_char_def)

text \<open>C40: a mission can always be brought to its end: when no inference request is in flight, no functional
  attempt is open and the active admissions have the current schema, the client can release them one by one,
  a leaf of the tree of parents at every turn, and then record the terminal.  There is one turn per active
  admission; each turn needs a world that can write, an unused key and a microsecond of the calendar.\<close>

theorem missions_can_end:
  assumes "library_ok E" and "reader_ok E" and "clock_text E"
    and "open_txn E mission file = Inr t" and "tx_state t = Some s" and "\<not> ended (x_status s)"
    and "inference_settled s" and "\<not> functional_open s" and "current_schema (x_admissions s)"
    and "st = T_succeeded \<Longrightarrow> wants_running s \<and> x_status s = Archived"
    and "turns_ok c (turns @ [(w, key)]) t" and "int (length turns) = live (x_admissions s)"
    and "due E c t" and "0 \<le> c" and "dated (c + int (length turns))"
    and "reason \<noteq> []" and "utf8_ok reason" and "safe_actor actor"
  shows "\<exists>u e t' s'. releases E turns t u
    \<and> append_terminal E w (tx_mission u) (ledger_file u) (terminal_name st) reason key actor = Inr ((e, True), t')
    \<and> tx_state t' = Some s' \<and> x_status s' = Ended st \<and> no_active_admissions (x_admissions s')"
proof -
  have ok: "txn_ok E t" using open_txn_ok(1) [OF assms(4,2)] .
  obtain u v where u: "releases E turns t u" "txn_ok E u" "tx_state u = Some v" "live (x_admissions v) = 0" "same_rest s v"
      "due E (c + int (length turns)) u" "turns_ok (c + int (length turns)) [(w, key)] u"
    using releases_all [OF assms(1,3) ok assms(5,6,9,11-15)] by blast
  note derived = txn_mission(1) [OF u(2,3)]
  have last: "able (c + int (length turns)) w" "safe_key key" "key \<notin> e_key ` set (tx_events u)"
    using u(7) by (simp_all add: turns_ok_def)
  have world: "world_ok E w u" using able_world [OF last(1) u(6) assms(15)] .
  have rest: "\<not> ended (x_status v)" "inference_settled v" "\<not> functional_open v" "wants_running v = wants_running s"
      "x_status v = x_status s"
    using u(5) assms(6-8) by (simp_all add: same_rest_def inference_settled_def functional_open_def wants_running_def)
  have quiet: "no_active_admissions (x_admissions v)" using quiet_admissions [OF derived u(4)] .
  have "x_terminal v = None" using open_terminal [OF derived rest(1)] .
  then have step: "\<exists>x. reduce E v m lr (Lifecycle (Mission_terminal st reason)) = Inr x
      \<and> (x_status x = Ended st \<and> x_admissions x = x_admissions v)" for m lr
    using rest quiet assms(10) by (cases st) (auto simp: reduce_terminal_def)
  note request = terminal_request [OF assms(16,18) last(2)]
  obtain t' e x where t': "append_event E w u ''mission_terminal'' actor key (terminal_json st reason) = Inr ((e, True), t')"
      "tx_state t' = Some (counted (meta_of e) x)" "x_status x = Ended st \<and> x_admissions x = x_admissions v"
    using append_progress [OF assms(1,3) world u(2,3) rest(1) request(1) last(3) terminal_wf [OF assms(17)] request(2) step] .
  have "append_terminal E w (tx_mission u) (ledger_file u) (terminal_name st) reason key actor = Inr ((e, True), t')"
    using t'(1) client_append [OF u(2) txn_mission(3) [OF u(2,3)]] by (simp add: append_terminal_def terminal_json_def)
  then show ?thesis using u(1) t'(2,3) quiet by force
qed

lemma committed_facts:
  "\<not> ended (x_status committed_state)" "inference_settled committed_state" "\<not> functional_open committed_state"
  "current_schema (x_admissions committed_state)" "live (x_admissions committed_state) = 2"
  unfolding live_def dict.total_def by code_simp+

lemma sample_able: "able 30 late_world"
  unfolding able_def by (simp add: late_world_def sample_world_def) code_simp

theorem missions_can_end_witness:
  "\<exists>t u e t' s'. stands t committed_state [''key-1'', ''key-2'', ''key-3'', ''batch-1'', ''commit-1''] 23
    \<and> releases sample [(late_world, ''end-1''), (late_world, ''end-2'')] t u
    \<and> append_terminal sample late_world (tx_mission u) (ledger_file u) ''failed'' ''stopped'' ''end-3'' ''CONTROL'' = Inr ((e, True), t')
    \<and> tx_state t' = Some s' \<and> x_status s' = Ended T_failed"
proof -
  obtain t0 t1 t where "stands t0 policy_state [''key-1'', ''key-2'', ''key-3''] 21"
    and "stands t1 reserved_state [''key-1'', ''key-2'', ''key-3'', ''batch-1''] 22"
    and t: "stands t committed_state [''key-1'', ''key-2'', ''key-3'', ''batch-1'', ''commit-1''] 23"
    using policy_stands batch_stands commit_stands by metis
  let ?turns = "[(late_world, ''end-1''), (late_world, ''end-2'')]"
  have ok: "txn_ok sample t" "tx_state t = Some committed_state" "tx_mission t = sample_uuid ''mission''"
    and keys: "map e_key (tx_events t) = [''key-1'', ''key-2'', ''key-3'', ''batch-1'', ''commit-1'']"
    and next_time: "next_instant sample 20 (last_event (tx_events t)) = 23"
    using t by (simp_all add: stands_def)
  have opened: "open_txn sample (sample_uuid ''mission'') (ledger_file t) = Inr t"
    using open_written [OF ok(1)] normalize_canonical [OF sample_mission] ok(3) by simp
  have used: "e_key ` set (tx_events t) = {''key-1'', ''key-2'', ''key-3'', ''batch-1'', ''commit-1''}"
    using arg_cong [OF keys, of set] by simp
  have safe: "safe_key ''end-1''" "safe_key ''end-2''" "safe_key ''end-3''" "safe_actor ''CONTROL''" by code_simp+
  have turns: "turns_ok 30 (?turns @ [(late_world, ''end-3'')]) t"
    using sample_able safe by (simp add: turns_ok_def used)
  have due: "due sample 30 t"
    using next_time by (auto simp: due_def next_instant_def split: option.splits)
  have "utf8_ok ''stopped''" by (simp add: ascii_text less_eq_char_def)
  then obtain u e t' s' where "releases sample ?turns t u"
    and "append_terminal sample late_world (tx_mission u) (ledger_file u) ''failed'' ''stopped'' ''end-3'' ''CONTROL''
      = Inr ((e, True), t')"
    and "tx_state t' = Some s'" and "x_status s' = Ended T_failed"
    using missions_can_end [OF sample_library sample_reader sample_clock_text opened ok(2) committed_facts(1-4) _ turns _ due,
        of T_failed "''stopped''" "''CONTROL''"] committed_facts(5) safe(4)
    by (auto simp: dated_def)
  then show ?thesis using t by blast
qed

end
