(* ===== verification/Recreation.thy ===== *)
theory Recreation
  imports Append_Live
begin

text \<open>
  A mission that is created again.  Nothing in \<open>derive_state\<close> stops a second
  \<open>mission_created\<close> event: it puts the mission back to \<open>created\<close>, and the workflow can then be
  compiled again, away from the digest that the frozen admission policy is bound to.
\<close>

lemma decode_created: "decode_payload ''mission_created'' p = Lifecycle Mission_recreated"
  by (simp add: decode_payload_def decode_lifecycle_def)

lemma decode_compiled:
  "decode_payload ''workflow_compiled'' p = Lifecycle (Workflow_compiled (sget p ''compiled_digest''))"
  by (simp add: decode_payload_def decode_lifecycle_def)

text \<open>C24: no open mission refuses to be created again: to every ledger of a mission that has not ended, with
  a frozen policy, a valid creation and a compilation under any other digest can be appended.  The mission
  is then compiled under that digest, with all its admissions, while its policy stays bound to the old one.\<close>

theorem recreation_unbinds_policy:
  assumes "derive_state E es = Inr s" and "sequenced (es @ [c])" and "\<not> ended (x_status s)"
    and "s_policy (x_admissions s) = Some (po, ev)"
    and "e_kind c = ''mission_created''" and "validate_payload E (e_kind c) (e_payload c) = Inr ()"
    and "e_kind w = ''workflow_compiled''" and "validate_payload E (e_kind w) (e_payload w) = Inr ()"
    and "e_key c \<notin> e_key ` set es" and "e_key w \<notin> e_key ` set (es @ [c])"
    and "sget (e_payload w) ''compiled_digest'' \<noteq> po_compiled_digest po"
  shows "\<exists>s'. derive_state E (es @ [c, w]) = Inr s' \<and> x_status s' = Compiled
    \<and> x_admissions s' = x_admissions s \<and> s_policy (x_admissions s') = Some (po, ev)
    \<and> x_compiled s' = Some (sget (e_payload w) ''compiled_digest'') \<and> x_compiled s' \<noteq> Some (po_compiled_digest po)"
proof -
  let ?s1 = "counted (meta_of c) (s\<lparr>x_status := Created\<rparr>)"
  let ?s2 = "?s1\<lparr>x_compiled := Some (sget (e_payload w) ''compiled_digest''), x_status := Compiled\<rparr>"
  have seq: "sequenced es" using assms(2) sequenced_append by blast
  have "derive_state E (es @ [c]) = Inr ?s1"
    by (rule derive_one_more [OF assms(1) seq assms(3,9,6)]) (simp add: assms(5) decode_created enter_def)
  then have "derive_state E ((es @ [c]) @ [w]) = Inr (counted (meta_of w) ?s2)"
    using assms(2) by (rule derive_one_more [OF _ _ _ assms(10,8)])
      (simp_all add: counted_def assms(7) decode_compiled reduce_compiled_def enter_def)
  then show ?thesis using assms(4,11) by (simp add: counted_def)
qed

definition policy_ledger :: "event list" where
  "policy_ledger = [created_event, compiled_event, policy_event]"

definition created_again :: event where
  "created_again = created_event\<lparr>e_sequence := 4, e_time := ''4'', e_key := ''key-4''\<rparr>"

definition compiled_again :: event where
  "compiled_again = sample_event 5 ''workflow_compiled'' ''CONTROL'' [(''compiled_digest'', JStr (replicate 64 (CHR ''1'')))]"

lemma policy_ledger:
  "satisfies (\<lambda>s. x_status s = Compiled \<and> (case s_policy (x_admissions s) of
     None \<Rightarrow> False | Some (po, ev) \<Rightarrow> po_compiled_digest po = genesis_sha256)) (derive_state sample policy_ledger)"
  by code_simp

theorem recreation_unbinds_policy_witness:
  "\<exists>s po ev. derive_state sample (policy_ledger @ [created_again, compiled_again]) = Inr s
     \<and> s_policy (x_admissions s) = Some (po, ev) \<and> po_compiled_digest po = genesis_sha256
     \<and> x_compiled s = Some (replicate 64 (CHR ''1''))"
proof -
  obtain s po ev where s: "derive_state sample policy_ledger = Inr s" "x_status s = Compiled"
    "s_policy (x_admissions s) = Some (po, ev)" "po_compiled_digest po = genesis_sha256"
    using satisfiesD [OF policy_ledger] by (auto split: option.splits)
  have events: "sequenced (policy_ledger @ [created_again])" "e_kind created_again = ''mission_created''"
    "e_kind compiled_again = ''workflow_compiled''" "validate_payload sample (e_kind created_again) (e_payload created_again) = Inr ()"
    "validate_payload sample (e_kind compiled_again) (e_payload compiled_again) = Inr ()"
    "e_key created_again \<notin> e_key ` set policy_ledger" "e_key compiled_again \<notin> e_key ` set (policy_ledger @ [created_again])"
    "sget (e_payload compiled_again) ''compiled_digest'' = replicate 64 (CHR ''1'')" "replicate 64 (CHR ''1'') \<noteq> genesis_sha256"
    by code_simp+
  have digest: "sget (e_payload compiled_again) ''compiled_digest'' \<noteq> po_compiled_digest po" unfolding events(8) s(4) by (rule events(9))
  have "\<not> ended (x_status s)" using s(2) by simp
  from recreation_unbinds_policy [OF s(1) events(1) this s(3) events(2,4,3,5-7) digest] show ?thesis
    unfolding events(8) using s(4) by blast
qed

end
