(* ===== verification/Decision_Client.thy ===== *)
theory Decision_Client
  imports Transaction "HOL-Library.Product_Lexorder"
begin

text \<open>
  The client of human decisions (scripts/fleet_decisions.py): the resolution by a human, the
  reconciliation that resolves expired defaults and tries again when another process wins the
  ledger, and the inventory over all missions.  Where the source reads the ledger again, the
  bytes it finds there are an argument of their own, since other processes may have written.
\<close>

section \<open>Reading a mission\<close>

text \<open>\<open>read_events\<close> on the snapshot of a ledger, None where no snapshot can be taken.\<close>

definition read_events :: "prims \<Rightarrow> string \<Rightarrow> string option \<Rightarrow> event list result" where
  "read_events E mission file =
     (case file of
        None \<Rightarrow> Inl MissionStateError
      | Some content \<Rightarrow> events_from_bytes E (Some mission) True content)"

definition load_state :: "prims \<Rightarrow> string \<Rightarrow> string option \<Rightarrow> mission result" where
  "load_state E mission file =
     (case normalize_uuid mission of
        Inl x \<Rightarrow> Inl x
      | Inr mid \<Rightarrow>
     (case read_events E mid file of
        Inl x \<Rightarrow> Inl x
      | Inr es \<Rightarrow>
     (case verify_events E es of
        Inl x \<Rightarrow> Inl x
      | Inr _ \<Rightarrow> derive_state E es)))"

text \<open>The clause \<open>except MissionStateError as exc: raise DecisionError(str(exc)) from exc\<close>.\<close>

definition as_decision_error :: "error \<Rightarrow> error" where
  "as_decision_error x = (if is_state_error x then DecisionError else x)"

definition or_decision_error :: "'a result \<Rightarrow> 'a result" where
  "or_decision_error r = (case r of Inl x \<Rightarrow> Inl (as_decision_error x) | Inr a \<Rightarrow> Inr a)"

definition load_mission :: "prims \<Rightarrow> string \<Rightarrow> string option \<Rightarrow> (string \<times> mission) result" where
  "load_mission E mission file = or_decision_error
     (case normalize_uuid mission of
        Inl x \<Rightarrow> Inl x
      | Inr mid \<Rightarrow> (case load_state E mid file of Inl x \<Rightarrow> Inl x | Inr s \<Rightarrow> Inr (mid, s)))"

definition find_decision :: "mission \<Rightarrow> string \<Rightarrow> decision result" where
  "find_decision s k =
     (case or_decision_error (normalize_uuid k) of
        Inl x \<Rightarrow> Inl x
      | Inr did \<Rightarrow>
          (case dget (d_all (x_decisions s)) did of None \<Rightarrow> Inl DecisionError | Some de \<Rightarrow> Inr de))"

text \<open>The pending decisions in the order of their identities.\<close>

definition pending_items :: "mission \<Rightarrow> (string \<times> decision) list" where
  "pending_items s =
     List.map_filter (\<lambda>k. map_option (Pair k) (dget (d_all (x_decisions s)) k)) (sort (d_pending (x_decisions s)))"

definition list_decisions ::
  "prims \<Rightarrow> string \<Rightarrow> string option \<Rightarrow> bool \<Rightarrow> (mission \<times> decision list) result" where
  "list_decisions E mission file pending_only =
     (case load_mission E mission file of
        Inl x \<Rightarrow> Inl x
      | Inr (_, s) \<Rightarrow>
          Inr (s, map snd (if pending_only then pending_items s
                           else sort_key fst (ditems (d_all (x_decisions s))))))"

section \<open>Resolution by a human\<close>

definition resolution_json :: "decision \<Rightarrow> string \<Rightarrow> string \<Rightarrow> string \<Rightarrow> json" where
  "resolution_json de chosen reason kind = JObj
     [(''decision_id'', JStr (dr_id (de_request de))), (''request_event_sha256'', JStr (de_request_event de)),
      (''option_id'', JStr chosen), (''reason'', JStr reason), (''resolution_kind'', JStr kind)]"

definition resolution_payload :: "decision \<Rightarrow> string \<Rightarrow> string \<Rightarrow> string \<Rightarrow> json result" where
  "resolution_payload de chosen reason kind = or_decision_error
     (case valid_decision_resolved (resolution_json de chosen reason kind) of
        Inl x \<Rightarrow> Inl x
      | Inr _ \<Rightarrow> Inr (resolution_json de chosen reason kind))"

record resolution_answer =
  ha_event :: event
  ha_appended :: bool
  ha_decision :: decision

definition resolve_human ::
  "prims \<Rightarrow> world \<Rightarrow> string \<Rightarrow> string option \<Rightarrow> string option \<Rightarrow> string option
   \<Rightarrow> string \<Rightarrow> string \<Rightarrow> string \<Rightarrow> string \<Rightarrow> resolution_answer result" where
  "resolve_human E w mission file at_append after k chosen reason key =
     (case load_mission E mission file of
        Inl x \<Rightarrow> Inl x
      | Inr (mid, s) \<Rightarrow>
     (case find_decision s k of
        Inl x \<Rightarrow> Inl x
      | Inr de \<Rightarrow>
     (case resolution_payload de chosen reason ''human'' of
        Inl x \<Rightarrow> Inl x
      | Inr p \<Rightarrow>
     (case or_decision_error (ledger_append E w mid at_append ''human_decision_resolved'' ''HUMAN'' key p) of
        Inl x \<Rightarrow> Inl x
      | Inr ((e, appended), _) \<Rightarrow>
     (case load_mission E mid after of
        Inl x \<Rightarrow> Inl x
      | Inr (_, s') \<Rightarrow>
     (case find_decision s' k of
        Inl x \<Rightarrow> Inl x
      | Inr de' \<Rightarrow> Inr \<lparr>ha_event = e, ha_appended = appended, ha_decision = de'\<rparr>))))))"

section \<open>Reconciliation of expired defaults\<close>

definition parse_timestamp :: "prims \<Rightarrow> string \<Rightarrow> int result" where
  "parse_timestamp E t = (case parse_iso E t of None \<Rightarrow> Inl MissionStateError | Some i \<Rightarrow> Inr i)"

text \<open>The default that may be taken now: of an expired, reversible decision of low risk.\<close>

definition expired_default :: "prims \<Rightarrow> int \<Rightarrow> decision \<Rightarrow> string option result" where
  "expired_default E now de =
     (case parse_timestamp E (de_deadline de) of
        Inl x \<Rightarrow> Inl x
      | Inr deadline \<Rightarrow>
          Inr (if deadline \<le> now \<and> dr_risk (de_request de) = Low \<and> dr_reversible (de_request de)
               then dr_default (de_request de) else None))"

definition auto_key :: "string \<Rightarrow> string" where
  "auto_key k = ''decision:auto:'' @ k"

definition auto_reason :: string where
  "auto_reason = ''two-hour low-risk reversible default elapsed''"

fun default_requests :: "prims \<Rightarrow> int \<Rightarrow> (string \<times> decision) list \<Rightarrow> (string \<times> json) list result" where
  "default_requests E now [] = Inr []"
| "default_requests E now ((k, de) # items) =
     (case expired_default E now de of
        Inl x \<Rightarrow> Inl x
      | Inr None \<Rightarrow> default_requests E now items
      | Inr (Some chosen) \<Rightarrow>
          (case resolution_payload de chosen auto_reason ''automatic'' of
             Inl x \<Rightarrow> Inl x
           | Inr p \<Rightarrow>
               (case default_requests E now items of
                  Inl x \<Rightarrow> Inl x
                | Inr rs \<Rightarrow>
                    Inr ((dr_id (de_request de),
                          request_json ''human_decision_resolved'' ''CONTROL'' (auto_key k) p) # rs))))"

text \<open>The function \<open>append_events\<close> of the module: all requests are checked, then one transaction.\<close>

definition ledger_append_all ::
  "prims \<Rightarrow> world \<Rightarrow> string \<Rightarrow> string option \<Rightarrow> json list \<Rightarrow> ((event \<times> bool) list \<times> txn) result" where
  "ledger_append_all E w mission ledger js =
     (case normalize_requests E js of
        Inl x \<Rightarrow> Inl x
      | Inr qs \<Rightarrow>
          in_transaction E mission ledger
            (\<lambda>t. append_events E w t (map (\<lambda>q. request_json (q_kind q) (q_actor q) (q_key q) (q_payload q)) qs)))"

text \<open>
  One turn of the loop meets a world, the ledger at its append, and the ledger that is read
  again after a conflict.  The answer carries the transaction, None where nothing was due.
\<close>

record turn =
  tu_world :: world
  tu_append :: "string option"
  tu_reload :: "string option"

record reconcile_answer =
  ka_mission :: string
  ka_resolved :: "string list"
  ka_appended :: nat

fun reconcile_loop ::
  "prims \<Rightarrow> int \<Rightarrow> string \<Rightarrow> mission \<Rightarrow> turn list \<Rightarrow> (reconcile_answer \<times> txn option) result" where
  "reconcile_loop E now mid s [] = Inl DecisionError"
| "reconcile_loop E now mid s (u # us) =
     (case or_decision_error (default_requests E now (pending_items s)) of
        Inl x \<Rightarrow> Inl x
      | Inr due \<Rightarrow>
          if due = [] then Inr (\<lparr>ka_mission = mid, ka_resolved = [], ka_appended = 0\<rparr>, None)
          else
            (case ledger_append_all E (tu_world u) mid (tu_append u) (map snd due) of
               Inl x \<Rightarrow>
                 if x = MissionConflict \<and> us \<noteq> [] then
                   (case load_mission E mid (tu_reload u) of
                      Inl y \<Rightarrow> Inl y
                    | Inr (_, s') \<Rightarrow> reconcile_loop E now mid s' us)
                 else Inl (as_decision_error x)
             | Inr (rs, t) \<Rightarrow>
                 Inr (\<lparr>ka_mission = mid, ka_resolved = map fst due, ka_appended = length (filter snd rs)\<rparr>, Some t)))"

definition reconcile_expired ::
  "prims \<Rightarrow> int \<Rightarrow> string \<Rightarrow> string option \<Rightarrow> turn \<Rightarrow> turn \<Rightarrow> (reconcile_answer \<times> txn option) result" where
  "reconcile_expired E now mission file u0 u1 =
     (case load_mission E mission file of
        Inl x \<Rightarrow> Inl x
      | Inr (mid, s) \<Rightarrow> reconcile_loop E now mid s [u0, u1])"

section \<open>The inventory of all missions\<close>

text \<open>\<open>Path(p).name\<close>: the last component that is neither empty nor a single dot.\<close>

definition path_name :: "string \<Rightarrow> string" where
  "path_name p =
     (let parts = filter (\<lambda>q. q \<noteq> [] \<and> q \<noteq> ''.'') (split_on (CHR ''/'') p) in
      if parts = [] then [] else last parts)"

definition label_char :: "char \<Rightarrow> bool" where
  "label_char c \<longleftrightarrow> is_alnum c \<or> c \<in> {CHR ''.'', CHR ''_'', CHR ''-''}"

text \<open>\<open>re.sub("[^A-Za-z0-9._-]+", "_", text)\<close>: a run of other characters becomes one underscore.\<close>

fun replace_runs :: "bool \<Rightarrow> string \<Rightarrow> string" where
  "replace_runs inside [] = []"
| "replace_runs inside (c # cs) =
     (if label_char c then c # replace_runs False cs
      else if inside then replace_runs True cs
      else CHR ''_'' # replace_runs True cs)"

definition strip_char :: "char \<Rightarrow> string \<Rightarrow> string" where
  "strip_char c s = rev (dropWhile ((=) c) (rev (dropWhile ((=) c) s)))"

definition project_identity :: "prims \<Rightarrow> string \<Rightarrow> string \<times> string" where
  "project_identity E target =
     (let digest = hexdigest E target;
          label = take 64 (strip_char (CHR ''_'') (replace_runs False (path_name target))) in
      (if label = [] then ''repo-'' @ take 12 digest else label, digest))"

datatype inventory_status = Default_eligible | Overdue | Waiting

text \<open>One entry; the age is kept in whole microseconds.\<close>

record inventory_item =
  in_project :: string
  in_project_id :: string
  in_feature :: string
  in_mission :: string
  in_mission_status :: status
  in_decision :: string
  in_status :: inventory_status
  in_impact :: impact
  in_risk :: risk
  in_reversible :: bool
  in_affected :: "string list"
  in_requested_at :: string
  in_deadline_at :: string
  in_age :: int
  in_eligible :: bool
  in_delivery :: delivery_state
  in_attempts :: int
  in_next_attempt :: "string option"

definition default_eligible :: "int \<Rightarrow> int \<Rightarrow> decision_request \<Rightarrow> bool" where
  "default_eligible now deadline q \<longleftrightarrow>
     deadline \<le> now \<and> dr_risk q = Low \<and> dr_reversible q \<and> dr_default q \<noteq> None"

definition inventory_entry :: "prims \<Rightarrow> int \<Rightarrow> string \<Rightarrow> mission \<Rightarrow> string \<times> decision \<Rightarrow> inventory_item result" where
  "inventory_entry E now name s item =
     (let (k, de) = item; q = de_request de; (project, project_id) = project_identity E (x_target_repo s) in
      case parse_timestamp E (de_requested_at de) of
        Inl x \<Rightarrow> Inl x
      | Inr requested \<Rightarrow>
     (case parse_timestamp E (de_deadline de) of
        Inl x \<Rightarrow> Inl x
      | Inr deadline \<Rightarrow>
          Inr \<lparr>in_project = project, in_project_id = project_id, in_feature = cr_feature (x_created s),
               in_mission = name, in_mission_status = x_status s, in_decision = k,
               in_status = (if default_eligible now deadline q then Default_eligible
                            else if deadline \<le> now then Overdue else Waiting),
               in_impact = dr_impact q, in_risk = dr_risk q, in_reversible = dr_reversible q,
               in_affected = dr_affected q, in_requested_at = de_requested_at de,
               in_deadline_at = de_deadline de, in_age = max 0 (now - requested),
               in_eligible = default_eligible now deadline q,
               in_delivery = ob_status (de_delivery de), in_attempts = ob_attempts (de_delivery de),
               in_next_attempt = ob_next (de_delivery de)\<rparr>))"

fun map_result :: "('a \<Rightarrow> 'b result) \<Rightarrow> 'a list \<Rightarrow> 'b list result" where
  "map_result f [] = Inr []"
| "map_result f (a # as) =
     (case f a of
        Inl x \<Rightarrow> Inl x
      | Inr b \<Rightarrow> (case map_result f as of Inl x \<Rightarrow> Inl x | Inr bs \<Rightarrow> Inr (b # bs)))"

text \<open>
  The missions of the store: a name that is no canonical UUID is skipped, a ledger that does not
  validate is listed as invalid.
\<close>

definition read_mission :: "prims \<Rightarrow> string \<Rightarrow> string option \<Rightarrow> mission result" where
  "read_mission E name file =
     (case read_events E name file of Inl x \<Rightarrow> Inl x | Inr es \<Rightarrow> derive_state E es)"

fun scan_missions ::
  "prims \<Rightarrow> int \<Rightarrow> (string \<Rightarrow> string option) \<Rightarrow> string list \<Rightarrow> (inventory_item list \<times> string list) result" where
  "scan_missions E now files [] = Inr ([], [])"
| "scan_missions E now files (name # names) =
     (if normalize_uuid name \<noteq> Inr name then scan_missions E now files names
      else
        (case read_mission E name (files name) of
           Inl x \<Rightarrow>
             if is_state_error x then
               (case scan_missions E now files names of
                  Inl y \<Rightarrow> Inl y
                | Inr (items, invalid) \<Rightarrow> Inr (items, name # invalid))
             else Inl x
         | Inr s \<Rightarrow>
             (case map_result (inventory_entry E now name s) (pending_items s) of
                Inl x \<Rightarrow> Inl x
              | Inr entries \<Rightarrow>
                  (case scan_missions E now files names of
                     Inl y \<Rightarrow> Inl y
                   | Inr (items, invalid) \<Rightarrow> Inr (entries @ items, invalid)))))"

definition item_order :: "inventory_item \<Rightarrow> string \<times> string \<times> string \<times> string \<times> string \<times> string" where
  "item_order i =
     (in_project i, in_project_id i, in_deadline_at i, in_feature i, in_mission i, in_decision i)"

record inventory =
  iv_decisions :: "inventory_item list"
  iv_invalid :: "string option list"

text \<open>
  \<open>names\<close> lists the directories under \<open>missions\<close>: None where the store cannot be trusted,
  no names where it has no missions.
\<close>

definition decision_inventory ::
  "prims \<Rightarrow> int \<Rightarrow> string list option \<Rightarrow> (string \<Rightarrow> string option) \<Rightarrow> inventory result" where
  "decision_inventory E now names files =
     (case names of
        None \<Rightarrow> Inr \<lparr>iv_decisions = [], iv_invalid = [None]\<rparr>
      | Some ns \<Rightarrow>
          (case scan_missions E now files ns of
             Inl x \<Rightarrow> Inl x
           | Inr (items, invalid) \<Rightarrow>
               Inr \<lparr>iv_decisions = sort_key item_order items, iv_invalid = map Some (sort invalid)\<rparr>))"

end
