(* ===== verification/Decision_Final.thy ===== *)
theory Decision_Final
  imports Decision_Theorems
begin

text \<open>
  What later events leave of a decision: its request stays, and a resolution is final.  A
  recorded resolution event is the resolution its decision has ever after.
\<close>

section \<open>Decisions are kept\<close>

definition decision_kept :: "decision \<Rightarrow> decision \<Rightarrow> bool" where
  "decision_kept de de' \<longleftrightarrow>
     de_request de' = de_request de \<and> de_request_event de' = de_request_event de
     \<and> de_requested_at de' = de_requested_at de \<and> de_deadline de' = de_deadline de
     \<and> (de_resolution de = None \<or> de_resolution de' = de_resolution de)"

definition decisions_kept :: "decision_state \<Rightarrow> decision_state \<Rightarrow> bool" where
  "decisions_kept d d' \<longleftrightarrow>
     (\<forall>k de. dget (d_all d) k = Some de \<longrightarrow> (\<exists>de'. dget (d_all d') k = Some de' \<and> decision_kept de de'))"

lemma decision_kept_refl [simp]: "decision_kept de de"
  by (simp add: decision_kept_def)

lemma decision_kept_trans: "decision_kept a b \<Longrightarrow> decision_kept b c \<Longrightarrow> decision_kept a c"
  by (auto simp: decision_kept_def)

lemma decisions_kept_refl [simp]: "decisions_kept d d"
  by (simp add: decisions_kept_def)

lemma decisions_kept_trans: "decisions_kept a b \<Longrightarrow> decisions_kept b c \<Longrightarrow> decisions_kept a c"
  unfolding decisions_kept_def by (meson decision_kept_trans)

lemma decisions_keptD:
  assumes "decisions_kept d d'" and "dget (d_all d) k = Some de"
  obtains de' where "dget (d_all d') k = Some de'" and "decision_kept de de'"
  using assms unfolding decisions_kept_def by blast

lemma outbox_kept: "dget (d_all d) k = Some de \<Longrightarrow> decisions_kept d (set_outbox k de ob d)"
  by (auto simp: decisions_kept_def set_outbox_def decision_kept_def)

lemma resolve_kept:
  "dget (d_all d) (rs_decision p) = Some de \<Longrightarrow> de_resolution de = None \<Longrightarrow> decisions_kept d (resolve_decision m p de d)"
  by (auto simp: decisions_kept_def resolve_decision_def decision_kept_def)

lemma add_kept: "\<not> dhas (d_all d) (dr_id q) \<Longrightarrow> decisions_kept d (add_decision E m q d)"
  by (auto simp: decisions_kept_def add_decision_def dhas_def)

lemma reduce_decision_kept:
  assumes "decisions_ok E (x_decisions s)" and "reduce_decision E s m e = Inr d"
  shows "decisions_kept (x_decisions s) d"
proof (cases e)
  case (Decision_requested q)
  then show ?thesis
    using assms(2) by (auto simp: reduce_decision_requested_def Let_def intro!: add_kept split: if_splits sum.splits)
next
  case (Decision_resolved p)
  then show ?thesis
    using assms(2) pending_open [OF assms(1)]
    by (auto simp: reduce_resolved_def Let_def intro!: resolve_kept dest: pendingD split: option.splits if_splits)
qed (use assms(2) in \<open>auto simp: reduce_enqueued_def reduce_attempted_def reduce_outcome_def Let_def
      intro!: outbox_kept dest: pendingD split: option.splits if_splits sum.splits\<close>)

definition keeps_decisions :: "prims \<Rightarrow> derivation \<Rightarrow> derivation \<Rightarrow> bool" where
  "keeps_decisions E v w \<longleftrightarrow>
     (decisions_ok E (x_decisions (v_state v)) \<longrightarrow>
        decisions_ok E (x_decisions (v_state w)) \<and> decisions_kept (x_decisions (v_state v)) (x_decisions (v_state w)))"

interpretation keeping: monotone_step "derive_step E events" "keeps_decisions E" for E events
proof
  fix v e w
  assume step: "derive_step E events v e = Inr w"
  let ?p = "decode_payload (e_kind e) (e_payload e)"
  obtain u where u: "reduce E (v_state v) (meta_of e) (last_request events (e_sequence e)) ?p = Inr u"
    and w: "v_state w = counted (meta_of e) u"
    using derive_stepD(2) [OF step] by auto
  have "decisions_kept (x_decisions (v_state v)) (x_decisions u)" if ok: "decisions_ok E (x_decisions (v_state v))"
  proof (cases "\<exists>de. ?p = Decision de")
    case True
    then obtain de where "?p = Decision de" by blast
    then show ?thesis using u reduce_decision_kept [OF ok] by (auto split: sum.splits)
  next
    case False
    then show ?thesis using reduce_same_decisions [OF u] by simp
  qed
  then show "keeps_decisions E v w" using deciding.step_inv [OF _ step] by (simp add: keeps_decisions_def w)
qed (auto simp: keeps_decisions_def intro: decisions_kept_trans)

lemma derived_kept:
  assumes "derive_state E es = Inr s" and "derive_state E (es @ fs) = Inr s'" and "sequenced es"
  shows "decisions_kept (x_decisions s) (x_decisions s')"
proof -
  have "es \<noteq> []" using assms(1) by (auto simp: derive_state_def derive_def)
  then obtain v v' where v: "derive E es = Inr v" "fold_result (derive_step E (es @ fs)) v fs = Inr v'" "s' = v_state v'"
    using derive_prefix [OF assms(2,3)] by blast
  have "s = v_state v" using v(1) assms(1) by (simp add: derive_state_def)
  then show ?thesis using keeping.fold_rel [OF v(2)] v(3) derived_decisions [OF assms(1)] by (simp add: keeps_decisions_def)
qed

section \<open>A recorded resolution\<close>

definition settled_by :: "mission \<Rightarrow> resolution_payload \<Rightarrow> bool" where
  "settled_by s p \<longleftrightarrow>
     (\<exists>de r. dget (d_all (x_decisions s)) (rs_decision p) = Some de \<and> de_resolution de = Some r \<and> re_payload r = p)"

lemma resolved_now:
  assumes "reduce_resolved E s m p = Inr d"
  shows "\<exists>de r. dget (d_all d) (rs_decision p) = Some de \<and> de_resolution de = Some r \<and> re_payload r = p"
  using assms by (auto simp: reduce_resolved_def Let_def resolve_decision_def split: option.splits if_splits)

lemma recorded_resolution:
  assumes "derive_state E es = Inr s" and "sequenced es" and "e \<in> set es"
    and p: "decode_payload (e_kind e) (e_payload e) = Decision (Decision_resolved p)" and "e_kind e \<noteq> ''mission_created''"
  shows "settled_by s p"
proof -
  obtain as bs where es: "es = (as @ [e]) @ bs" using split_list [OF assms(3)] by auto
  have seq: "sequenced (as @ [e])" "sequenced as"
    using assms(2) sequenced_append unfolding es by metis+
  obtain s1 where s1: "derive_state E (as @ [e]) = Inr s1"
    using derive_state_prefix [OF _ seq(1)] assms(1) unfolding es by blast
  have "as \<noteq> []" using s1 assms(5) by (auto simp: derive_state_def derive_def)
  then obtain s0 where s0: "derive_state E as = Inr s0" using derive_state_prefix [OF s1 seq(2)] by blast
  obtain u where u: "reduce E s0 (meta_of e) (last_request (as @ [e]) (e_sequence e))
      (decode_payload (e_kind e) (e_payload e)) = Inr u" "s1 = counted (meta_of e) u"
    using derive_snoc [OF s1 s0 seq(2)] by blast
  have "settled_by s1 p"
    using u p resolved_now by (fastforce simp: settled_by_def split: sum.splits)
  then obtain de r where de: "dget (d_all (x_decisions s1)) (rs_decision p) = Some de" "de_resolution de = Some r" "re_payload r = p"
    by (auto simp: settled_by_def)
  have "decisions_kept (x_decisions s1) (x_decisions s)"
    using derived_kept [OF s1 _ seq(1)] assms(1) unfolding es by blast
  then show ?thesis using de by (auto simp: settled_by_def decision_kept_def elim!: decisions_keptD)
qed

end
