(* ===== verification/Decision_Reconcile.thy ===== *)
theory Decision_Reconcile
  imports Decision_Client Decision_Final Release
begin

text \<open>
  What the decision client achieves on a ledger that other processes write as well: the requests
  it builds, the events that answer them, and the decisions these events settle.
\<close>

section \<open>Equal payloads\<close>

lemma field_norm:
  assumes "distinct (map fst kvs)"
  shows "field (norm_json (JObj kvs)) k = norm_json (field (JObj kvs) k)"
proof -
  let ?m = "map (\<lambda>(k, v). (k, norm_json v)) kvs"
  have "distinct (map fst ?m)" using assms by (simp add: comp_def case_prod_beta)
  then have "map_of (sort_key fst ?m) = map_of ?m"
    by (rule same_members_map_of [OF same_members_sort, symmetric])
  moreover have "map_of ?m k = map_option norm_json (map_of kvs k)" by (simp add: map_of_map)
  ultimately show ?thesis by (simp add: field_def split: option.splits)
qed

lemma norm_str: "norm_json v = JStr x \<longleftrightarrow> v = JStr x"
  by (cases v) simp_all

lemma norm_obj: "norm_json v = norm_json (JObj kvs) \<Longrightarrow> is_obj v"
  by (cases v) simp_all

lemma equal_text_member:
  assumes "py_eq v (JObj kvs)" and "wf_json v" and "distinct (map fst kvs)" and "field (JObj kvs) k = JStr x"
  shows "field v k = JStr x"
proof -
  have n: "norm_json v = norm_json (JObj kvs)" using assms(1) by (simp only: py_eq_def)
  then obtain ls where v: "v = JObj ls" using norm_obj by (cases v) auto
  have "norm_json (field v k) = norm_json (field (JObj kvs) k)"
    using field_norm [of ls k] field_norm [OF assms(3), of k] n assms(2) v by (metis wf_json.simps(3))
  then show ?thesis using assms(4) by (simp add: norm_str)
qed

section \<open>The resolution a client writes\<close>

definition resolution_items :: "decision \<Rightarrow> string \<Rightarrow> string \<Rightarrow> string \<Rightarrow> (string \<times> json) list" where
  "resolution_items de chosen reason kind =
     [(''decision_id'', JStr (dr_id (de_request de))), (''request_event_sha256'', JStr (de_request_event de)),
      (''option_id'', JStr chosen), (''reason'', JStr reason), (''resolution_kind'', JStr kind)]"

lemma resolution_items: "resolution_json de chosen reason kind = JObj (resolution_items de chosen reason kind)"
  by (simp add: resolution_json_def resolution_items_def)

lemma distinct_resolution: "distinct (map fst (resolution_items de chosen reason kind))"
  by (simp add: resolution_items_def)

definition resolution_by :: "decision \<Rightarrow> string \<Rightarrow> string \<Rightarrow> resolution_kind \<Rightarrow> resolution_payload" where
  "resolution_by de chosen reason kind =
     \<lparr>rs_decision = dr_id (de_request de), rs_request_event = de_request_event de, rs_option = chosen,
      rs_reason = reason, rs_kind = kind\<rparr>"

fun resolution_name :: "resolution_kind \<Rightarrow> string" where
  "resolution_name By_human = ''human''"
| "resolution_name Automatic = ''automatic''"

lemma decode_resolved: "decode_payload ''human_decision_resolved'' p = Decision (Decision_resolved (resolution_of p))"
  by (simp add: decode_payload_def decode_lifecycle_def decode_admission_def decode_run_def decode_decision_def)

lemma answered_resolution:
  assumes "py_eq v (canonical_copy (resolution_json de chosen reason (resolution_name kind)))" and "wf_json v"
  shows "resolution_of v = resolution_by de chosen reason kind"
proof -
  let ?kvs = "resolution_items de chosen reason (resolution_name kind)"
  obtain ls where ls: "canonical_copy (resolution_json de chosen reason (resolution_name kind)) = JObj ls"
    by (simp add: resolution_items)
  have d: "distinct (map fst ls)"
    using ls distinct_resolution [of de chosen reason "resolution_name kind"]
    by (auto simp: resolution_items comp_def case_prod_beta intro: same_members_sort [unfolded same_members_def, THEN conjunct2, THEN conjunct1])
  have "field (JObj ls) k = canonical_copy (field (JObj ?kvs) k)" for k
    using field_copy [OF distinct_resolution [of de chosen reason "resolution_name kind"]] ls by (simp only: resolution_items)
  then have "field v k = JStr x" if "field (JObj ?kvs) k = JStr x" for k x
    using equal_text_member [OF assms(1) [unfolded ls] assms(2) d] that by simp
  then have "sget v ''decision_id'' = dr_id (de_request de)" "sget v ''request_event_sha256'' = de_request_event de"
    "sget v ''option_id'' = chosen" "sget v ''reason'' = reason" "sget v ''resolution_kind'' = resolution_name kind"
    unfolding sget_def by (simp_all add: resolution_items_def field_def)
  then show ?thesis by (cases kind) (simp_all add: resolution_of_def resolution_by_def)
qed

lemma resolution_wf:
  assumes "valid_decision_resolved (resolution_json de chosen reason kind) = Inr ()" and "utf8_ok reason"
  shows "wf_json (resolution_json de chosen reason kind)"
proof -
  have f: "field (resolution_json de chosen reason kind) ''decision_id'' = JStr (dr_id (de_request de))"
    "field (resolution_json de chosen reason kind) ''request_event_sha256'' = JStr (de_request_event de)"
    "field (resolution_json de chosen reason kind) ''option_id'' = JStr chosen"
    "field (resolution_json de chosen reason kind) ''resolution_kind'' = JStr kind"
    by (simp_all add: resolution_json_def field_def)
  have "is_uuid (dr_id (de_request de))" "is_sha256 (de_request_event de)" "safe_decision_option chosen"
    "kind = ''human'' \<or> kind = ''automatic''"
    using assms(1) by (auto simp: valid_decision_resolved_def f v_uuid_def v_sha_def v_option_id_def v_in_def)
  moreover have "ascii chosen" if "safe_decision_option chosen"
    using that unfolding safe_decision_option_def by (rule ascii_head_tail) (auto simp: ascii_classes)
  moreover have "ascii kind" if "kind = ''human'' \<or> kind = ''automatic''" using that by (auto simp: ascii_def)
  ultimately have members: "utf8_ok (dr_id (de_request de))" "utf8_ok (de_request_event de)" "utf8_ok chosen" "utf8_ok kind"
    by (auto intro!: ascii_utf8 simp: ascii_uuid ascii_hex is_sha256_def)
  have "utf8_ok ''decision_id''" "utf8_ok ''request_event_sha256''" "utf8_ok ''option_id''" "utf8_ok ''reason''"
    "utf8_ok ''resolution_kind''" by (rule ascii_utf8; simp add: ascii_def)+
  with members assms(2) show ?thesis by (simp add: resolution_json_def)
qed

section \<open>Ledgers that grow\<close>

text \<open>What other processes may do to a ledger between two reads: append events.\<close>

definition grown :: "prims \<Rightarrow> string \<Rightarrow> string option \<Rightarrow> string option \<Rightarrow> bool" where
  "grown E mission f g \<longleftrightarrow>
     (\<exists>es more. read_events E mission f = Inr es \<and> read_events E mission g = Inr (es @ more))"

lemma grown_trans: "grown E m f g \<Longrightarrow> grown E m g h \<Longrightarrow> grown E m f h"
  by (auto simp: grown_def)

text \<open>Every append of the library does no more than that.\<close>

lemma append_grows:
  assumes "open_txn E mission f = Inr t" and "append_events E w t js = Inr (rs, t')" and "tx_events t \<noteq> []"
    and "\<forall>j \<in> set js. wf_json j" and "reader_ok E" and "clock_text E"
  shows "grown E (tx_mission t) f (ledger_file t')"
proof -
  note t = open_txn_ok [OF assms(1,5)]
  obtain new where t': "txn_ok E t'" "tx_mission t' = tx_mission t" "tx_events t' = tx_events t @ new"
    using append_events_ok [OF assms(2) t(1) assms(4,6)] by metis
  have "read_events E (tx_mission u) (ledger_file u) = Inr (tx_events u)" if "txn_ok E u" "tx_events u \<noteq> []" for u
    using that read_written [of E "tx_mission u" "tx_events u" True] by (simp add: txn_ok_def ledger_file_def read_events_def)
  from this [OF t(1) assms(3)] this [OF t'(1)] show ?thesis using t t' assms(3) by (simp add: grown_def)
qed

lemma read_chained:
  assumes "read_events E mission f = Inr es" and "reader_ok E"
  shows "chained E mission None es" and "sequenced es"
proof -
  obtain content where "events_from_bytes E (Some mission) True content = Inr es"
    using assms(1) by (auto simp: read_events_def split: option.splits)
  then show "chained E mission None es" using assms(2) by (rule written_read(2))
  then show "sequenced es" by (rule chained_sequenced)
qed

lemma load_mission_ok:
  assumes "load_mission E mission f = Inr (mid, s)"
  obtains es where "normalize_uuid mission = Inr mid" and "is_uuid mid" and "read_events E mid f = Inr es"
    and "derive_state E es = Inr s"
proof -
  have mid: "normalize_uuid mission = Inr mid" "load_state E mid f = Inr s"
    using assms by (auto simp: load_mission_def or_decision_error_def split: sum.splits)
  have "normalize_uuid mid = Inr mid" using normalize_canonical normalized_uuid [OF mid(1)] by blast
  then show thesis
    using that mid normalized_uuid [OF mid(1)] by (auto simp: load_state_def split: sum.splits)
qed

lemma grown_kept:
  assumes "grown E mid f g" and "read_events E mid f = Inr es" and "derive_state E es = Inr s"
    and "read_events E mid g = Inr fs" and "derive_state E fs = Inr s'" and "reader_ok E"
  shows "decisions_kept (x_decisions s) (x_decisions s')"
proof -
  obtain more where "fs = es @ more" using assms(1,2,4) by (auto simp: grown_def)
  then show ?thesis using derived_kept [OF assms(3) _ read_chained(2) [OF assms(2,6)]] assms(5) by blast
qed

section \<open>The requests of a reconciliation\<close>

lemma pending_items_iff:
  "(k, de) \<in> set (pending_items s) \<longleftrightarrow> k \<in> set (d_pending (x_decisions s)) \<and> dget (d_all (x_decisions s)) k = Some de"
  by (force simp: pending_items_def map_filter_def)

lemma resolution_payload_ok:
  "resolution_payload de chosen reason kind = Inr p \<longleftrightarrow>
     p = resolution_json de chosen reason kind \<and> valid_decision_resolved (resolution_json de chosen reason kind) = Inr ()"
  by (auto simp: resolution_payload_def or_decision_error_def split: sum.splits)

definition auto_request :: "string \<Rightarrow> decision \<Rightarrow> string \<Rightarrow> json" where
  "auto_request k de chosen =
     request_json ''human_decision_resolved'' ''CONTROL'' (auto_key k) (resolution_json de chosen auto_reason ''automatic'')"

lemma default_requests_in:
  assumes "default_requests E now items = Inr due" and "(k, de) \<in> set items" and "expired_default E now de = Inr (Some chosen)"
  shows "(dr_id (de_request de), auto_request k de chosen) \<in> set due"
    and "valid_decision_resolved (resolution_json de chosen auto_reason ''automatic'') = Inr ()"
  using assms
  by (induction E now items arbitrary: due rule: default_requests.induct)
    (auto simp: resolution_payload_ok auto_request_def split: sum.splits option.splits)

lemma default_requests_out:
  assumes "default_requests E now items = Inr due" and "(i, j) \<in> set due"
  obtains k de chosen where "(k, de) \<in> set items" and "expired_default E now de = Inr (Some chosen)"
    and "i = dr_id (de_request de)" and "j = auto_request k de chosen"
proof -
  have "\<exists>k de chosen. (k, de) \<in> set items \<and> expired_default E now de = Inr (Some chosen)
      \<and> i = dr_id (de_request de) \<and> j = auto_request k de chosen"
    using assms
  proof (induction E now items arbitrary: due rule: default_requests.induct)
    case (2 E now k de items)
    show ?case
    proof (cases "expired_default E now de")
      case (Inr x)
      show ?thesis
      proof (cases x)
        case None
        then show ?thesis using 2(1) [OF Inr None] 2(3,4) Inr by fastforce
      next
        case (Some chosen)
        then obtain due' where due': "default_requests E now items = Inr due'"
          "due = (dr_id (de_request de), auto_request k de chosen) # due'"
          using 2(3) Inr by (auto simp: resolution_payload_ok auto_request_def split: sum.splits)
        show ?thesis
        proof (cases "(i, j) \<in> set due'")
          case True
          have "resolution_payload de chosen auto_reason ''automatic'' = Inr (resolution_json de chosen auto_reason ''automatic'')"
            using 2(3) Inr Some by (auto simp: resolution_payload_ok split: sum.splits)
          then show ?thesis using 2(2) [OF Inr Some _ due'(1) True] by fastforce
        next
          case False
          then show ?thesis using 2(4) due'(2) Inr Some by fastforce
        qed
      qed
    qed (use 2(3) in simp)
  qed simp
  then show thesis using that by blast
qed

lemma utf8_reason: "utf8_ok auto_reason"
  by (rule ascii_utf8) (simp add: ascii_def auto_reason_def)

lemma request_wf: "utf8_ok kind \<Longrightarrow> utf8_ok actor \<Longrightarrow> utf8_ok key \<Longrightarrow> wf_json p \<Longrightarrow> wf_json (request_json kind actor key p)"
proof -
  have "utf8_ok ''kind''" "utf8_ok ''actor''" "utf8_ok ''idempotency_key''" "utf8_ok ''payload''"
    by (rule ascii_utf8; simp add: ascii_def)+
  then show "utf8_ok kind \<Longrightarrow> utf8_ok actor \<Longrightarrow> utf8_ok key \<Longrightarrow> wf_json p \<Longrightarrow> wf_json (request_json kind actor key p)"
    by (simp add: request_json_def)
qed

section \<open>The events that answer a batch\<close>

definition plain_of :: "request \<Rightarrow> json" where
  "plain_of q = request_json (q_kind q) (q_actor q) (q_key q) (q_payload q)"

lemma request_json_fields [simp]:
  "sget (request_json kind actor key p) ''kind'' = kind" "sget (request_json kind actor key p) ''actor'' = actor"
  "sget (request_json kind actor key p) ''idempotency_key'' = key" "field (request_json kind actor key p) ''payload'' = p"
  by (simp_all add: request_json_def sget_def field_def)

lemma request_json_shape:
  "is_obj (request_json kind actor key p)"
  "has_exactly (request_json kind actor key p) [''kind'', ''actor'', ''idempotency_key'', ''payload'']"
  by (simp_all add: request_json_def has_exactly_def has_field_def)

lemma request_json_names:
  "valid_request_names (request_json kind actor key p) \<longleftrightarrow> safe_kind kind \<and> safe_actor actor \<and> safe_key key"
  by (simp add: valid_request_names_def request_json_def sget_def field_def)

lemma normalize_request_json:
  "normalize_event_request E (request_json kind actor key p) = Inr q \<longleftrightarrow>
     safe_kind kind \<and> safe_actor actor \<and> safe_key key \<and> validate_payload E kind (canonical_copy p) = Inr ()
     \<and> q = \<lparr>q_kind = kind, q_actor = actor, q_key = key, q_payload = canonical_copy p\<rparr>"
  by (auto simp: normalize_event_request_def request_json_names request_json_shape all_checks.simps check_def require_def
      split: sum.splits if_splits)

lemma normalize_again:
  "normalize_event_request E j = Inr q \<Longrightarrow> normalize_event_request E (plain_of q) = Inr q"
  unfolding plain_of_def normalize_request_json
  by (auto simp: normalize_event_request_def valid_request_names_def split: sum.splits)

lemma normalize_all_again: "normalize_requests E js = Inr qs \<Longrightarrow> normalize_requests E (map plain_of qs) = Inr qs"
  by (induction js arbitrary: qs) (auto simp: normalize_again split: sum.splits)

lemma normalized_member:
  "normalize_requests E js = Inr qs \<Longrightarrow> j \<in> set js \<Longrightarrow> \<exists>q \<in> set qs. normalize_event_request E j = Inr q"
  by (induction js arbitrary: qs) (auto split: sum.splits)

lemma ledger_append_all_ok:
  assumes "ledger_append_all E w mid f js = Inr (rs, t')" and "\<forall>j \<in> set js. wf_json j" and "is_uuid mid"
    and "reader_ok E" and "clock_text E"
  obtains t qs where "open_txn E mid f = Inr t" and "txn_ok E t" and "txn_ok E t'" and "tx_mission t' = mid"
    and "normalize_requests E js = Inr qs" and "append_normalized E w t qs = Inr (rs, t')"
    and "list_all2 answers qs rs" and "\<forall>r \<in> set rs. fst r \<in> set (tx_events t')"
proof -
  obtain t qs where t: "open_txn E mid f = Inr t" and qs: "normalize_requests E js = Inr qs"
    and a: "append_events E w t (map plain_of qs) = Inr (rs, t')"
    using assms(1) by (auto simp: ledger_append_all_def in_transaction_def plain_of_def [abs_def] split: sum.splits)
  note ok = open_txn_ok [OF t assms(4)]
  have mission: "tx_mission t = mid" using ok(3) normalize_canonical [OF assms(3)] by simp
  have n: "append_normalized E w t qs = Inr (rs, t')"
    using a normalize_all_again [OF qs] by (simp add: append_events_def split: if_splits)
  have "\<forall>q \<in> set qs. writable q" using normalized_writable [OF qs assms(2)] .
  from append_normalized_ok [OF n ok(1) this assms(5)] show thesis
    using that [OF t ok(1) _ _ qs n] mission by blast
qed

lemma answered_settles:
  assumes "txn_ok E t" and "e \<in> set (tx_events t)" and "tx_state t = Some s"
    and "answers \<lparr>q_kind = ''human_decision_resolved'', q_actor = actor, q_key = key,
      q_payload = canonical_copy (resolution_json de chosen reason (resolution_name kind))\<rparr> (e, b)"
  shows "settled_by s (resolution_by de chosen reason kind)"
proof -
  have events: "derive_state E (tx_events t) = Inr s" "chained E (tx_mission t) None (tx_events t)"
    using assms(1-3) by (auto simp: txn_ok_def split: if_splits)
  have "closed_event e" using chained_wf [OF events(2) assms(2)] .
  then have "wf_json (event_json e)" by (simp add: closed_event_def)
  then have "wf_json (e_payload e)" by (simp add: event_json_def unsigned_items_def)
  then have "resolution_of (e_payload e) = resolution_by de chosen reason kind"
    using assms(4) by (intro answered_resolution) (simp_all add: answers_def same_request_def)
  moreover have "e_kind e = ''human_decision_resolved''" using assms(4) by (simp add: answers_def same_request_def)
  ultimately show ?thesis
    using recorded_resolution [OF events(1) chained_sequenced [OF events(2)] assms(2)] decode_resolved by simp
qed

section \<open>One turn\<close>

lemma auto_normalized:
  "normalize_event_request E (auto_request k de chosen) = Inr q \<Longrightarrow>
     q = \<lparr>q_kind = ''human_decision_resolved'', q_actor = ''CONTROL'', q_key = auto_key k,
          q_payload = canonical_copy (resolution_json de chosen auto_reason ''automatic'')\<rparr> \<and> safe_key (auto_key k)"
  by (simp add: auto_request_def normalize_request_json)

lemma auto_request_wf:
  assumes "valid_decision_resolved (resolution_json de chosen auto_reason ''automatic'') = Inr ()" and "utf8_ok (auto_key k)"
  shows "wf_json (auto_request k de chosen)"
proof -
  have "utf8_ok ''human_decision_resolved''" "utf8_ok ''CONTROL''" by (rule ascii_utf8; simp add: ascii_def)+
  then show ?thesis
    unfolding auto_request_def by (intro request_wf resolution_wf assms utf8_reason)
qed

text \<open>The identity of a stored decision is a checked UUID.\<close>

lemma valid_resolution_id:
  "valid_decision_resolved (resolution_json de chosen reason kind) = Inr () \<Longrightarrow> is_uuid (dr_id (de_request de))"
  by (simp add: valid_decision_resolved_def resolution_json_def field_def v_uuid_def)

lemma due_wf:
  assumes "default_requests E now (pending_items s) = Inr due" and "decisions_ok E (x_decisions s)" and "j \<in> set (map snd due)"
  shows "wf_json j"
proof -
  obtain i where "(i, j) \<in> set due" using assms(3) by auto
  then obtain k de chosen where k: "(k, de) \<in> set (pending_items s)" "expired_default E now de = Inr (Some chosen)"
    "j = auto_request k de chosen" by (rule default_requests_out [OF assms(1)])
  note valid = default_requests_in(2) [OF assms(1) k(1,2)]
  have "dr_id (de_request de) = k"
    using k(1) decisions_okD [OF assms(2)] by (auto simp: pending_items_iff decision_ok_def)
  then have "ascii k" using valid_resolution_id [OF valid] ascii_uuid by blast
  then have "utf8_ok (auto_key k)" by (intro ascii_utf8) (simp add: auto_key_def ascii_def)
  then show ?thesis using auto_request_wf [OF valid] k(3) by simp
qed

lemma turn_settles:
  assumes turn: "ledger_append_all E w mid f (map snd due) = Inr (rs, t)" and "is_uuid mid"
    and due: "default_requests E now (pending_items s) = Inr due" and ok: "decisions_ok E (x_decisions s)"
    and k: "(k, de) \<in> set (pending_items s)" "expired_default E now de = Inr (Some chosen)"
    and "reader_ok E" and "clock_text E"
  obtains s' where "tx_state t = Some s'" and "settled_by s' (resolution_by de chosen auto_reason Automatic)"
proof -
  have wf: "\<forall>j \<in> set (map snd due). wf_json j" using due_wf [OF due ok] by blast
  obtain qs where t: "txn_ok E t" and qs: "normalize_requests E (map snd due) = Inr qs" "list_all2 answers qs rs"
    and stored: "\<forall>r \<in> set rs. fst r \<in> set (tx_events t)"
    by (rule ledger_append_all_ok [OF turn wf assms(2,7,8)])
  have "auto_request k de chosen \<in> set (map snd due)" using default_requests_in(1) [OF due k] by force
  then obtain q where q: "q \<in> set qs" "normalize_event_request E (auto_request k de chosen) = Inr q"
    using normalized_member [OF qs(1)] by blast
  obtain r where r: "r \<in> set rs" "answers q r"
    using qs(2) q(1) by (metis list_all2_conv_all_nth in_set_conv_nth)
  obtain e b where eb: "r = (e, b)" by (cases r)
  have e: "e \<in> set (tx_events t)" using stored r(1) eb by force
  then obtain s' where s': "tx_state t = Some s'" using t by (auto simp: txn_ok_def split: if_splits)
  have "answers \<lparr>q_kind = ''human_decision_resolved'', q_actor = ''CONTROL'', q_key = auto_key k,
      q_payload = canonical_copy (resolution_json de chosen auto_reason (resolution_name Automatic))\<rparr> (e, b)"
    using auto_normalized [OF q(2)] r(2) eb by simp
  then show thesis using that s' answered_settles [OF t e s'] by blast
qed

text \<open>A turn on a ledger that has grown keeps what was decided before.\<close>

lemma turn_kept:
  assumes turn: "ledger_append_all E w mid g js = Inr (rs, t)" and "\<forall>j \<in> set js. wf_json j" and "is_uuid mid"
    and "grown E mid f g" and "read_events E mid f = Inr es" and "derive_state E es = Inr s" and "reader_ok E" and "clock_text E"
  obtains s' where "tx_state t = Some s'" and "decisions_kept (x_decisions s) (x_decisions s')"
    and "decisions_ok E (x_decisions s')"
proof -
  obtain t0 qs where t0: "open_txn E mid g = Inr t0" "txn_ok E t0" and t: "txn_ok E t" "tx_mission t = mid"
    and a: "append_normalized E w t0 qs = Inr (rs, t)"
    by (rule ledger_append_all_ok [OF turn assms(2,3,7,8)])
  obtain more where g: "read_events E mid g = Inr (es @ more)" using assms(4,5) by (auto simp: grown_def)
  have mid: "normalize_uuid mid = Inr mid" using normalize_canonical [OF assms(3)] .
  have "tx_events t0 = es @ more"
    using t0(1) g mid by (auto simp: open_txn_def read_events_def split: option.splits sum.splits)
  then obtain new where new: "tx_events t = es @ (more @ new)"
    using a by (auto simp: append_normalized_def split: sum.splits if_splits)
  have "es \<noteq> []" using assms(6) by (auto simp: derive_state_def derive_def)
  then obtain s' where s': "tx_state t = Some s'" "derive_state E (es @ (more @ new)) = Inr s'"
    using t(1) new by (auto simp: txn_ok_def)
  show thesis
    using that [OF s'(1)] derived_kept [OF assms(6) s'(2) read_chained(2) [OF assms(5,7)]] derived_decisions [OF s'(2)] by blast
qed

section \<open>Both turns\<close>

lemma settled_kept: "settled_by s p \<Longrightarrow> decisions_kept (x_decisions s) (x_decisions s') \<Longrightarrow> settled_by s' p"
  by (auto simp: settled_by_def decision_kept_def elim!: decisions_keptD)

text \<open>What a turn that was not refused leaves: the state it ended in, and whether it wrote.\<close>

definition left_in :: "mission \<Rightarrow> txn option \<Rightarrow> mission \<Rightarrow> bool" where
  "left_in s left s' \<longleftrightarrow> (case left of None \<Rightarrow> s' = s | Some t \<Rightarrow> tx_state t = Some s')"

text \<open>The decisions that are due at the instant \<open>now\<close>.\<close>

definition due_decisions :: "prims \<Rightarrow> int \<Rightarrow> mission \<Rightarrow> string set" where
  "due_decisions E now s =
     {k. \<exists>de chosen. (k, de) \<in> set (pending_items s) \<and> expired_default E now de = Inr (Some chosen)}"

lemma due_ids:
  assumes due: "default_requests E now (pending_items s) = Inr due" and ok: "decisions_ok E (x_decisions s)"
  shows "fst ` set due = due_decisions E now s"
proof -
  have same: "dr_id (de_request de) = k" if "(k, de) \<in> set (pending_items s)" for k de
    using that decisions_okD [OF ok] by (auto simp: pending_items_iff decision_ok_def)
  show ?thesis
  proof (intro set_eqI iffI)
    fix k assume "k \<in> fst ` set due"
    then obtain j where "(k, j) \<in> set due" by force
    then show "k \<in> due_decisions E now s"
      unfolding due_decisions_def by (rule default_requests_out [OF due]) (use same in auto)
  next
    fix k assume "k \<in> due_decisions E now s"
    then show "k \<in> fst ` set due"
      using default_requests_in(1) [OF due] same unfolding due_decisions_def by force
  qed
qed

lemma last_turn:
  assumes loop: "reconcile_loop E now mid s [u] = Inr (answer, left)" and mid: "is_uuid mid"
    and read: "read_events E mid f = Inr es" "derive_state E es = Inr s" and grown: "grown E mid f (tu_append u)"
    and env: "reader_ok E" "clock_text E"
  obtains s' where "left_in s left s'" and "decisions_kept (x_decisions s) (x_decisions s')"
    and "decisions_ok E (x_decisions s')"
    and "\<forall>k de chosen. (k, de) \<in> set (pending_items s) \<longrightarrow> expired_default E now de = Inr (Some chosen) \<longrightarrow>
      settled_by s' (resolution_by de chosen auto_reason Automatic)"
    and "set (ka_resolved answer) = due_decisions E now s"
proof -
  have ok: "decisions_ok E (x_decisions s)" using derived_decisions [OF read(2)] .
  obtain due where due: "default_requests E now (pending_items s) = Inr due"
    using loop by (auto simp: or_decision_error_def split: sum.splits)
  note ids = due_ids [OF due ok]
  show thesis
  proof (cases "due = []")
    case True
    then have "left = None" "ka_resolved answer = []" using loop due by (auto simp: or_decision_error_def)
    then show thesis
      using that [of s] default_requests_in(1) [OF due] ids ok True by (auto simp: left_in_def)
  next
    case False
    then obtain rs t where t: "ledger_append_all E (tu_world u) mid (tu_append u) (map snd due) = Inr (rs, t)" "left = Some t"
      and resolved: "ka_resolved answer = map fst due"
      using loop due by (auto simp: or_decision_error_def split: sum.splits)
    have wf: "\<forall>j \<in> set (map snd due). wf_json j" using due_wf [OF due ok] by blast
    obtain s' where s': "tx_state t = Some s'" "decisions_kept (x_decisions s) (x_decisions s')" "decisions_ok E (x_decisions s')"
      using turn_kept [OF t(1) wf mid grown read env] by blast
    have "settled_by s' (resolution_by de chosen auto_reason Automatic)"
      if "(k, de) \<in> set (pending_items s)" "expired_default E now de = Inr (Some chosen)" for k de chosen
      using turn_settles [OF t(1) mid due ok that env] s'(1) by (metis option.inject)
    then show thesis using that [of s'] s' t(2) resolved ids by (simp add: left_in_def)
  qed
qed

lemma loop_turns:
  assumes "reconcile_loop E now mid s [u0, u1] = Inr (answer, left)"
  obtains (first) "reconcile_loop E now mid s [u0] = Inr (answer, left)"
  | (second) m s1 where "load_mission E mid (tu_reload u0) = Inr (m, s1)"
      and "reconcile_loop E now mid s1 [u1] = Inr (answer, left)"
  using assms by (auto split: sum.splits if_splits prod.splits simp del: or_decision_error_def)

lemma expired_kept:
  assumes "decision_kept de de'"
  shows "expired_default E now de' = expired_default E now de" and "resolution_by de' = resolution_by de"
proof -
  have same: "de_request de' = de_request de" "de_request_event de' = de_request_event de" "de_deadline de' = de_deadline de"
    using assms by (auto simp: decision_kept_def)
  show "expired_default E now de' = expired_default E now de" by (simp only: expired_default_def same)
  show "resolution_by de' = resolution_by de" by (intro ext) (simp only: resolution_by_def same)
qed

lemma open_or_resolved:
  "decisions_ok E d \<Longrightarrow> dget (d_all d) k = Some de \<Longrightarrow> k \<in> set (d_pending d) \<longleftrightarrow> de_resolution de = None"
  by (auto dest: decisions_okD simp: decision_ok_def)

text \<open>
  A decision that a state no longer holds open: it is resolved there, with the request it had, and
  by \<open>p\<close> where the condition \<open>P\<close> says so.
\<close>

lemma closed_decision:
  assumes kept: "decisions_kept (x_decisions s) (x_decisions s')" and ok: "decisions_ok E (x_decisions s')"
    and de: "dget (d_all (x_decisions s)) (rs_decision p) = Some de"
    and closed: "rs_decision p \<notin> set (d_pending (x_decisions s'))" and P: "P \<Longrightarrow> settled_by s' p"
  shows "\<exists>de' r. dget (d_all (x_decisions s')) (rs_decision p) = Some de' \<and> de_request de' = de_request de
    \<and> de_resolution de' = Some r \<and> (P \<longrightarrow> re_payload r = p)"
proof -
  obtain de' where de': "dget (d_all (x_decisions s')) (rs_decision p) = Some de'" "decision_kept de de'"
    using kept de by (rule decisions_keptD)
  then obtain r where r: "de_resolution de' = Some r" using open_or_resolved [OF ok de'(1)] closed by auto
  then have "P \<longrightarrow> re_payload r = p" using P de'(1) by (auto simp: settled_by_def)
  then show ?thesis using de' r by (auto simp: decision_kept_def)
qed

lemma settled_closed:
  "settled_by s p \<Longrightarrow> decisions_ok E (x_decisions s) \<Longrightarrow> rs_decision p \<notin> set (d_pending (x_decisions s))"
  using open_or_resolved by (fastforce simp: settled_by_def)

text \<open>The turn after a conflict works on the ledger as others left it.\<close>

lemma second_turn:
  assumes loop: "reconcile_loop E now mid s1 [u1] = Inr (answer, left)" and mid: "is_uuid mid"
    and read1: "read_events E mid g = Inr es1" "derive_state E es1 = Inr s1" and grown: "grown E mid g (tu_append u1)"
    and env: "reader_ok E" "clock_text E" and kept1: "decisions_kept (x_decisions s) (x_decisions s1)"
    and de: "dget (d_all (x_decisions s)) k = Some de" "expired_default E now de = Inr (Some chosen)"
  obtains s' where "left_in s1 left s'" and "decisions_kept (x_decisions s) (x_decisions s')"
    and "decisions_ok E (x_decisions s')" and "k \<notin> set (d_pending (x_decisions s'))"
    and "k \<in> set (ka_resolved answer) \<longrightarrow> settled_by s' (resolution_by de chosen auto_reason Automatic)"
proof -
  obtain de1 where de1: "dget (d_all (x_decisions s1)) k = Some de1" "decision_kept de de1"
    using kept1 de(1) by (rule decisions_keptD)
  have ok1: "decisions_ok E (x_decisions s1)" using derived_decisions [OF read1(2)] .
  have id: "rs_decision (resolution_by de chosen auto_reason Automatic) = k"
    using decisions_okD [OF ok1 de1(1)] de1(2) by (simp add: decision_ok_def decision_kept_def resolution_by_def)
  note same = expired_kept [OF de1(2)]
  obtain s' where s': "left_in s1 left s'" "decisions_kept (x_decisions s1) (x_decisions s')" "decisions_ok E (x_decisions s')"
    and settled: "\<forall>k de chosen. (k, de) \<in> set (pending_items s1) \<longrightarrow> expired_default E now de = Inr (Some chosen) \<longrightarrow>
      settled_by s' (resolution_by de chosen auto_reason Automatic)"
    and ids: "set (ka_resolved answer) = due_decisions E now s1"
    by (rule last_turn [OF loop mid read1 grown env])
  have due: "settled_by s' (resolution_by de chosen auto_reason Automatic)" if "k \<in> set (d_pending (x_decisions s1))"
    using settled that de1(1) same de(2) by (metis pending_items_iff)
  have "k \<notin> set (d_pending (x_decisions s'))"
  proof (cases "k \<in> set (d_pending (x_decisions s1))")
    case True
    then show ?thesis using settled_closed [OF due s'(3)] id by simp
  next
    case False
    then obtain r where "de_resolution de1 = Some r" using open_or_resolved [OF ok1 de1(1)] by auto
    moreover obtain de' where "dget (d_all (x_decisions s')) k = Some de'" "decision_kept de1 de'"
      using s'(2) de1(1) by (rule decisions_keptD)
    ultimately show ?thesis using open_or_resolved [OF s'(3)] by (auto simp: decision_kept_def)
  qed
  moreover have "k \<in> set (ka_resolved answer) \<longrightarrow> settled_by s' (resolution_by de chosen auto_reason Automatic)"
    using ids due by (auto simp: pending_items_iff due_decisions_def)
  ultimately show thesis using that s' decisions_kept_trans [OF kept1 s'(2)] by blast
qed

end
