(* ===== verification/Decision_Typed.thy ===== *)
theory Decision_Typed
  imports Decision_Final Append_Live
begin

text \<open>
  Stored decisions keep the types their request was checked for: the identity is a UUID, the
  request event a digest, and a default is one of the options of a reversible low-risk decision.
\<close>

section \<open>Validated requests\<close>

definition request_typed :: "decision_request \<Rightarrow> bool" where
  "request_typed q \<longleftrightarrow>
     is_uuid (dr_id q)
     \<and> (\<forall>chosen. dr_default q = Some chosen \<longrightarrow>
          safe_decision_option chosen \<and> chosen \<in> set (dr_options q) \<and> automatic_allowed q chosen)"

definition decision_typed :: "decision \<Rightarrow> bool" where
  "decision_typed de \<longleftrightarrow> request_typed (de_request de) \<and> is_sha256 (de_request_event de)"

definition all_decisions_typed :: "decision_state \<Rightarrow> bool" where
  "all_decisions_typed d \<longleftrightarrow> (\<forall>k de. dget (d_all d) k = Some de \<longrightarrow> decision_typed de)"

lemma registry_decision: "map_of (registry E) ''human_decision_requested'' = Some valid_decision_requested"
  by (simp add: registry_def lifecycle_registry_def run_registry_def)

lemma registry_resolved: "map_of (registry E) ''human_decision_resolved'' = Some valid_decision_resolved"
  by (simp add: registry_def lifecycle_registry_def run_registry_def)

lemma decode_decisionD:
  "decode_payload kind p = Decision e \<Longrightarrow> decode_decision kind p = Some e"
  by (auto simp: decode_payload_def split: option.splits)

lemma decode_requestedD:
  "decode_payload kind p = Decision (Decision_requested q) \<Longrightarrow> kind = ''human_decision_requested'' \<and> q = decision_of p"
  by (drule decode_decisionD) (auto simp: decode_decision_def split: if_splits)

lemma valid_options:
  assumes "each valid_option (field p ''options'') = Inr u" and "k \<in> set (option_ids p)"
  shows "safe_decision_option k"
  using assms by (auto simp: valid_option_def option_ids_def v_option_id_def sget_def)

lemma valid_request_typed:
  assumes "valid_decision_requested p = Inr u"
  shows "request_typed (decision_of p)"
proof -
  have uuid: "v_uuid (field p ''decision_id'')" and options: "each valid_option (field p ''options'') = Inr ()"
    and default: "field p ''default_option_id'' \<noteq> JNull \<Longrightarrow>
      v_in (option_ids p) (field p ''default_option_id'') \<and> sget p ''risk'' = ''low'' \<and> bget p ''reversible''"
    using assms by (auto simp: valid_decision_requested_def optional_checks_ok)
  have "safe_decision_option chosen \<and> chosen \<in> set (option_ids p) \<and> sget p ''risk'' = ''low'' \<and> bget p ''reversible''"
    if "oget p ''default_option_id'' = Some chosen" for chosen
  proof -
    have j: "field p ''default_option_id'' = JStr chosen"
      using that by (cases "field p ''default_option_id''") (simp_all add: oget_def)
    then have "chosen \<in> set (option_ids p)" "sget p ''risk'' = ''low''" "bget p ''reversible''"
      using default by (auto simp: v_in_def)
    then show ?thesis using valid_options [OF options] by blast
  qed
  then show ?thesis
    using uuid by (auto simp: request_typed_def decision_of_def automatic_allowed_def v_uuid_def sget_def)
qed

section \<open>The invariant\<close>

lemma add_typed:
  "all_decisions_typed d \<Longrightarrow> request_typed q \<Longrightarrow> is_sha256 (m_sha m) \<Longrightarrow> all_decisions_typed (add_decision E m q d)"
  by (auto simp: all_decisions_typed_def add_decision_def decision_typed_def split: if_splits)

lemma reduce_decision_typed:
  assumes "all_decisions_typed (x_decisions s)" and "reduce_decision E s m e = Inr d" and "is_sha256 (m_sha m)"
    and "\<And>q. e = Decision_requested q \<Longrightarrow> request_typed q"
  shows "all_decisions_typed d"
proof (cases "\<exists>q. e = Decision_requested q")
  case True
  then show ?thesis
    using assms by (auto simp: reduce_decision_requested_def Let_def intro!: add_typed split: if_splits sum.splits)
next
  case False
  then show ?thesis
    using assms(1,2)
    by (cases e)
      (auto simp: reduce_enqueued_def reduce_attempted_def reduce_outcome_def reduce_resolved_def Let_def
        all_decisions_typed_def set_outbox_def resolve_decision_def decision_typed_def
        dest!: pendingD split: option.splits if_splits sum.splits)
qed

text \<open>The reducer does not look at the digest of an event; on a ledger that was read it is one.\<close>

definition sealed_step :: "prims \<Rightarrow> event list \<Rightarrow> derivation \<Rightarrow> event \<Rightarrow> derivation result" where
  "sealed_step E events v e =
     (if is_sha256 (e_sha e) then derive_step E events v e else Inl MissionStateError)"

interpretation deciding_typed: preserved "sealed_step E events" "\<lambda>v. all_decisions_typed (x_decisions (v_state v))"
  for E events
proof
  fix v e w
  assume inv: "all_decisions_typed (x_decisions (v_state v))" and "sealed_step E events v e = Inr w"
  then have step: "derive_step E events v e = Inr w" and sha: "is_sha256 (e_sha e)"
    by (auto simp: sealed_step_def split: if_splits)
  let ?p = "decode_payload (e_kind e) (e_payload e)"
  obtain u where u: "reduce E (v_state v) (meta_of e) (last_request events (e_sequence e)) ?p = Inr u"
    and w: "v_state w = counted (meta_of e) u"
    using derive_stepD(2) [OF step] by auto
  have "all_decisions_typed (x_decisions u)"
  proof (cases "\<exists>de. ?p = Decision de")
    case True
    then obtain de where de: "?p = Decision de" by blast
    have "request_typed q" if "de = Decision_requested q" for q
      using decode_requestedD [of "e_kind e" "e_payload e" q] de that derive_stepD(1) [OF step] valid_request_typed
      by (auto simp: validate_payload_def registry_decision split: if_splits)
    then show ?thesis
      using u de reduce_decision_typed [OF inv, of E "meta_of e" de] sha by (auto simp: meta_of_def split: sum.splits)
  next
    case False
    then show ?thesis using reduce_same_decisions [OF u] inv by simp
  qed
  then show "all_decisions_typed (x_decisions (v_state w))" by (simp add: w)
qed

lemma derived_decisions_typed:
  assumes "derive_state E events = Inr s" and "\<forall>e \<in> set events. is_sha256 (e_sha e)"
  shows "all_decisions_typed (x_decisions s)"
proof -
  obtain v e es where v: "fold_result (derive_step E events) (start_derivation e) events = Inr v" "s = v_state v"
    using assms(1) by (rule derived)
  have "fold_result (sealed_step E events) (start_derivation e) events = fold_result (derive_step E events) (start_derivation e) events"
    by (rule fold_result_cong) (use assms(2) in \<open>simp add: sealed_step_def\<close>)
  moreover have "all_decisions_typed (x_decisions (v_state (start_derivation e)))"
    by (simp add: start_derivation_def initial_state_def all_decisions_typed_def dict.get_empty)
  ultimately show ?thesis using deciding_typed.fold_inv v by metis
qed

lemma chained_sealed: "chained E mission p es \<Longrightarrow> e \<in> set es \<Longrightarrow> is_sha256 (e_sha e)"
  by (induction es arbitrary: p) (auto dest: validated_event(11))

end
