(* ===== verification/Decision_Live.thy ===== *)
theory Decision_Live
  imports Decision_Reconcile Decision_Typed
begin

text \<open>
  When a reconciliation succeeds: with no other writer, on a mission that has not ended, every
  expired default is appended and accepted in one batch.
\<close>

section \<open>A default that is due\<close>

text \<open>A pending decision whose default may be taken at the instant \<open>now\<close>.\<close>

definition due_in :: "prims \<Rightarrow> int \<Rightarrow> mission \<Rightarrow> string \<times> decision \<times> string \<Rightarrow> bool" where
  "due_in E now s x \<longleftrightarrow>
     (case x of (k, de, chosen) \<Rightarrow>
        pending_decision (x_decisions s) k = Some de \<and> dr_id (de_request de) = k \<and> decision_typed de
        \<and> dr_default (de_request de) = Some chosen \<and> instant E (de_deadline de) \<le> now)"

definition due_request :: "string \<times> decision \<times> string \<Rightarrow> request" where
  "due_request x =
     (case x of (k, de, chosen) \<Rightarrow>
        \<lparr>q_kind = ''human_decision_resolved'', q_actor = ''CONTROL'', q_key = auto_key k,
         q_payload = canonical_copy (resolution_json de chosen auto_reason ''automatic'')\<rparr>)"

lemma due_request_fields [simp]:
  "q_kind (due_request x) = ''human_decision_resolved''" "q_actor (due_request x) = ''CONTROL''"
  "q_key (due_request x) = auto_key (fst x)"
  by (auto simp: due_request_def split: prod.splits)

lemma resolution_valid:
  assumes "is_uuid (dr_id (de_request de))" and "is_sha256 (de_request_event de)" and "safe_decision_option chosen"
    and "reason \<noteq> []" and "kind = ''human'' \<or> kind = ''automatic''"
  defines "p \<equiv> resolution_json de chosen reason kind"
  shows "valid_decision_resolved p = Inr ()" and "valid_decision_resolved (canonical_copy p) = Inr ()"
proof -
  have chosen: "chosen \<noteq> []" using assms(3) by (auto simp: safe_decision_option_def)
  have fields: "field p ''decision_id'' = JStr (dr_id (de_request de))" "field p ''request_event_sha256'' = JStr (de_request_event de)"
      "field p ''option_id'' = JStr chosen" "field p ''reason'' = JStr reason" "field p ''resolution_kind'' = JStr kind"
    by (simp_all add: p_def resolution_json_def field_def)
  have shape: "has_exactly p [''decision_id'', ''request_event_sha256'', ''option_id'', ''reason'', ''resolution_kind'']"
    by (simp add: p_def resolution_json_def has_exactly_def has_field_def)
  show "valid_decision_resolved p = Inr ()"
    using assms(1-5) chosen by (auto simp: valid_decision_resolved_def fields shape v_uuid_def v_sha_def v_option_id_def v_nonempty_def v_in_def)
  have copied: "field (canonical_copy p) k = canonical_copy (field p k)" "has_exactly (canonical_copy p) ks = has_exactly p ks" for k ks
    unfolding p_def resolution_items by (rule field_copy [OF distinct_resolution]) (rule has_exactly_copy)
  show "valid_decision_resolved (canonical_copy p) = Inr ()"
    using assms(1-5) chosen by (auto simp: valid_decision_resolved_def copied fields shape v_uuid_def v_sha_def v_option_id_def v_nonempty_def v_in_def)
qed

lemma uuid_key:
  assumes "is_uuid u"
  shows "safe_key (''decision:auto:'' @ u)"
proof -
  obtain h where h: "u = hyphenate h" "length h = 32" "list_all is_hex h" using uuid_hyphenate [OF assms] by blast
  have hex: "is_alnum c" if "is_hex c" for c
    using that by (auto simp: is_hex_def is_alnum_def is_digit_def is_lower_def less_eq_char_def)
  have "set u \<subseteq> insert (CHR ''-'') (set h)"
    using h(1) by (auto simp: hyphenate_def dest: in_set_takeD in_set_dropD)
  then have "list_all (\<lambda>c. is_alnum c \<or> c \<in> {CHR ''.'', CHR ''_'', CHR '':'', CHR ''-''}) u"
    using h(3) hex by (auto simp: list_all_iff)
  moreover have "length u = 36" using assms by (simp add: is_uuid_def)
  moreover have "is_alnum (CHR ''d'')" "list_all (\<lambda>c. is_alnum c \<or> c \<in> {CHR ''.'', CHR ''_'', CHR '':'', CHR ''-''}) ''ecision:auto:''"
    by code_simp+
  ultimately show ?thesis by (simp add: safe_key_def)
qed

lemma due_valid:
  assumes "due_in E now s (k, de, chosen)"
  shows "valid_decision_resolved (resolution_json de chosen auto_reason ''automatic'') = Inr ()"
    and "validate_payload E ''human_decision_resolved'' (q_payload (due_request (k, de, chosen))) = Inr ()"
    and "request_names (due_request (k, de, chosen))" and "is_uuid k"
proof -
  have de: "is_uuid (dr_id (de_request de))" "is_sha256 (de_request_event de)" "safe_decision_option chosen" "dr_id (de_request de) = k"
    using assms by (auto simp: due_in_def decision_typed_def request_typed_def)
  have reason: "auto_reason \<noteq> []" by (simp add: auto_reason_def)
  have kind: "''automatic'' = ''human'' \<or> ''automatic'' = ''automatic''" by simp
  show "valid_decision_resolved (resolution_json de chosen auto_reason ''automatic'') = Inr ()"
    by (rule resolution_valid(1) [OF de(1-3) reason kind])
  have "is_obj (canonical_copy (resolution_json de chosen auto_reason ''automatic''))" by (simp add: resolution_items)
  then show "validate_payload E ''human_decision_resolved'' (q_payload (due_request (k, de, chosen))) = Inr ()"
    using resolution_valid(2) [OF de(1-3) reason kind]
    by (simp add: due_request_def validate_payload_def registry_resolved del: canonical_copy.simps)
  show uuid: "is_uuid k" using de by simp
  have kind: "safe_kind ''human_decision_resolved''" and actor: "safe_actor ''CONTROL''" by code_simp+
  have "safe_key (auto_key k)" using uuid_key [OF uuid] by (simp add: auto_key_def)
  then show "request_names (due_request (k, de, chosen))" using kind actor by (simp add: request_names_def)
qed

lemma due_plain:
  assumes "due_in E now s (k, de, chosen)"
  shows "\<not> legacy_admission_request (due_request (k, de, chosen))"
    and "decode_payload ''human_decision_resolved'' (q_payload (due_request (k, de, chosen)))
      = Decision (Decision_resolved (resolution_by de chosen auto_reason Automatic))"
proof -
  show "\<not> legacy_admission_request (due_request (k, de, chosen))" by (simp add: legacy_admission_request_def)
  have "wf_json (canonical_copy (resolution_json de chosen auto_reason ''automatic''))"
    using resolution_wf [OF due_valid(1) [OF assms] utf8_reason] by (simp del: canonical_copy.simps)
  then have "resolution_of (q_payload (due_request (k, de, chosen))) = resolution_by de chosen auto_reason Automatic"
    by (intro answered_resolution) (simp_all add: due_request_def del: canonical_copy.simps)
  then show "decode_payload ''human_decision_resolved'' (q_payload (due_request (k, de, chosen)))
      = Decision (Decision_resolved (resolution_by de chosen auto_reason Automatic))"
    by (simp add: decode_resolved)
qed

lemma due_reduces:
  assumes "due_in E now s (k, de, chosen)" and "m_actor m = ''CONTROL''" and "now \<le> instant E (m_time m)"
  shows "reduce E s m lr (Decision (Decision_resolved (resolution_by de chosen auto_reason Automatic)))
    = Inr (s\<lparr>x_decisions := resolve_decision m (resolution_by de chosen auto_reason Automatic) de (x_decisions s)\<rparr>)"
proof -
  have "pending_decision (x_decisions s) k = Some de" "dr_id (de_request de) = k" "chosen \<in> set (dr_options (de_request de))"
    "automatic_allowed (de_request de) chosen" "instant E (de_deadline de) \<le> now"
    using assms(1) by (auto simp: due_in_def decision_typed_def request_typed_def)
  then show ?thesis using assms(2,3) by (simp add: reduce_resolved_def resolution_by_def)
qed

lemma due_others:
  assumes "due_in E now s x" and "fst x \<noteq> rs_decision p"
  shows "due_in E now (counted m (s\<lparr>x_decisions := resolve_decision m' p de (x_decisions s)\<rparr>)) x"
  using assms by (auto simp: due_in_def counted_def resolve_decision_def pending_decision_def split: prod.splits if_splits)

section \<open>The batch\<close>

text \<open>
  The world of a batch of \<open>n\<close> events after \<open>prior\<close>: it may write, the publication succeeds, the
  fresh identities are UUIDs, its clock never shows less than \<open>now\<close>, and all instants stay within
  what can be written.
\<close>

definition batch_world :: "prims \<Rightarrow> world \<Rightarrow> event option \<Rightarrow> int \<Rightarrow> int \<Rightarrow> nat \<Rightarrow> bool" where
  "batch_world E w prior now bound n \<longleftrightarrow>
     \<not> w_read_only w \<and> w_publishes w \<and> (\<forall>i. is_uuid (w_fresh w i)) \<and> 0 \<le> now
     \<and> (\<forall>i. now \<le> w_clock w i \<and> w_clock w i \<le> bound)
     \<and> (case prior of None \<Rightarrow> True | Some e \<Rightarrow> instant E (e_time e) \<le> bound)
     \<and> dated (bound + int n)"

lemma batch_instant:
  assumes "batch_world E w p now bound (Suc n)"
  shows "now \<le> next_instant E (w_clock w i) p" and "next_instant E (w_clock w i) p \<le> bound + 1"
    and "dated (next_instant E (w_clock w i) p)"
proof -
  have c: "0 \<le> now" "now \<le> w_clock w i" "w_clock w i \<le> bound" "dated (bound + int (Suc n))"
    and p: "\<And>e. p = Some e \<Longrightarrow> instant E (e_time e) \<le> bound"
    using assms by (auto simp: batch_world_def)
  show lo: "now \<le> next_instant E (w_clock w i) p" using c by (auto simp: next_instant_def max_def split: option.splits)
  show hi: "next_instant E (w_clock w i) p \<le> bound + 1" using c p by (cases p) (auto simp: next_instant_def)
  show "dated (next_instant E (w_clock w i) p)" using lo hi c by (simp add: dated_def)
qed

lemma batch_next:
  assumes "batch_world E w p now bound (Suc n)" and "instant E (e_time e) \<le> bound + 1"
  shows "batch_world E w (Some e) now (bound + 1) n"
proof -
  have c: "\<forall>i. now \<le> w_clock w i \<and> w_clock w i \<le> bound" "dated (bound + int (Suc n))"
    "\<not> w_read_only w" "w_publishes w" "\<forall>i. is_uuid (w_fresh w i)" "0 \<le> now"
    using assms(1) by (auto simp: batch_world_def)
  have "now \<le> w_clock w i \<and> w_clock w i \<le> bound + 1" for i
    using spec [OF c(1), of i] by linarith
  moreover have "dated (bound + 1 + int n)" using c(2) by (simp add: add.assoc)
  ultimately show ?thesis using c(3-6) assms(2) by (simp add: batch_world_def)
qed

lemma next_sequence_last: "es \<noteq> [] \<Longrightarrow> sequenced es \<Longrightarrow> next_sequence (last_event es) = int (length es) + 1"
  using last_sequence by blast

lemma sequenced_snoc: "sequenced es \<Longrightarrow> e_sequence e = int (length es) + 1 \<Longrightarrow> sequenced (es @ [e])"
  by (simp add: sequenced_def)

text \<open>One more due default: its event is valid, and the ledger with it derives.\<close>

lemma due_step:
  fixes w :: world and t :: txn
  assumes "library_ok E" and "is_uuid (tx_mission t)" and "tx_state t = Some s0" and "\<not> ended (x_status s0)"
    and s: "derive_state E (tx_events t @ new) = Inr s" and seq: "sequenced (tx_events t @ new)" and "\<not> ended (x_status s)"
    and due: "due_in E now s (k, de, chosen)" and fresh: "auto_key k \<notin> e_key ` set (tx_events t @ new)"
    and world: "batch_world E w (last_event (tx_events t @ new)) now bound (Suc n)"
  defines "e \<equiv> new_event E w t (length new) (last_event (tx_events t @ new)) (due_request (k, de, chosen))"
  shows "admit_request E w t new (last_event (tx_events t @ new)) (due_request (k, de, chosen)) = Inr e"
    and "derive_state E (tx_events t @ new @ [e]) = Inr (counted (meta_of e)
      (s\<lparr>x_decisions := resolve_decision (meta_of e) (resolution_by de chosen auto_reason Automatic) de (x_decisions s)\<rparr>))"
    and "sequenced (tx_events t @ new @ [e])" and "batch_world E w (Some e) now (bound + 1) n" and "e_key e = auto_key k"
proof -
  let ?p = "last_event (tx_events t @ new)" and ?q = "due_request (k, de, chosen)"
  note at = batch_instant [OF world, of "length new"]
  have time: "instant E (e_time e) = next_instant E (w_clock w (length new)) ?p"
    using next_timestamp_later [OF assms(1) at(3)] by (simp add: e_def instant_def)
  have fresh_id: "is_uuid (w_fresh w (length new))" using world by (simp add: batch_world_def)
  have position: "next_sequence ?p = int (length (tx_events t)) + int (length new) + 1"
    using last_sequence [OF seq] by simp
  have "validate_event E (tx_mission t) ?p (event_json e) = Inr ()"
    unfolding e_def
    by (rule new_event_valid_at [OF assms(1) position fresh_id assms(2) due_valid(3) [OF due]])
      (use due_valid(2) [OF due] at(3) in simp_all)
  then show "admit_request E w t new ?p ?q = Inr e"
    using due_plain(1) [OF due] assms(3,4)
    by (simp add: admit_request_def require_admission_schema_def require_authority_schema_def require_def e_def)
  show key: "e_key e = auto_key k" by (simp add: e_def)
  have kind: "e_kind e = ''human_decision_resolved''" "e_payload e = q_payload ?q" by (simp_all add: e_def)
  have "m_actor (meta_of e) = ''CONTROL''" "now \<le> instant E (m_time (meta_of e))"
    using at(1) time by (simp_all add: meta_of_def) (simp add: e_def)
  note reduced = due_reduces [OF due this]
  have "derive_state E ((tx_events t @ new) @ [e]) = Inr (counted (meta_of e)
      (s\<lparr>x_decisions := resolve_decision (meta_of e) (resolution_by de chosen auto_reason Automatic) de (x_decisions s)\<rparr>))"
  proof (rule derive_one_more [OF s seq assms(7)])
    show "e_key e \<notin> e_key ` set (tx_events t @ new)" using fresh key by simp
    show "validate_payload E (e_kind e) (e_payload e) = Inr ()" using due_valid(2) [OF due] by (simp only: kind)
    show "reduce E s (meta_of e) (last_request ((tx_events t @ new) @ [e]) (e_sequence e)) (decode_payload (e_kind e) (e_payload e))
        = Inr (s\<lparr>x_decisions := resolve_decision (meta_of e) (resolution_by de chosen auto_reason Automatic) de (x_decisions s)\<rparr>)"
      unfolding kind due_plain(2) [OF due] by (rule reduced)
  qed
  then show "derive_state E (tx_events t @ new @ [e]) = Inr (counted (meta_of e)
      (s\<lparr>x_decisions := resolve_decision (meta_of e) (resolution_by de chosen auto_reason Automatic) de (x_decisions s)\<rparr>))"
    by (simp only: append_assoc)
  have "e_sequence e = int (length (tx_events t @ new)) + 1" by (simp add: e_def)
  then show "sequenced (tx_events t @ new @ [e])" using sequenced_snoc [OF seq] by (simp only: append_assoc)
  show "batch_world E w (Some e) now (bound + 1) n" by (rule batch_next [OF world]) (use at(2) time in simp)
qed

lemma auto_key_inj [simp]: "auto_key k = auto_key k' \<longleftrightarrow> k = k'"
  by (simp add: auto_key_def)

lemma last_event_snoc [simp]: "last_event (xs @ ys @ [e]) = Some e"
  by (simp add: last_event_def)

lemma due_loop:
  assumes "library_ok E" and "is_uuid (tx_mission t)" and "tx_state t = Some s0" and "\<not> ended (x_status s0)"
  shows "derive_state E (tx_events t @ new) = Inr s \<Longrightarrow> sequenced (tx_events t @ new) \<Longrightarrow> \<not> ended (x_status s) \<Longrightarrow>
    \<forall>x \<in> set ts. due_in E now s x \<Longrightarrow> distinct (map fst ts) \<Longrightarrow>
    \<forall>x \<in> set ts. auto_key (fst x) \<notin> e_key ` set (tx_events t @ new) \<and> map_of known (auto_key (fst x)) = None \<Longrightarrow>
    batch_world E w (last_event (tx_events t @ new)) now bound (length ts) \<Longrightarrow>
    \<exists>added s'. append_loop E w t known new (last_event (tx_events t @ new)) (map due_request ts)
        = Inr (map (\<lambda>e. (e, True)) added, new @ added)
      \<and> length added = length ts \<and> derive_state E (tx_events t @ new @ added) = Inr s'"
proof (induction ts arbitrary: known new s bound)
  case (Cons x ts)
  obtain k de chosen where x: "x = (k, de, chosen)" by (cases x)
  let ?p = "last_event (tx_events t @ new)"
  let ?e = "new_event E w t (length new) ?p (due_request (k, de, chosen))"
  let ?u = "counted (meta_of ?e)
      (s\<lparr>x_decisions := resolve_decision (meta_of ?e) (resolution_by de chosen auto_reason Automatic) de (x_decisions s)\<rparr>)"
  have due: "due_in E now s (k, de, chosen)" and fresh: "auto_key k \<notin> e_key ` set (tx_events t @ new)"
    and unknown: "map_of known (auto_key k) = None"
    using Cons.prems(4,6) x by auto
  have world: "batch_world E w ?p now bound (Suc (length ts))" using Cons.prems(7) by simp
  note step = due_step [OF assms Cons.prems(1-3) due fresh world]
  have others: "fst y \<noteq> k" if "y \<in> set ts" for y using Cons.prems(5) x that by force
  have "dr_id (de_request de) = k" using due by (simp add: due_in_def)
  then have later: "\<forall>y \<in> set ts. due_in E now ?u y"
    using Cons.prems(4) others by (auto intro!: due_others simp: resolution_by_def)
  have keys: "\<forall>y \<in> set ts. auto_key (fst y) \<notin> e_key ` set (tx_events t @ new @ [?e])
      \<and> map_of ((auto_key k, ?e) # known) (auto_key (fst y)) = None"
    using Cons.prems(6) others step(5) by fastforce
  have open': "\<not> ended (x_status ?u)" using Cons.prems(3) by (simp add: counted_def)
  have distinct': "distinct (map fst ts)" using Cons.prems(5) by simp
  have last: "last_event (tx_events t @ new @ [?e]) = Some ?e" by simp
  from Cons.IH [OF step(2,3) open' later distinct' keys] step(4)
  obtain added s' where added: "append_loop E w t ((auto_key k, ?e) # known) (new @ [?e]) (Some ?e) (map due_request ts)
      = Inr (map (\<lambda>e. (e, True)) added, (new @ [?e]) @ added)"
    "length added = length ts" "derive_state E (tx_events t @ (new @ [?e]) @ added) = Inr s'"
    unfolding last by blast
  then show ?case
    using step(1) unknown x by (intro exI [of _ "?e # added"]) simp
qed simp

section \<open>The requests of a quiet ledger\<close>

definition due_json :: "string \<times> decision \<times> string \<Rightarrow> json" where
  "due_json x = (case x of (k, de, chosen) \<Rightarrow> auto_request k de chosen)"

text \<open>What a stored pending decision offers the client.\<close>

definition readable :: "prims \<Rightarrow> mission \<Rightarrow> string \<times> decision \<Rightarrow> bool" where
  "readable E s x \<longleftrightarrow>
     (case x of (k, de) \<Rightarrow>
        pending_decision (x_decisions s) k = Some de \<and> dr_id (de_request de) = k \<and> decision_typed de
        \<and> parse_iso E (de_deadline de) \<noteq> None)"

lemma readable_expired:
  assumes "readable E s (k, de)"
  obtains c where "expired_default E now de = Inr c"
    and "\<forall>chosen. c = Some chosen \<longrightarrow> due_in E now s (k, de, chosen)"
proof -
  obtain i where i: "parse_iso E (de_deadline de) = Some i" using assms by (auto simp: readable_def)
  show thesis
    by (rule that [of "if i \<le> now \<and> dr_risk (de_request de) = Low \<and> dr_reversible (de_request de) then dr_default (de_request de) else None"])
      (use assms i in \<open>auto simp: expired_default_def parse_timestamp_def readable_def due_in_def instant_def split: if_splits\<close>)
qed

lemma default_requests_due:
  assumes "\<forall>x \<in> set items. readable E s x" and "distinct (map fst items)"
  shows "\<exists>ts. default_requests E now items = Inr (map (\<lambda>x. (fst x, due_json x)) ts)
    \<and> (\<forall>x \<in> set ts. due_in E now s x) \<and> distinct (map fst ts) \<and> fst ` set ts \<subseteq> fst ` set items"
  using assms
proof (induction items)
  case (Cons x items)
  obtain k de where x: "x = (k, de)" by (cases x)
  have readable: "readable E s (k, de)" and id: "dr_id (de_request de) = k" using Cons.prems(1) x by (auto simp: readable_def)
  obtain ts where ts: "default_requests E now items = Inr (map (\<lambda>x. (fst x, due_json x)) ts)" "\<forall>x \<in> set ts. due_in E now s x"
    "distinct (map fst ts)" "fst ` set ts \<subseteq> fst ` set items"
    using Cons.IH Cons.prems by auto
  obtain c where c: "expired_default E now de = Inr c" "\<forall>chosen. c = Some chosen \<longrightarrow> due_in E now s (k, de, chosen)"
    using readable_expired [OF readable, of now] .
  show ?case
  proof (cases c)
    case None
    then show ?thesis using ts c(1) x by (intro exI [of _ ts]) auto
  next
    case (Some chosen)
    then have due: "due_in E now s (k, de, chosen)" using c(2) by blast
    have "resolution_payload de chosen auto_reason ''automatic'' = Inr (resolution_json de chosen auto_reason ''automatic'')"
      using due_valid(1) [OF due] by (simp add: resolution_payload_ok)
    moreover have "k \<notin> fst ` set ts" using Cons.prems(2) x ts(4) by auto
    ultimately show ?thesis
      using ts c(1) Some due x id
      by (intro exI [of _ "(k, de, chosen) # ts"]) (auto simp: due_json_def auto_request_def)
  qed
qed simp

lemma due_normalized:
  assumes "\<forall>x \<in> set ts. due_in E now s x"
  shows "normalize_requests E (map due_json ts) = Inr (map due_request ts)"
  using assms
proof (induction ts)
  case (Cons x ts)
  obtain k de chosen where x: "x = (k, de, chosen)" by (cases x)
  have due: "due_in E now s (k, de, chosen)" using Cons.prems x by simp
  have "normalize_event_request E (due_json x) = Inr (due_request x)"
    using due_valid(2,3) [OF due] unfolding x due_json_def auto_request_def
    by (simp add: normalize_request_json due_request_def request_names_def del: canonical_copy.simps)
  then show ?case using Cons by simp
qed simp

section \<open>A reconciliation without other writers\<close>

lemma pending_readable:
  assumes "read_events E mid file = Inr es" and "derive_state E es = Inr s" and "reader_ok E"
    and "\<forall>k de. pending_decision (x_decisions s) k = Some de \<longrightarrow> parse_iso E (de_deadline de) \<noteq> None"
  shows "\<forall>x \<in> set (pending_items s). readable E s x" and "distinct (map fst (pending_items s))"
proof -
  have ok: "decisions_ok E (x_decisions s)" using derived_decisions [OF assms(2)] .
  have "\<forall>e \<in> set es. is_sha256 (e_sha e)" using chained_sealed [OF read_chained(1) [OF assms(1,3)]] by blast
  then have typed: "all_decisions_typed (x_decisions s)" using derived_decisions_typed [OF assms(2)] by blast
  have "readable E s (k, de)" if k: "(k, de) \<in> set (pending_items s)" for k de
  proof -
    have p: "k \<in> set (d_pending (x_decisions s))" "dget (d_all (x_decisions s)) k = Some de"
      using k by (auto simp: pending_items_iff)
    then have pending: "pending_decision (x_decisions s) k = Some de" by (simp add: pending_decision_def)
    moreover have "dr_id (de_request de) = k" using decisions_okD [OF ok p(2)] by (simp add: decision_ok_def)
    moreover have "decision_typed de" using typed p(2) by (simp add: all_decisions_typed_def)
    ultimately show ?thesis using assms(4) by (simp only: readable_def prod.case) blast
  qed
  then show "\<forall>x \<in> set (pending_items s). readable E s x" by auto
  have sub: "map fst (List.map_filter (\<lambda>k. map_option (Pair k) (f k)) ks) = filter (\<lambda>k. f k \<noteq> None) ks" for f :: "string \<Rightarrow> decision option" and ks
    by (induction ks) (auto simp: map_filter_simps split: option.splits)
  show "distinct (map fst (pending_items s))"
    using ok unfolding pending_items_def sub by (simp add: decisions_ok_def)
qed

lemma quiet_turn:
  assumes "library_ok E" and "reader_ok E" and read: "read_events E mid file = Inr es" and s: "derive_state E es = Inr s"
    and mid: "is_uuid mid" and "\<not> ended (x_status s)"
    and ts: "\<forall>x \<in> set ts. due_in E now s x" "distinct (map fst ts)"
    and fresh: "\<forall>x \<in> set ts. auto_key (fst x) \<notin> e_key ` set es"
    and world: "batch_world E w (last_event es) now bound (length ts)" and "ts \<noteq> []"
  obtains rs t where "ledger_append_all E w mid file (map due_json ts) = Inr (rs, t)"
    and "length (filter snd rs) = length ts"
proof -
  obtain content where c: "file = Some content" "events_from_bytes E (Some mid) True content = Inr es"
    using read by (auto simp: read_events_def split: option.splits)
  let ?t = "\<lparr>tx_mission = mid, tx_events = es, tx_state = Some s, tx_content = content\<rparr>"
  have open': "open_txn E mid file = Inr ?t"
    using c s normalize_canonical [OF mid] by (simp add: open_txn_def)
  have unknown: "\<forall>x \<in> set ts. auto_key (fst x) \<notin> e_key ` set es \<and> map_of (by_key es) (auto_key (fst x)) = None"
    using fresh by (auto simp: map_of_eq_None_iff by_key_def image_image)
  have "\<exists>added s'. append_loop E w ?t (by_key es) [] (last_event es) (map due_request ts)
      = Inr (map (\<lambda>e. (e, True)) added, added)
      \<and> length added = length ts \<and> derive_state E (es @ added) = Inr s'"
    using due_loop [of E ?t s "[]" s ts now "by_key es" w bound] assms(1,6) mid s ts unknown world
      read_chained(2) [OF read assms(2)] by simp
  then obtain added s' where added: "append_loop E w ?t (by_key es) [] (last_event es) (map due_request ts)
      = Inr (map (\<lambda>e. (e, True)) added, added)" "length added = length ts" "derive_state E (es @ added) = Inr s'"
    by blast
  have normal: "normalize_requests E (map due_json ts) = Inr (map due_request ts)" using due_normalized [OF ts(1)] .
  have "w_publishes w" "\<not> w_read_only w" using world by (simp_all add: batch_world_def)
  moreover have "added \<noteq> []" using added(2) assms(11) by auto
  ultimately have "append_events E w ?t (map plain_of (map due_request ts)) = Inr (map (\<lambda>e. (e, True)) added,
      ?t\<lparr>tx_events := es @ added, tx_state := Some s', tx_content := content @ canonical_jsonl (map event_json added)\<rparr>)"
    using added normalize_all_again [OF normal] by (simp add: append_events_def append_normalized_def)
  then show thesis
    using that normal open' added(2)
    by (simp add: ledger_append_all_def in_transaction_def plain_of_def [abs_def] comp_def filter_map)
qed

text \<open>
  The premises of a quiet reconciliation: the ledger that is read is also the one that is appended
  to, no other event took the key of a default, and the deadlines can be read.
\<close>

definition quiet_ledger :: "prims \<Rightarrow> string \<Rightarrow> string option \<Rightarrow> world \<Rightarrow> int \<Rightarrow> event list \<Rightarrow> mission \<Rightarrow> bool" where
  "quiet_ledger E mid file w now es s \<longleftrightarrow>
     read_events E mid file = Inr es \<and> \<not> ended (x_status s)
     \<and> (\<exists>bound. batch_world E w (last_event es) now bound (length (d_pending (x_decisions s))))
     \<and> (\<forall>k de. pending_decision (x_decisions s) k = Some de \<longrightarrow>
          parse_iso E (de_deadline de) \<noteq> None \<and> auto_key k \<notin> e_key ` set es)"

lemma batch_world_less: "batch_world E w p now bound n \<Longrightarrow> m \<le> n \<Longrightarrow> batch_world E w p now bound m"
  by (auto simp: batch_world_def dated_def split: option.splits)

lemma pending_length: "length (pending_items s) \<le> length (d_pending (x_decisions s))"
proof -
  have "length (List.map_filter f xs) \<le> length xs" for f :: "string \<Rightarrow> (string \<times> decision) option" and xs
    by (induction xs) (auto simp: map_filter_simps split: option.splits)
  from this [of _ "sort (d_pending (x_decisions s))"] show ?thesis by (simp add: pending_items_def)
qed

lemma reconcile_returns:
  assumes "library_ok E" and "reader_ok E" and "load_mission E mission file = Inr (mid, s)"
    and "quiet_ledger E mid file (tu_world u0) now es s" and "tu_append u0 = file"
  shows "\<exists>answer left. reconcile_expired E now mission file u0 u1 = Inr (answer, left)
    \<and> set (ka_resolved answer) = due_decisions E now s \<and> ka_appended answer = length (ka_resolved answer)
    \<and> ka_mission answer = mid"
proof -
  obtain es' where mid: "is_uuid mid" and read: "read_events E mid file = Inr es'" "derive_state E es' = Inr s"
    by (rule load_mission_ok [OF assms(3)])
  have quiet: "es' = es" "\<not> ended (x_status s)" "\<forall>k de. pending_decision (x_decisions s) k = Some de \<longrightarrow>
      parse_iso E (de_deadline de) \<noteq> None \<and> auto_key k \<notin> e_key ` set es"
    using assms(4) read by (auto simp: quiet_ledger_def)
  obtain bound where bound: "batch_world E (tu_world u0) (last_event es) now bound (length (d_pending (x_decisions s)))"
    using assms(4) by (auto simp: quiet_ledger_def)
  have "\<forall>k de. pending_decision (x_decisions s) k = Some de \<longrightarrow> parse_iso E (de_deadline de) \<noteq> None" using quiet(3) by blast
  note readable = pending_readable [OF read assms(2) this]
  obtain ts where ts: "default_requests E now (pending_items s) = Inr (map (\<lambda>x. (fst x, due_json x)) ts)"
    "\<forall>x \<in> set ts. due_in E now s x" "distinct (map fst ts)" "fst ` set ts \<subseteq> fst ` set (pending_items s)"
    using default_requests_due [OF readable] by blast
  have ids: "set (map fst ts) = due_decisions E now s"
    using due_ids [OF ts(1) derived_decisions [OF read(2)]] by (simp add: image_image)
  have loop: "reconcile_expired E now mission file u0 u1 = reconcile_loop E now mid s [u0, u1]"
    using assms(3) by (simp add: reconcile_expired_def)
  show ?thesis
  proof (cases "ts = []")
    case True
    then show ?thesis using loop ts(1) ids by (simp add: or_decision_error_def)
  next
    case False
    have "length ts = card (set (map fst ts))" using distinct_card [OF ts(3)] by simp
    also have "\<dots> \<le> card (set (map fst (pending_items s)))" using card_mono [OF _ ts(4)] by simp
    also have "\<dots> \<le> length (d_pending (x_decisions s))"
      using card_length [of "map fst (pending_items s)"] pending_length [of s] by simp
    finally have "length ts \<le> length (d_pending (x_decisions s))" .
    then have world: "batch_world E (tu_world u0) (last_event es) now bound (length ts)" using batch_world_less [OF bound] by blast
    have "\<forall>x \<in> set ts. auto_key (fst x) \<notin> e_key ` set es"
      using ts(2) quiet(3) by (fastforce simp: due_in_def)
    then obtain rs t where "ledger_append_all E (tu_world u0) mid file (map due_json ts) = Inr (rs, t)"
      "length (filter snd rs) = length ts"
      using quiet_turn [OF assms(1,2) read(1) [unfolded quiet(1)] read(2) [unfolded quiet(1)] mid quiet(2) ts(2,3) _ world False] by blast
    then show ?thesis
      using loop ts(1) False ids assms(5) by (simp add: or_decision_error_def comp_def)
  qed
qed

end
