(* ===== verification/Sample_Reconcile.thy ===== *)
theory Sample_Reconcile
  imports Decision_Live Sample_Client
begin

text \<open>
  The ledger of the sample mission with a pending decision, as bytes that the client can read, and
  the world in which its default expires.
\<close>

definition closed :: "event \<Rightarrow> event" where
  "closed e = e\<lparr>e_time := int_text (e_sequence e), e_payload := canonical_copy (e_payload e)\<rparr>"

definition pending_ledger :: "event list" where
  "pending_ledger = map closed (before_request @ [decision_event])"

definition pending_facts :: "mission \<Rightarrow> bool" where
  "pending_facts s =
     (\<not> ended (x_status s) \<and> d_pending (x_decisions s) = [sample_uuid ''d5'']
      \<and> (case dget (d_all (x_decisions s)) (sample_uuid ''d5'') of
           None \<Rightarrow> False
         | Some de \<Rightarrow> dr_risk (de_request de) = Low \<and> dr_reversible (de_request de)
             \<and> dr_default (de_request de) = Some ''keep'' \<and> de_deadline de = ''7200000015''
             \<and> de_requested_at de = ''15''))"

definition pending_state :: mission where
  "pending_state = projr (derive_state sample pending_ledger)"

lemma pending_derives:
  "case derive_state sample pending_ledger of Inl x \<Rightarrow> False | Inr s \<Rightarrow> pending_facts s"
  by code_simp

lemma pending_state: "derive_state sample pending_ledger = Inr pending_state" "pending_facts pending_state"
  using pending_derives by (auto simp: pending_state_def split: sum.splits)

section \<open>The ledger is a chain\<close>

fun linked :: "event option \<Rightarrow> event list \<Rightarrow> bool" where
  "linked p [] \<longleftrightarrow> True"
| "linked p (e # es) \<longleftrightarrow>
     e_mission e = sample_uuid ''mission'' \<and> is_uuid (e_id e) \<and> safe_kind (e_kind e) \<and> safe_actor (e_actor e)
     \<and> safe_key (e_key e) \<and> e_sequence e = next_sequence p \<and> parse_iso sample (e_time e) \<noteq> None
     \<and> utf8_ok (e_time e) \<and> later sample p (e_time e) \<and> e_previous e = head_of p \<and> e_sha e = genesis_sha256
     \<and> linked (Some e) es"

lemma pending_linked: "linked None pending_ledger"
  by code_simp

lemma pending_identities: "list_all (\<lambda>e. decision_identity sample (sample_uuid ''mission'') (event_json e)) pending_ledger"
  by code_simp

lemma pending_payloads: "list_all (\<lambda>e. wf_json (e_payload e)) (before_request @ [decision_event])"
  by code_simp

text \<open>What each payload contributes to the validation of its event.\<close>

definition sound_payload :: "event \<Rightarrow> bool" where
  "sound_payload e \<longleftrightarrow>
     validate_payload sample (e_kind e) (e_payload e) = Inr () \<and> canonical_copy (e_payload e) = e_payload e
     \<and> wf_json (e_payload e) \<and> decision_identity sample (sample_uuid ''mission'') (event_json e)"

lemma linked_chained:
  "linked p es \<Longrightarrow> text_head p \<Longrightarrow> list_all sound_payload es \<Longrightarrow> chained sample (sample_uuid ''mission'') p es"
proof (induction es arbitrary: p)
  case (Cons e es)
  have mission: "is_uuid (sample_uuid ''mission'')" by (rule sample_mission)
  have genesis: "is_sha256 genesis_sha256" by code_simp
  have sound: "sound_payload e" using Cons.prems(3) by simp
  have "has_exactly (event_json e) event_fields"
    by (simp add: has_exactly_def event_json_items event_keys has_field_def list_all_iff)
  moreover have "field (event_json e) ''schema_version'' = JInt 1" "is_obj (event_json e)"
    by (simp_all add: event_json_def unsigned_items_def field_def)
  ultimately have valid: "validate_event sample (sample_uuid ''mission'') p (event_json e) = Inr ()"
    using Cons.prems sound mission genesis
    by (simp add: validate_event_def valid_envelope_def valid_position_def valid_request_names_def valid_digests_def
        event_json_fields v_uuid_def v_time_def v_sha_def sget_def without_sha sound_payload_def)
  moreover have "closed_event e"
    using validated_closed [OF valid Cons.prems(2)] Cons.prems(1) sound by (simp add: sound_payload_def)
  moreover have "text_head (Some e)" using Cons.prems(1) genesis by (simp add: text_head_simps)
  ultimately show ?case using Cons by simp
qed simp

lemma derived_valid:
  assumes "derive_state E es = Inr s" and "e \<in> set es"
  shows "validate_payload E (e_kind e) (e_payload e) = Inr ()"
proof -
  obtain v first rest where v: "fold_result (derive_step E es) (start_derivation first) es = Inr v"
    using assms(1) by (rule derived)
  obtain as bs where es: "es = as @ e # bs" using split_list [OF assms(2)] by blast
  obtain a b where "derive_step E es a e = Inr b"
    using v unfolding es by (auto simp: guard_simps fold_result_append simp del: all_simps split: sum.splits)
  then show ?thesis by (rule derive_stepD(1))
qed

lemma pending_chained: "chained sample (sample_uuid ''mission'') None pending_ledger"
proof (rule linked_chained [OF pending_linked text_head_simps(1)])
  have "canonical_copy (e_payload (closed e)) = e_payload (closed e)" "wf_json (e_payload (closed e)) = wf_json (e_payload e)" for e
    by (simp_all add: closed_def)
  then have "\<forall>e \<in> set pending_ledger. canonical_copy (e_payload e) = e_payload e \<and> wf_json (e_payload e)"
    using pending_payloads by (auto simp: pending_ledger_def list_all_iff)
  then show "list_all sound_payload pending_ledger"
    using derived_valid [OF pending_state(1)] pending_identities by (simp add: list_all_iff sound_payload_def)
qed

definition pending_file :: "string option" where
  "pending_file = Some (canonical_jsonl (map event_json pending_ledger))"

lemma pending_read: "read_events sample (sample_uuid ''mission'') pending_file = Inr pending_ledger"
  using read_written [OF pending_chained] by (simp add: read_events_def pending_file_def pending_ledger_def)

section \<open>The default expires\<close>

definition pending_key :: string where
  "pending_key = sample_uuid ''d5''"

definition pending_record :: decision where
  "pending_record = the (dget (d_all (x_decisions pending_state)) pending_key)"

lemma pending_decision_sample:
  "d_pending (x_decisions pending_state) = [pending_key]" "\<not> ended (x_status pending_state)"
  "dget (d_all (x_decisions pending_state)) pending_key = Some pending_record"
  "dr_risk (de_request pending_record) = Low" "dr_reversible (de_request pending_record)"
  "dr_default (de_request pending_record) = Some ''keep''" "de_deadline pending_record = ''7200000015''"
  "de_requested_at pending_record = ''15''"
  using pending_state(2) by (auto simp: pending_facts_def pending_record_def pending_key_def split: option.splits)

lemma pending_parse: "parse_iso sample ''7200000015'' = Some 7200000015"
  by code_simp

text \<open>Two hours later, in a world that publishes, and where both turns find the same ledger.\<close>

definition sample_turn :: turn where
  "sample_turn = \<lparr>tu_world = sample_world\<lparr>w_clock := \<lambda>n. 8000000000\<rparr>, tu_append = pending_file, tu_reload = pending_file\<rparr>"

lemma sample_turn_simps [simp]: "tu_append sample_turn = pending_file" "tu_reload sample_turn = pending_file"
  by (simp_all add: sample_turn_def)

lemma pending_expired: "expired_default sample 8000000000 pending_record = Inr (Some ''keep'')"
  using pending_decision_sample pending_parse by (simp add: expired_default_def parse_timestamp_def)

lemma pending_nonempty: "pending_ledger \<noteq> []"
  by (simp add: pending_ledger_def)

lemma pending_loaded: "load_mission sample (sample_uuid ''mission'') pending_file = Inr (sample_uuid ''mission'', pending_state)"
  using pending_read pending_state(1) normalize_canonical [OF sample_mission] pending_nonempty
  by (simp add: verify_events_def load_mission_def load_state_def or_decision_error_def)

lemma pending_grown: "grown sample (sample_uuid ''mission'') pending_file pending_file"
  using pending_read by (auto simp: grown_def)

lemma pending_keys: "auto_key pending_key \<notin> e_key ` set pending_ledger"
proof -
  have "list_all (\<lambda>e. e_key e \<noteq> auto_key pending_key) pending_ledger" by code_simp
  then show ?thesis by (auto simp: list_all_iff)
qed

lemma pending_quiet:
  "quiet_ledger sample (sample_uuid ''mission'') pending_file (tu_world sample_turn) 8000000000 pending_ledger pending_state"
proof -
  have "is_uuid (sample_uuid ''event'')" by code_simp
  moreover have "case last_event pending_ledger of None \<Rightarrow> True | Some e \<Rightarrow> instant sample (e_time e) \<le> 8000000000" by code_simp
  ultimately have "batch_world sample (tu_world sample_turn) (last_event pending_ledger) 8000000000 8000000000 1"
    by (simp add: batch_world_def sample_turn_def sample_world_def dated_def)
  then have bound: "\<exists>bound. batch_world sample (tu_world sample_turn) (last_event pending_ledger) 8000000000 bound
      (length (d_pending (x_decisions pending_state)))"
    by (auto simp: pending_decision_sample)
  have "pending_decision (x_decisions pending_state) k = Some de \<Longrightarrow> k = pending_key \<and> de = pending_record" for k de
    using pending_decision_sample by (auto simp: pending_decision_def split: if_splits)
  then have "\<forall>k de. pending_decision (x_decisions pending_state) k = Some de \<longrightarrow>
      parse_iso sample (de_deadline de) \<noteq> None \<and> auto_key k \<notin> e_key ` set pending_ledger"
    using pending_decision_sample(7) pending_parse pending_keys by (metis option.discI)
  then show ?thesis
    using bound pending_read pending_decision_sample(2) unfolding quiet_ledger_def by blast
qed

lemma pending_item: "pending_items pending_state = [(pending_key, pending_record)]"
  by (simp add: pending_items_def pending_decision_sample map_filter_simps)

lemma pending_entry: "\<exists>i. inventory_entry sample 8000000000 name pending_state (pending_key, pending_record) = Inr i"
proof -
  have "parse_iso sample ''15'' = Some 15" by code_simp
  then show ?thesis
    using pending_decision_sample pending_parse by (simp add: inventory_entry_def parse_timestamp_def Let_def split: prod.split)
qed

end
