(* ===== verification/Inventory.thy ===== *)
theory Inventory
  imports Decision_Reconcile
begin

text \<open>
  What the inventory lists: the pending decisions of every mission that can be read, with the
  defaults that a reconciliation at the same instant would take, and every mission that cannot.
\<close>

lemma map_result_set:
  "map_result f xs = Inr ys \<Longrightarrow> (\<forall>x \<in> set xs. \<exists>y. f x = Inr y) \<and> set ys = {y. \<exists>x \<in> set xs. f x = Inr y}"
  by (induction xs arbitrary: ys) (auto split: sum.splits)

text \<open>A mission that the inventory visits, and one that it reads.\<close>

definition visited :: "string list \<Rightarrow> string \<Rightarrow> bool" where
  "visited names name \<longleftrightarrow> name \<in> set names \<and> normalize_uuid name = Inr name"

lemma scan_lists:
  assumes "scan_missions E now files names = Inr (items, invalid)"
  shows "i \<in> set items \<longleftrightarrow> (\<exists>name s x. visited names name \<and> read_mission E name (files name) = Inr s
      \<and> x \<in> set (pending_items s) \<and> inventory_entry E now name s x = Inr i)"
    and "name \<in> set invalid \<longleftrightarrow> visited names name \<and> isl (read_mission E name (files name))"
    and "visited names name \<Longrightarrow> read_mission E name (files name) = Inr s \<Longrightarrow> x \<in> set (pending_items s) \<Longrightarrow>
      \<exists>i. inventory_entry E now name s x = Inr i"
proof -
  have "(\<forall>i. i \<in> set items \<longleftrightarrow> (\<exists>name s x. visited names name \<and> read_mission E name (files name) = Inr s
      \<and> x \<in> set (pending_items s) \<and> inventory_entry E now name s x = Inr i))
    \<and> (\<forall>name. name \<in> set invalid \<longleftrightarrow> visited names name \<and> isl (read_mission E name (files name)))
    \<and> (\<forall>name s x. visited names name \<longrightarrow> read_mission E name (files name) = Inr s \<longrightarrow> x \<in> set (pending_items s) \<longrightarrow>
      (\<exists>i. inventory_entry E now name s x = Inr i))"
    using assms
  proof (induction names arbitrary: items invalid)
    case Nil
    then show ?case by (simp add: visited_def)
  next
    case (Cons n ns)
    have here: "visited (n # ns) name \<longleftrightarrow> (name = n \<and> normalize_uuid n = Inr n) \<or> visited ns name" for name
      by (auto simp: visited_def)
    show ?case
    proof (cases "normalize_uuid n = Inr n")
      case False
      then show ?thesis using Cons by (simp add: here)
    next
      case True
      show ?thesis
      proof (cases "read_mission E n (files n)")
        case (Inl x)
        then obtain invalid' where "scan_missions E now files ns = Inr (items, invalid')" "invalid = n # invalid'"
          using Cons.prems True by (auto split: if_splits sum.splits)
        then show ?thesis using Cons.IH [of items invalid'] True Inl unfolding here by auto
      next
        case (Inr s)
        then obtain entries items' where e: "map_result (inventory_entry E now n s) (pending_items s) = Inr entries"
          "scan_missions E now files ns = Inr (items', invalid)" "items = entries @ items'"
          using Cons.prems True by (auto split: if_splits sum.splits)
        show ?thesis using Cons.IH [OF e(2)] map_result_set [OF e(1)] True Inr e(3) unfolding here by auto
      qed
    qed
  qed
  then show "i \<in> set items \<longleftrightarrow> (\<exists>name s x. visited names name \<and> read_mission E name (files name) = Inr s
      \<and> x \<in> set (pending_items s) \<and> inventory_entry E now name s x = Inr i)"
    "name \<in> set invalid \<longleftrightarrow> visited names name \<and> isl (read_mission E name (files name))"
    "visited names name \<Longrightarrow> read_mission E name (files name) = Inr s \<Longrightarrow> x \<in> set (pending_items s) \<Longrightarrow>
      \<exists>i. inventory_entry E now name s x = Inr i"
    by blast+
qed

lemma expired_default_iff:
  "expired_default E now de = Inr (Some chosen) \<longleftrightarrow>
     (\<exists>deadline. parse_iso E (de_deadline de) = Some deadline \<and> deadline \<le> now) \<and> dr_risk (de_request de) = Low
     \<and> dr_reversible (de_request de) \<and> dr_default (de_request de) = Some chosen"
  by (auto simp: expired_default_def parse_timestamp_def split: option.splits)

lemma inventory_entry_fields:
  assumes "inventory_entry E now name s (k, de) = Inr i"
  shows "in_mission i = name" and "in_decision i = k"
    and "in_eligible i \<longleftrightarrow> (\<exists>chosen. expired_default E now de = Inr (Some chosen))"
  using assms
  by (auto simp: inventory_entry_def expired_default_def default_eligible_def Let_def split: prod.splits sum.splits)

lemma inventory_scanned:
  assumes "decision_inventory E now (Some names) files = Inr iv"
  obtains items invalid where "scan_missions E now files names = Inr (items, invalid)"
    and "set (iv_decisions iv) = set items" and "set (iv_invalid iv) = Some ` set invalid"
  using assms by (auto simp: decision_inventory_def split: sum.splits)

lemma read_mission_decisions:
  assumes "read_mission E name file = Inr s"
  shows "decisions_ok E (x_decisions s)"
  using assms derived_decisions by (auto simp: read_mission_def split: sum.splits)

lemma pending_listed:
  assumes "decisions_ok E (x_decisions s)"
  shows "fst ` set (pending_items s) = set (d_pending (x_decisions s))"
proof -
  have known: "\<exists>de. dget (d_all (x_decisions s)) k = Some de" if "k \<in> set (d_pending (x_decisions s))" for k
    using assms that by (auto simp: decisions_ok_def dhas_def)
  have "k \<in> fst ` set (pending_items s) \<longleftrightarrow> (\<exists>de. (k, de) \<in> set (pending_items s))" for k by force
  then show ?thesis using known by (auto simp: pending_items_iff)
qed

lemma due_decisions_iff:
  "due_decisions E now s =
     {k. \<exists>de deadline. k \<in> set (d_pending (x_decisions s)) \<and> dget (d_all (x_decisions s)) k = Some de
         \<and> parse_iso E (de_deadline de) = Some deadline \<and> deadline \<le> now \<and> dr_risk (de_request de) = Low
         \<and> dr_reversible (de_request de) \<and> dr_default (de_request de) \<noteq> None}"
  unfolding due_decisions_def expired_default_iff pending_items_iff by blast

lemma inventory_mission:
  assumes "decision_inventory E now (Some names) files = Inr iv" and "visited names name"
    and "read_mission E name (files name) = Inr s"
  shows "in_decision ` {i \<in> set (iv_decisions iv). in_mission i = name} = fst ` set (pending_items s)"
    and "in_decision ` {i \<in> set (iv_decisions iv). in_mission i = name \<and> in_eligible i} = due_decisions E now s"
proof -
  obtain items invalid where scan: "scan_missions E now files names = Inr (items, invalid)"
    and items: "set (iv_decisions iv) = set items"
    using assms(1) by (rule inventory_scanned)
  have listed: "i \<in> set (iv_decisions iv) \<and> in_mission i = name \<longleftrightarrow>
      (\<exists>k de. (k, de) \<in> set (pending_items s) \<and> inventory_entry E now name s (k, de) = Inr i)" for i
    using scan_lists(1) [OF scan, of i] assms(2,3) inventory_entry_fields(1) unfolding items by fastforce
  have some: "\<exists>i. inventory_entry E now name s (k, de) = Inr i" if "(k, de) \<in> set (pending_items s)" for k de
    using scan_lists(3) [OF scan assms(2,3) that] .
  have chosen: "in_decision ` {i \<in> set (iv_decisions iv). in_mission i = name \<and> P i}
      = {k. \<exists>de i. (k, de) \<in> set (pending_items s) \<and> inventory_entry E now name s (k, de) = Inr i \<and> P i}" (is "?L = ?R") for P
  proof (intro set_eqI iffI)
    fix k
    assume "k \<in> ?L"
    then obtain i where i: "i \<in> set (iv_decisions iv) \<and> in_mission i = name" "P i" "in_decision i = k" by auto
    from i(1) obtain k' de where e: "(k', de) \<in> set (pending_items s)" "inventory_entry E now name s (k', de) = Inr i"
      unfolding listed by blast
    then show "k \<in> ?R" using i inventory_entry_fields(2) [OF e(2)] by blast
  next
    fix k
    assume "k \<in> ?R"
    then obtain de i where e: "(k, de) \<in> set (pending_items s)" "inventory_entry E now name s (k, de) = Inr i" "P i" by blast
    then have "i \<in> set (iv_decisions iv) \<and> in_mission i = name" unfolding listed by blast
    then show "k \<in> ?L" using e(3) inventory_entry_fields(2) [OF e(2)] by blast
  qed
  have "fst ` set (pending_items s) = {k. \<exists>de. (k, de) \<in> set (pending_items s)}" by force
  also have "\<dots> = {k. \<exists>de i. (k, de) \<in> set (pending_items s) \<and> inventory_entry E now name s (k, de) = Inr i \<and> True}"
    using some by blast
  finally show "in_decision ` {i \<in> set (iv_decisions iv). in_mission i = name} = fst ` set (pending_items s)"
    using chosen [of "\<lambda>_. True"] by simp
  have "(\<exists>i. inventory_entry E now name s (k, de) = Inr i \<and> in_eligible i)
      \<longleftrightarrow> (\<exists>c. expired_default E now de = Inr (Some c))" if "(k, de) \<in> set (pending_items s)" for k de
    using some [OF that] inventory_entry_fields(3) by blast
  then show "in_decision ` {i \<in> set (iv_decisions iv). in_mission i = name \<and> in_eligible i} = due_decisions E now s"
    unfolding chosen due_decisions_def by blast
qed

end
