(* ===== verification/Reconcile_Theorems.thy ===== *)
theory Reconcile_Theorems
  imports Sample_Reconcile Inventory
begin

text \<open>
  What the decision client promises: a reconciliation that returns has settled every expired
  default, whoever else writes to the ledger; without other writers it returns; and the inventory
  announces exactly the defaults that it would take.
\<close>

section \<open>Reconciliation\<close>

text \<open>C25: a reconciliation that returns has settled every expired default, whatever other processes appended
  between its reads: each decision that was pending and due when it started is resolved in the ledger it
  leaves, with the request it had, and those it reports were resolved by their own default.\<close>

theorem reconcile_settles:
  assumes "reconcile_expired E now mission file u0 u1 = Inr (answer, left)"
    and "load_mission E mission file = Inr (mid, s)"
    and "grown E mid file (tu_append u0)" and "grown E mid file (tu_reload u0)" and "grown E mid (tu_reload u0) (tu_append u1)"
    and "reader_ok E" and "clock_text E"
    and "k \<in> set (d_pending (x_decisions s))" and "dget (d_all (x_decisions s)) k = Some de"
    and "parse_iso E (de_deadline de) = Some deadline" and "deadline \<le> now"
    and "dr_risk (de_request de) = Low" and "dr_reversible (de_request de)" and "dr_default (de_request de) = Some chosen"
  shows "\<exists>s' de' r. (left_in s left s' \<or> (\<exists>s1. load_mission E mid (tu_reload u0) = Inr (mid, s1) \<and> left_in s1 left s'))
    \<and> k \<notin> set (d_pending (x_decisions s'))
    \<and> dget (d_all (x_decisions s')) k = Some de' \<and> de_request de' = de_request de \<and> de_resolution de' = Some r
    \<and> (k \<in> set (ka_resolved answer) \<longrightarrow> rs_kind (re_payload r) = Automatic \<and> rs_option (re_payload r) = chosen)"
proof -
  let ?p = "resolution_by de chosen auto_reason Automatic"
  have due: "expired_default E now de = Inr (Some chosen)" using assms(10-14) by (simp add: expired_default_iff)
  obtain es where mid: "is_uuid mid" and read: "read_events E mid file = Inr es" "derive_state E es = Inr s"
    by (rule load_mission_ok [OF assms(2)])
  have id: "rs_decision ?p = k"
    using decisions_okD [OF derived_decisions [OF read(2)] assms(9)] by (simp add: decision_ok_def resolution_by_def)
  have "reconcile_loop E now mid s [u0, u1] = Inr (answer, left)"
    using assms(1,2) by (simp add: reconcile_expired_def)
  then show ?thesis
  proof (cases rule: loop_turns)
    case first
    obtain s' where s': "left_in s left s'" "decisions_kept (x_decisions s) (x_decisions s')" "decisions_ok E (x_decisions s')"
      "settled_by s' ?p"
      by (rule last_turn [OF first mid read assms(3,6,7)]) (use assms(8,9) due in \<open>auto simp: pending_items_iff\<close>)
    then show ?thesis
      using settled_closed [OF s'(4,3)] closed_decision [OF s'(2,3), of ?p de True] assms(9) unfolding id by (fastforce simp: resolution_by_def)
  next
    case (second m s1)
    obtain es1 where m: "m = mid" and read1: "read_events E mid (tu_reload u0) = Inr es1" "derive_state E es1 = Inr s1"
      using second(1) normalize_canonical [OF mid] by (elim load_mission_ok) auto
    obtain s' where s': "left_in s1 left s'" "decisions_kept (x_decisions s) (x_decisions s')" "decisions_ok E (x_decisions s')"
      "k \<notin> set (d_pending (x_decisions s'))" "k \<in> set (ka_resolved answer) \<longrightarrow> settled_by s' ?p"
      by (rule second_turn [OF second(2) mid read1 assms(5-7) grown_kept [OF assms(4) read read1 assms(6)] assms(9) due])
    then show ?thesis
      using closed_decision [OF s'(2,3), of ?p de "k \<in> set (ka_resolved answer)"] assms(9) second(1) unfolding id m by (fastforce simp: resolution_by_def)
  qed
qed

lemma reconcile_settles_witness:
  "\<exists>answer left s' de' r.
     reconcile_expired sample 8000000000 (sample_uuid ''mission'') pending_file sample_turn sample_turn = Inr (answer, left)
     \<and> left_in pending_state left s' \<and> pending_key \<notin> set (d_pending (x_decisions s'))
     \<and> dget (d_all (x_decisions s')) pending_key = Some de' \<and> de_request de' = de_request pending_record
     \<and> de_resolution de' = Some r \<and> rs_kind (re_payload r) = Automatic \<and> rs_option (re_payload r) = ''keep''"
proof -
  obtain answer left where run:
    "reconcile_expired sample 8000000000 (sample_uuid ''mission'') pending_file sample_turn sample_turn = Inr (answer, left)"
    "set (ka_resolved answer) = due_decisions sample 8000000000 pending_state"
    using reconcile_returns [OF sample_library sample_reader pending_loaded pending_quiet sample_turn_simps(1)] by blast
  have "pending_key \<in> set (ka_resolved answer)"
    using pending_decision_sample pending_expired by (auto simp: run(2) due_decisions_def pending_items_iff)
  moreover have pending: "pending_key \<in> set (d_pending (x_decisions pending_state))" by (simp add: pending_decision_sample)
  have deadline: "parse_iso sample (de_deadline pending_record) = Some 7200000015" "(7200000015::int) \<le> 8000000000"
    using pending_decision_sample(7) pending_parse by simp_all
  note settled = reconcile_settles [OF run(1) pending_loaded _ _ _ sample_reader sample_clock_text pending
      pending_decision_sample(3) deadline pending_decision_sample(4-6), unfolded sample_turn_simps, OF pending_grown pending_grown pending_grown]
  ultimately show ?thesis using run(1) settled pending_loaded by (fastforce simp: resolution_by_def)
qed

text \<open>C26: a reconciliation returns when nobody else writes: on the ledger of a mission that has not ended, with
  readable deadlines and unused keys, in a world that can publish, it answers, and it has resolved every
  decision that is due and nothing else.\<close>

theorem reconcile_succeeds:
  assumes "library_ok E" and "reader_ok E" and "load_mission E mission file = Inr (mid, s)"
    and "quiet_ledger E mid file (tu_world u0) now es s" and "tu_append u0 = file"
  shows "\<exists>answer left. reconcile_expired E now mission file u0 u1 = Inr (answer, left)
    \<and> set (ka_resolved answer) = {k. \<exists>de deadline. k \<in> set (d_pending (x_decisions s)) \<and> dget (d_all (x_decisions s)) k = Some de
            \<and> parse_iso E (de_deadline de) = Some deadline \<and> deadline \<le> now \<and> dr_risk (de_request de) = Low
            \<and> dr_reversible (de_request de) \<and> dr_default (de_request de) \<noteq> None}
    \<and> ka_appended answer = length (ka_resolved answer) \<and> ka_mission answer = mid"
  using reconcile_returns [OF assms] unfolding due_decisions_iff .

lemma reconcile_succeeds_witness:
  "\<exists>answer left.
     reconcile_expired sample 8000000000 (sample_uuid ''mission'') pending_file sample_turn sample_turn = Inr (answer, left)
     \<and> set (ka_resolved answer) = {pending_key} \<and> ka_appended answer = length (ka_resolved answer)"
proof -
  have "{k. \<exists>de deadline. k \<in> set (d_pending (x_decisions pending_state)) \<and> dget (d_all (x_decisions pending_state)) k = Some de
            \<and> parse_iso sample (de_deadline de) = Some deadline \<and> deadline \<le> 8000000000 \<and> dr_risk (de_request de) = Low
            \<and> dr_reversible (de_request de) \<and> dr_default (de_request de) \<noteq> None} = {pending_key}"
    using pending_decision_sample pending_parse by auto
  then show ?thesis
    using reconcile_succeeds [OF sample_library sample_reader pending_loaded pending_quiet sample_turn_simps(1), of sample_turn]
    by (elim exE conjE, intro exI conjI) simp_all
qed

section \<open>The inventory\<close>

text \<open>C27: for every mission that can be read, the inventory lists exactly the pending decisions, and marks as
  eligible exactly those whose default a reconciliation at the same instant takes; the missions it reports as
  invalid are exactly those whose ledger is refused.\<close>

theorem inventory_announces:
  assumes "decision_inventory E now (Some names) files = Inr iv" and "name \<in> set names" and "normalize_uuid name = Inr name"
  shows "case read_mission E name (files name) of
      Inl x \<Rightarrow> Some name \<in> set (iv_invalid iv)
    | Inr s \<Rightarrow> Some name \<notin> set (iv_invalid iv)
        \<and> in_decision ` {i \<in> set (iv_decisions iv). in_mission i = name} = set (d_pending (x_decisions s))
        \<and> in_decision ` {i \<in> set (iv_decisions iv). in_mission i = name \<and> in_eligible i} =
          {k. \<exists>de deadline. k \<in> set (d_pending (x_decisions s)) \<and> dget (d_all (x_decisions s)) k = Some de
            \<and> parse_iso E (de_deadline de) = Some deadline \<and> deadline \<le> now \<and> dr_risk (de_request de) = Low
            \<and> dr_reversible (de_request de) \<and> dr_default (de_request de) \<noteq> None}"
proof -
  have visited: "visited names name" using assms(2,3) by (simp add: visited_def)
  obtain items invalid where scan: "scan_missions E now files names = Inr (items, invalid)"
    and reported: "set (iv_invalid iv) = Some ` set invalid"
    using assms(1) by (rule inventory_scanned)
  have refused: "Some name \<in> set (iv_invalid iv) \<longleftrightarrow> isl (read_mission E name (files name))"
    using scan_lists(2) [OF scan, of name] visited reported by auto
  show ?thesis
  proof (cases "read_mission E name (files name)")
    case (Inr s)
    show ?thesis
      unfolding Inr sum.case inventory_mission [OF assms(1) visited Inr] pending_listed [OF read_mission_decisions [OF Inr]]
      using refused Inr by (simp add: due_decisions_iff)
  qed (use refused in simp)
qed

lemma inventory_announces_witness:
  "\<exists>iv. decision_inventory sample 8000000000 (Some [''notes'', sample_uuid ''mission'']) (\<lambda>name. pending_file) = Inr iv
     \<and> in_decision ` {i \<in> set (iv_decisions iv). in_mission i = sample_uuid ''mission'' \<and> in_eligible i} = {pending_key}"
proof -
  have read: "read_mission sample (sample_uuid ''mission'') pending_file = Inr pending_state"
    using pending_read pending_state(1) by (simp add: read_mission_def)
  have other: "normalize_uuid ''notes'' \<noteq> Inr ''notes''" by code_simp
  have mission: "normalize_uuid (sample_uuid ''mission'') = Inr (sample_uuid ''mission'')"
    using normalize_canonical [OF sample_mission] .
  obtain i where "inventory_entry sample 8000000000 (sample_uuid ''mission'') pending_state (pending_key, pending_record) = Inr i"
    using pending_entry by blast
  then obtain iv where iv: "decision_inventory sample 8000000000 (Some [''notes'', sample_uuid ''mission'']) (\<lambda>name. pending_file) = Inr iv"
    using read other mission pending_item by (auto simp: decision_inventory_def)
  have "{k. \<exists>de deadline. k \<in> set (d_pending (x_decisions pending_state)) \<and> dget (d_all (x_decisions pending_state)) k = Some de
            \<and> parse_iso sample (de_deadline de) = Some deadline \<and> deadline \<le> 8000000000 \<and> dr_risk (de_request de) = Low
            \<and> dr_reversible (de_request de) \<and> dr_default (de_request de) \<noteq> None} = {pending_key}"
    using pending_decision_sample pending_parse by auto
  then show ?thesis using inventory_announces [OF iv _ mission] iv by (simp add: read)
qed

end
