(* ===== verification/Human_Resolution.thy ===== *)
theory Human_Resolution
  imports Decision_Reconcile
begin

text \<open>
  What a human resolution achieves: the decision that \<open>resolve_human\<close> returns is resolved by exactly
  the option and the reason that were given, also when the request only repeats an earlier one.
\<close>

lemma ledger_append_answers:
  assumes "ledger_append E w mid f kind actor key p = Inr ((e, b), t)" and "wf_json (request_json kind actor key p)"
    and "reader_ok E" and "clock_text E"
  shows "answers \<lparr>q_kind = kind, q_actor = actor, q_key = key, q_payload = canonical_copy p\<rparr> (e, b)"
proof -
  let ?j = "request_json kind actor key p"
  obtain t0 q rs where t0: "open_txn E mid f = Inr t0" and q: "normalize_event_request E ?j = Inr q"
    and a: "append_events E w t0 [request_json kind actor key (q_payload q)] = Inr (rs, t)" and hd: "hd rs = (e, b)"
    using assms(1) by (auto simp: ledger_append_def in_transaction_def first_result_def split: sum.splits)
  have q': "q = \<lparr>q_kind = kind, q_actor = actor, q_key = key, q_payload = canonical_copy p\<rparr>"
    using q by (simp add: normalize_request_json)
  have "request_json kind actor key (q_payload q) = plain_of q" by (simp add: plain_of_def q')
  then have n: "append_normalized E w t0 [q] = Inr (rs, t)"
    using a normalize_again [OF q] by (simp add: append_events_def split: if_splits)
  have "\<forall>q \<in> set [q]. writable q"
    by (rule normalized_writable [of E "[?j]"]) (use q assms(2) in simp_all)
  from append_normalized_ok(3) [OF n open_txn_ok(1) [OF t0 assms(3)] this assms(4)] hd show ?thesis
    by (auto simp: q' list_all2_Cons1)
qed

lemma resolve_human_steps:
  assumes "resolve_human E w mission file at_append after k chosen reason key = Inr answer"
    and "load_mission E mission file = Inr (mid, s)" and "find_decision s k = Inr de"
  obtains b t m s' where "valid_decision_resolved (resolution_json de chosen reason ''human'') = Inr ()"
    and "ledger_append E w mid at_append ''human_decision_resolved'' ''HUMAN'' key (resolution_json de chosen reason ''human'')
      = Inr ((ha_event answer, b), t)"
    and "load_mission E mid after = Inr (m, s')" and "find_decision s' k = Inr (ha_decision answer)"
  using assms by (auto simp: resolve_human_def resolution_payload_def or_decision_error_def split: sum.splits prod.splits)

lemma found_decision:
  assumes "find_decision s k = Inr de"
  obtains did where "normalize_uuid k = Inr did" and "dget (d_all (x_decisions s)) did = Some de"
  using assms by (auto simp: find_decision_def or_decision_error_def split: sum.splits option.splits)

lemma human_resolution_settles:
  assumes answer: "resolve_human E w mission file at_append after k chosen reason key = Inr answer"
    and load: "load_mission E mission file = Inr (mid, s)" and de: "find_decision s k = Inr de"
    and kept: "read_events E mid after = Inr es" "ha_event answer \<in> set es"
    and env: "reader_ok E" "clock_text E" and utf8: "utf8_ok reason"
  shows "\<exists>r. de_resolution (ha_decision answer) = Some r \<and> re_payload r = resolution_by de chosen reason By_human"
proof -
  let ?p = "resolution_json de chosen reason ''human''"
  obtain b t m s' where valid: "valid_decision_resolved ?p = Inr ()"
    and append: "ledger_append E w mid at_append ''human_decision_resolved'' ''HUMAN'' key ?p = Inr ((ha_event answer, b), t)"
    and after: "load_mission E mid after = Inr (m, s')" "find_decision s' k = Inr (ha_decision answer)"
    by (rule resolve_human_steps [OF answer load de])
  obtain es0 where mid: "is_uuid mid" and s: "derive_state E es0 = Inr s" by (rule load_mission_ok [OF load])
  obtain es' where s': "read_events E m after = Inr es'" "derive_state E es' = Inr s'" "normalize_uuid mid = Inr m"
    by (rule load_mission_ok [OF after(1)])
  have "m = mid" using s'(3) normalize_canonical [OF mid] by simp
  then have same: "es' = es" using s'(1) kept(1) by simp
  obtain did where did: "normalize_uuid k = Inr did" "dget (d_all (x_decisions s)) did = Some de" by (rule found_decision [OF de])
  have id: "dr_id (de_request de) = did" using decisions_okD [OF derived_decisions [OF s] did(2)] by (simp add: decision_ok_def)
  have "safe_key key"
    using append by (auto simp: ledger_append_def normalize_request_json split: sum.splits)
  then have "utf8_ok key" using ascii_names(3) ascii_utf8 by blast
  moreover have "utf8_ok ''human_decision_resolved''" "utf8_ok ''HUMAN''" by (rule ascii_utf8; simp add: ascii_def)+
  ultimately have "wf_json (request_json ''human_decision_resolved'' ''HUMAN'' key ?p)"
    by (intro request_wf resolution_wf valid utf8)
  note answers = ledger_append_answers [OF append this env]
  have chain: "chained E mid None es" using read_chained(1) [OF kept(1) env(1)] .
  have "closed_event (ha_event answer)" using chained_wf [OF chain kept(2)] .
  then have wf: "wf_json (e_payload (ha_event answer))" by (simp add: closed_event_def event_json_def unsigned_items_def)
  have "resolution_of (e_payload (ha_event answer)) = resolution_by de chosen reason By_human"
    by (rule answered_resolution [OF _ wf]) (use answers in \<open>simp add: answers_def same_request_def\<close>)
  moreover have "e_kind (ha_event answer) = ''human_decision_resolved''" using answers by (simp add: answers_def same_request_def)
  ultimately have "settled_by s' (resolution_by de chosen reason By_human)"
    using recorded_resolution [OF s'(2) [unfolded same] chained_sequenced [OF chain] kept(2)] decode_resolved by simp
  moreover have "dget (d_all (x_decisions s')) did = Some (ha_decision answer)"
    using found_decision [OF after(2)] did(1) by (metis sum.inject(2))
  ultimately show ?thesis using id by (auto simp: settled_by_def resolution_by_def)
qed

end
