(* ===== verification/Spec2Isabelle.thy ===== *)
theory Spec2Isabelle
  imports Admission_Theorems Lifecycle_Theorems Decision_Theorems Ledger_Theorems Client_Theorems
    Wind_Down Recreation Reconcile_Theorems Human_Resolution
begin

text \<open>
  \<^bold>\<open>The program.\<close>  The fleet orchestrator runs missions with several agents and keeps the truth of a
  mission in one file: an append-only JSON Lines ledger whose events are validated, numbered,
  linked by SHA-256 digests, and folded into the state of the mission
  (scripts/fleet_mission_state.py).  Every other script reads that state or appends events under a
  lock.  This development models the ledger from its bytes to the derived state, the reducers it
  delegates to (scripts/fleet_herdr_control.py, scripts/fleet_herdr_inference.py), the JSON layer
  (scripts/fleet_json.py), the client that reserves, commits, launches and ends the work of an
  agent (scripts/fleet_admission.py) and the client of human decisions (scripts/fleet_decisions.py).

  \<^bold>\<open>How the parts interact.\<close>  Bytes are read by the strict JSON reader, each record is checked against
  the envelope, the chain and the registry of payloads, a valid payload is decoded to an event,
  and the reducer folds the events.  A transaction holds the events, the state and the bytes; an
  append validates requests, derives the state again and publishes the longer file.  A client
  operation checks its arguments, opens a transaction and appends one event.

  \<^bold>\<open>Definitions.\<close>  Each theory names the functions it translates.

  \<^item> Prelude: exceptions as the datatype \<open>error\<close>, fallible code as \<open>'a result = error + 'a\<close>, Python
    dictionaries as \<open>'v dict\<close> (association lists with unique keys in insertion order), with the
    locale \<open>dictionary\<close> and its interpretation.
  \<^item> Json, Json_Parse: values, \<open>canonical_bytes\<close>, \<open>loads\<close> and \<open>load_jsonl\<close> over bytes.  Strings are UTF-8
    byte sequences, integers are unbounded as in Python.
  \<^item> Checks: the compiled patterns, \<open>normalize_uuid\<close>, digests and instants (microseconds).  The record
    \<open>prims\<close> holds what the library computes: SHA-256, \<open>uuid5\<close>, the two directions of ISO timestamps and
    the value of a fractional number.
  \<^item> Schema, Schema_Runs, Schema_Admission, Schema_Herdr: \<open>_validate_payload\<close> and its validators, check by
    check, with the exception of the first that fails.  Events is the payload of each kind as data,
    Decode reads a valid payload as such data.
  \<^item> State: the dictionary of \<open>derive_state\<close> as records.  Admission (guards, digests), Reserve (a batch),
    Admission_Steps (commit to terminal), Runs (Lead, delegations, results), Decisions (requests and
    outbox), Lifecycle (status, risk, approvals, terminal), Inference and Herdr are its reducers.
  \<^item> Ledger: envelope, chain, \<open>_events_from_bytes\<close>, \<open>derive_state\<close>, \<open>resume_plan\<close>.  Transaction: \<open>append_events\<close>,
    \<open>append_event\<close>, \<open>append_terminal\<close> and opening a ledger.
  \<^item> Admission_Client (\<open>reserve_many\<close> and the batch it builds) and Client_Steps (\<open>freeze_policy\<close>, \<open>commit\<close>,
    \<open>verify_commit\<close>, \<open>authorize_launch\<close>, \<open>mark_started\<close>, \<open>finalize\<close>, \<open>abort_prelaunch\<close>): the admission
    client.
  \<^item> Decision_Client: \<open>resolve_human\<close>, \<open>reconcile_expired\<close> with its second turn after a conflict,
    \<open>list_decisions\<close> and \<open>decision_inventory\<close>.  Each time the source reads the ledger again, the bytes it finds
    are an argument, since other processes may have written in between.

  \<^bold>\<open>What is shown.\<close>

  \<^item> Admissions.  Admission_Spec is the abstract specification, a relation of atomic moves;
    Admission_Sim shows that every accepted admission or run event is a sequence of moves, and the
    locale \<open>admission_invariant\<close> of Safety carries an invariant of the moves to every ledger.
    Admission_Inv, Credit_Inv, Family_Inv, Owner_Inv, Recipient_Inv and Binding_Inv prove the
    invariants; Admission_Theorems states them: one writer, exclusive recipients and runs, credits
    conserved and bounded, parents that outlive their children, budgets kept, phases that only
    advance.
  \<^item> Lifecycle and decisions.  Statuses follow the edges of the lifecycle, completing and ended
    missions are quiet, risk never falls, approvals stay bound, work needs authority; decisions are
    pending until an authorized resolution, notifications wait for their backoff, and no specialist
    works for a recipient that a pending decision blocks.
  \<^item> Bytes.  Json_Round, Json_Bound, Json_Lines and Ledger_Bytes relate values and bytes; Txn_Inv ties a
    transaction to its bytes.  Ledger_Theorems: canonical text round-trips, the reader returns well
    formed values, the bytes of a ledger are exactly its events, the head digest stands for the
    history up to a SHA-256 collision, an append extends, reopens, repeats and refuses as intended.
  \<^item> The client.  Append_Live says when an append succeeds; Client_Inv and Client_Match that what the
    client builds is what the reducer recomputes.  Client_Theorems: a reserved batch is stored as it
    was asked for, a verified commit is the proof of a live admission, and a batch of resolvable
    requests is refused only as a conflict with the present state or for want of a frozen policy, never
    as malformed, in the lane of either actor.
  \<^item> Ending.  Typed_Inv and Uuid: stored admissions keep the types they were checked for, so a client
    call that names one passes its checks.  Release: a leaf of the tree of active admissions can be
    aborted or finalized.  Wind_Down: from every open mission that is settled, one call per active
    admission and one terminal bring it to its end.
  \<^item> Recreation: nothing stops a second \<open>mission_created\<close> event, after which the mission can be compiled away
    from the digest that its frozen policy is bound to.
  \<^item> The decision client.  Decision_Final: what the ledger keeps of a decision while others append.
    Decision_Typed: stored decisions keep the types they were checked for.  Decision_Reconcile: what a
    turn of the reconciliation leaves.  Decision_Live: when a turn succeeds.  Inventory: what is listed.
    Reconcile_Theorems: a reconciliation that returns has settled every expired default whatever was
    appended meanwhile, it returns when nobody else writes, and the inventory announces exactly what it
    would take.  Human_Resolution: the decision that \<open>resolve_human\<close> returns is resolved as the human said.
  \<^item> Sample, Sample_Decision, Sample_Client and Sample_Reconcile are concrete missions on which the theorems are applied.

  \<^bold>\<open>Bounds.\<close>  Every function is total.  The scanner recurses on a bound that starts at the length of the
  text; \<open>scan_value_bound\<close> of Json_Bound shows that a larger bound reads nothing more.  The walk over parents of a
  batch terminates because it never enters an admission twice.  The loop of \<open>reconcile_expired\<close>
  has the two turns of the source.  Nothing else uses fuel.

  \<^bold>\<open>Not modelled.\<close>
  \<^item> Operating-system effects: locks, directory descriptors, \<open>O_NOFOLLOW\<close>, fsync and rename, and the
    mutation barrier of scripts/fleet_mission_state.py.  Opening a transaction takes the bytes of the
    file (None when it is absent), and the flags of \<open>world\<close> say whether the transaction may write and
    whether the publication succeeded.
  \<^item> What the library computes (\<open>prims\<close>); theorems state what they ask of it (\<open>reader_ok\<close>, \<open>clock_text\<close>).
    Limits of the interpreter (recursion depth, digits of an integer) and spellings of a UUID that
    only the integer parser of Python accepts are left out.
  \<^item> Values that JSON cannot carry: \<open>canonical_copy\<close> does not repeat the refusals of \<open>_validate_value\<close>, so
    theorems on what is written ask that the payload is well formed (\<open>wf_json\<close>), as every value the reader
    returns is.  The numbers of \<open>json\<close> are integers: what the reader makes of the
    text of a fractional number is an argument (\<open>parse_float\<close>).
  \<^item> The text that a decision is shown as (\<open>format_brief\<close>), and the listing of the store itself.
  \<^item> The scripts around the ledger: command lines, the control service, providers, worktrees,
    dialogue, archives, audit stores and evaluation campaigns.  Their effect on a mission is the
    events they append, which are modelled; what else they do is input and output.
\<close>

end
